(* ===== verification/Libc_Prelude.thy ===== *)
theory Libc_Prelude
  imports Main "HOL-Library.Word"
begin

text \<open>
  Shared vocabulary of the development: the machine integers of the crate as words, the
  outcome of a Rust function (\<open>Ok\<close>, \<open>Err\<close> or a panic), effectful code as state passing over
  the kernel's state, the byte encodings behind \<open>to_be_bytes\<close>/\<open>from_ne_bytes\<close>, decimal
  rendering of integers, and the slice operations with the range checks Rust makes.
\<close>

unbundle bit_operations_syntax

section \<open>Machine integers\<close>

text \<open>
  Signed types are words too; \<open>sint\<close> reads them. \<open>x as usize\<close> of an \<open>i32\<close> sign-extends
  (\<open>scast\<close>), of an unsigned type it zero-extends (\<open>ucast\<close>), and a narrowing cast truncates
  (\<open>ucast\<close>).
\<close>

type_synonym byte = "8 word"
type_synonym u16 = "16 word"
type_synonym u32 = "32 word"
type_synonym u64 = "64 word"
type_synonym usize = "64 word"
type_synonym i16 = "16 word"
type_synonym i32 = "32 word"
type_synonym i64 = "64 word"

section \<open>Theorem collections\<close>

named_theorems io_simps \<open>unfolding rules of the effect combinators\<close>
named_theorems codec_simps \<open>round-trip and length rules of byte codecs\<close>

section \<open>Outcomes of a Rust function\<close>

datatype Errno = Errno (code: i32)

datatype 'a res = Ok 'a | Err Errno | Panic

fun res_bind :: "'a res \<Rightarrow> ('a \<Rightarrow> 'b res) \<Rightarrow> 'b res" where
  "res_bind (Ok x) f = f x"
| "res_bind (Err e) f = Err e"
| "res_bind Panic f = Panic"

lemma map_res_Panic [simp]: "map_res f r = Panic \<longleftrightarrow> r = Panic"
  by (cases r) simp_all

lemma res_bind_assoc: "res_bind (res_bind m f) g = res_bind m (\<lambda>x. res_bind (f x) g)"
  by (cases m) simp_all

lemma res_bind_eq_Ok: "res_bind m f = Ok y \<longleftrightarrow> (\<exists>x. m = Ok x \<and> f x = Ok y)"
  by (cases m) auto

lemma res_bind_eq_Err:
  "res_bind m f = Err e \<longleftrightarrow> m = Err e \<or> (\<exists>x. m = Ok x \<and> f x = Err e)"
  by (cases m) auto

lemma res_bind_eq_Panic:
  "res_bind m f = Panic \<longleftrightarrow> m = Panic \<or> (\<exists>x. m = Ok x \<and> f x = Panic)"
  by (cases m) auto

lemmas res_bind_iffs = res_bind_eq_Ok res_bind_eq_Err res_bind_eq_Panic

section \<open>Effectful code\<close>

text \<open>
  A function that may enter the kernel takes the kernel's state and returns its outcome
  with the state after it; \<open>io_bind\<close> is sequencing with the \<open>?\<close> operator.
\<close>

type_synonym ('k, 'a) io = "'k \<Rightarrow> 'a res \<times> 'k"

definition io_return :: "'a \<Rightarrow> ('k, 'a) io" where
  "io_return x = (\<lambda>k. (Ok x, k))"

definition io_err :: "Errno \<Rightarrow> ('k, 'a) io" where
  "io_err e = (\<lambda>k. (Err e, k))"

definition io_bind :: "('k, 'a) io \<Rightarrow> ('a \<Rightarrow> ('k, 'b) io) \<Rightarrow> ('k, 'b) io" where
  "io_bind m f = (\<lambda>k. case m k of
       (Ok x, k') \<Rightarrow> f x k'
     | (Err e, k') \<Rightarrow> (Err e, k')
     | (Panic, k') \<Rightarrow> (Panic, k'))"

text \<open>\<open>io_ignore m f\<close> runs \<open>m\<close>, drops its result (\<open>let _ =\<close>, \<open>.ok();\<close>) and goes on with \<open>f\<close>.\<close>

definition io_ignore :: "('k, 'a) io \<Rightarrow> ('k, 'b) io \<Rightarrow> ('k, 'b) io" where
  "io_ignore m f = (\<lambda>k. case m k of (Panic, k') \<Rightarrow> (Panic, k') | (_, k') \<Rightarrow> f k')"

lemma io_return_apply [io_simps]: "io_return x k = (Ok x, k)"
  by (simp add: io_return_def)

lemma io_err_apply [io_simps]: "io_err e k = (Err e, k)"
  by (simp add: io_err_def)

lemma io_bind_Ok [io_simps]: "m k = (Ok x, k') \<Longrightarrow> io_bind m f k = f x k'"
  by (simp add: io_bind_def)

lemma io_bind_Err [io_simps]: "m k = (Err e, k') \<Longrightarrow> io_bind m f k = (Err e, k')"
  by (simp add: io_bind_def)

lemma io_bind_assoc: "io_bind (io_bind m f) g = io_bind m (\<lambda>x. io_bind (f x) g)"
  by (auto simp: io_bind_def fun_eq_iff split: prod.splits res.splits)

lemma io_bind_return [simp]: "io_bind (io_return x) f = f x"
  by (simp add: io_bind_def io_return_def)

lemma io_bind_eq_Ok:
  "io_bind m f k = (Ok y, k'') \<longleftrightarrow> (\<exists>x k'. m k = (Ok x, k') \<and> f x k' = (Ok y, k''))"
  by (auto simp: io_bind_def split: prod.splits res.splits)

section \<open>Byte encodings of integers\<close>

text \<open>
  Both supported targets are little-endian, so \<open>to_ne_bytes\<close> is \<open>le_bytes\<close> at the type's
  size in bytes and \<open>from_ne_bytes\<close> is \<open>le_word\<close>.
\<close>

fun le_bytes :: "nat \<Rightarrow> 'a::len word \<Rightarrow> byte list" where
  "le_bytes 0 w = []"
| "le_bytes (Suc n) w = ucast w # le_bytes n (drop_bit 8 w)"

fun le_word :: "byte list \<Rightarrow> 'a::len word" where
  "le_word [] = 0"
| "le_word (b # bs) = ucast b OR push_bit 8 (le_word bs)"

definition be_bytes :: "nat \<Rightarrow> 'a::len word \<Rightarrow> byte list" where
  "be_bytes n w = rev (le_bytes n w)"

definition be_word :: "byte list \<Rightarrow> 'a::len word" where
  "be_word bs = le_word (rev bs)"

lemma length_le_bytes [simp, codec_simps]: "length (le_bytes n w) = n"
  by (induction n arbitrary: w) simp_all

lemma length_be_bytes [simp, codec_simps]: "length (be_bytes n w) = n"
  by (simp add: be_bytes_def)

lemma le_bytes_numeral:
  "le_bytes (numeral n) w = ucast w # le_bytes (pred_numeral n) (drop_bit 8 w)"
  by (simp add: numeral_eq_Suc)

lemma le_bytes_0 [simp]: "le_bytes n 0 = replicate n 0"
  by (induction n) simp_all

lemmas two_fold = numeral_2_eq_2 [symmetric]

lemma le_word_le_bytes:
  "le_word (le_bytes n w) = take_bit (8 * n) (w :: 'a::len word)"
proof (induction n arbitrary: w)
  case 0
  then show ?case by simp
next
  case (Suc n)
  have "ucast (ucast w :: byte) OR push_bit 8 (take_bit (8 * n) (drop_bit 8 w))
      = take_bit (8 * Suc n) w"
    by (rule bit_word_eqI) (auto simp: bit_simps)
  then show ?case using Suc.IH [of "drop_bit 8 w"] by simp
qed

lemma le_word_le_bytes_full [codec_simps]:
  "LENGTH('a) \<le> 8 * n \<Longrightarrow> le_word (le_bytes n w) = (w :: 'a::len word)"
  by (simp add: le_word_le_bytes take_bit_word_eq_self)

lemma be_word_be_bytes_full [codec_simps]:
  "LENGTH('a) \<le> 8 * n \<Longrightarrow> be_word (be_bytes n w) = (w :: 'a::len word)"
  by (simp add: be_word_def be_bytes_def le_word_le_bytes_full)

lemma not_bit_byte [simp]: "8 \<le> n \<Longrightarrow> \<not> bit (b :: byte) n"
  using bit_imp_le_length [of b n] by auto

lemma bit_byte_lt: "bit (b :: byte) n \<Longrightarrow> n < 8"
  using bit_imp_le_length [of b n] by simp

lemma le_bytes_cong:
  "(\<And>i. i < 8 * n \<Longrightarrow> bit v i = bit (w :: 'a::len word) i) \<Longrightarrow> le_bytes n v = le_bytes n w"
proof (induction n arbitrary: v w)
  case 0
  then show ?case by simp
next
  case (Suc n)
  have "(ucast v :: byte) = ucast w"
  proof (rule bit_word_eqI)
    fix i assume "i < LENGTH(8)"
    with Suc.prems [of i] show "bit (ucast v :: byte) i = bit (ucast w :: byte) i"
      by (simp add: bit_ucast_iff)
  qed
  moreover have "le_bytes n (drop_bit 8 v) = le_bytes n (drop_bit 8 w)"
  proof (rule Suc.IH)
    fix i assume "i < 8 * n"
    with Suc.prems [of "8 + i"] show "bit (drop_bit 8 v) i = bit (drop_bit 8 w) i"
      by (simp add: bit_drop_bit_eq)
  qed
  ultimately show ?case by simp
qed

lemma le_bytes_le_word:
  "8 * length bs \<le> LENGTH('a) \<Longrightarrow> le_bytes (length bs) (le_word bs :: 'a::len word) = bs"
proof (induction bs)
  case Nil
  then show ?case by simp
next
  case (Cons b bs)
  let ?w = "le_word bs :: 'a word"
  let ?v = "ucast b OR push_bit 8 ?w :: 'a word"
  have lo: "(ucast ?v :: byte) = b"
    using Cons.prems by (intro bit_word_eqI) (auto simp: bit_simps)
  have "le_bytes (length bs) (drop_bit 8 ?v) = le_bytes (length bs) ?w"
    using Cons.prems by (intro le_bytes_cong) (auto simp: bit_simps)
  then show ?case using lo Cons by simp
qed

lemma be_bytes_be_word:
  "8 * length bs \<le> LENGTH('a) \<Longrightarrow> be_bytes (length bs) (be_word bs :: 'a::len word) = bs"
  using le_bytes_le_word [of "rev bs", where 'a = 'a] by (simp add: be_bytes_def be_word_def)

lemma ucast_ucast_i32 [simp]: "(ucast (ucast (v :: i32) :: usize) :: i32) = v"
  by (rule bit_word_eqI) (auto simp: bit_simps)

lemma ucast_scast_i32: "(ucast (scast (v :: i32) :: usize) :: i32) = v"
  by (rule bit_word_eqI) (auto simp: bit_simps)

lemma scast_i32_inject [simp]: "(scast (v :: i32) :: usize) = scast w \<longleftrightarrow> v = w"
  by (metis ucast_scast_i32)

lemma unat_ucast_up:
  "LENGTH('a) \<le> LENGTH('b) \<Longrightarrow> unat (ucast (w :: 'a::len word) :: 'b::len word) = unat w"
proof -
  assume le: "LENGTH('a) \<le> LENGTH('b)"
  have "unat w < 2 ^ LENGTH('a)" by (rule unsigned_less)
  also have "\<dots> \<le> 2 ^ LENGTH('b)" using le by simp
  finally show ?thesis by (simp add: unsigned_ucast_eq take_bit_nat_eq_self)
qed

lemma unat_pos: "(w :: 'a::len word) \<noteq> 0 \<Longrightarrow> 0 < unat w"
  by (simp add: word_unat_eq_iff)

lemma unat_be_word_2:
  "unat (be_word [a, b] :: u16) = 256 * unat a + unat b"
proof -
  have disj: "push_bit 8 (ucast a :: u16) AND ucast b = 0"
    by (rule bit_word_eqI) (auto simp: bit_simps)
  have "(be_word [a, b] :: u16) = push_bit 8 (ucast a) + ucast b"
    using disj by (simp add: be_word_def disjunctive_add_eq_or or.commute)
  moreover have "unat a < 256" and "unat b < 256"
    using unsigned_less [of a, where ?'a = nat] unsigned_less [of b, where ?'a = nat] by simp_all
  ultimately show ?thesis
    by (simp add: push_bit_eq_mult unat_word_ariths unat_ucast_up)
qed

section \<open>Text and decimal numbers\<close>

text \<open>A Rust byte-string literal (\<open>b"..."\<close>, \<open>c"..."\<close> without its NUL) as bytes.\<close>

definition ascii :: "string \<Rightarrow> byte list" where
  "ascii s = map of_char s"

fun decimal :: "nat \<Rightarrow> byte list" where
  "decimal n = (if n < 10 then [48 + of_nat n] else decimal (n div 10) @ [48 + of_nat (n mod 10)])"

declare decimal.simps [simp del]

definition is_digit :: "byte \<Rightarrow> bool" where
  "is_digit b \<longleftrightarrow> 48 \<le> unat b \<and> unat b \<le> 57"

definition decimal_value :: "byte list \<Rightarrow> nat" where
  "decimal_value ds = foldl (\<lambda>v d. 10 * v + (unat d - 48)) 0 ds"

lemma unat_digit: "d < 10 \<Longrightarrow> unat (48 + of_nat d :: byte) = 48 + d"
  by (simp add: unat_word_ariths unat_of_nat)

lemma decimal_digits: "\<forall>d \<in> set (decimal n). is_digit d"
proof (induction n rule: decimal.induct)
  case (1 n)
  show ?case
    using 1 by (subst decimal.simps) (auto simp: is_digit_def unat_digit)
qed

lemma decimal_not_Nil [simp]: "decimal n \<noteq> []"
  by (subst decimal.simps) simp

lemma decimal_value_decimal [simp]: "decimal_value (decimal n) = n"
proof (induction n rule: decimal.induct)
  case (1 n)
  show ?case
  proof (cases "n < 10")
    case True
    then show ?thesis
      by (subst decimal.simps) (simp add: decimal_value_def unat_digit)
  next
    case False
    with 1 have "decimal_value (decimal (n div 10)) = n div 10" by simp
    then show ?thesis using False
      by (subst decimal.simps) (simp add: decimal_value_def unat_digit)
  qed
qed

lemma decimal_inject [simp]: "decimal m = decimal n \<longleftrightarrow> m = n"
  by (metis decimal_value_decimal)

lemma length_decimal: "n < 10 ^ Suc d \<Longrightarrow> length (decimal n) \<le> Suc d"
proof (induction d arbitrary: n)
  case 0
  then show ?case by (subst decimal.simps) simp
next
  case (Suc d)
  then have "length (decimal (n div 10)) \<le> Suc d" by (intro Suc.IH) auto
  then show ?case by (subst decimal.simps) simp
qed

section \<open>Slices with Rust's range checks\<close>

lemma find_append: "find P (xs @ ys) = (case find P xs of None \<Rightarrow> find P ys | Some x \<Rightarrow> Some x)"
  by (induction xs) auto

lemma drop_past: "length xs \<le> n \<Longrightarrow> drop n (xs @ ys) = drop (n - length xs) ys"
  by simp

text \<open>\<open>&xs[i..j]\<close> panics unless \<open>i \<le> j\<close> and \<open>j \<le> xs.len()\<close>.\<close>

definition slice :: "'a list \<Rightarrow> nat \<Rightarrow> nat \<Rightarrow> 'a list res" where
  "slice xs i j = (if i \<le> j \<and> j \<le> length xs then Ok (take (j - i) (drop i xs)) else Panic)"

definition index :: "'a list \<Rightarrow> nat \<Rightarrow> 'a res" where
  "index xs i = (if i < length xs then Ok (xs ! i) else Panic)"

text \<open>\<open>xs[i..i + ys.len()].copy_from_slice(ys)\<close>\<close>

definition copy_at :: "'a list \<Rightarrow> nat \<Rightarrow> 'a list \<Rightarrow> 'a list res" where
  "copy_at xs i ys =
     (if i + length ys \<le> length xs then Ok (take i xs @ ys @ drop (i + length ys) xs) else Panic)"

lemma slice_Ok [simp]:
  "i \<le> j \<Longrightarrow> j \<le> length xs \<Longrightarrow> slice xs i j = Ok (take (j - i) (drop i xs))"
  by (simp add: slice_def)

lemma index_Ok [simp]: "i < length xs \<Longrightarrow> index xs i = Ok (xs ! i)"
  by (simp add: index_def)

lemma copy_at_Ok [simp]:
  "i + length ys \<le> length xs \<Longrightarrow>
   copy_at xs i ys = Ok (take i xs @ ys @ drop (i + length ys) xs)"
  by (simp add: copy_at_def)

text \<open>
  \<open>CStr::from_bytes_until_nul(..).ok()\<close>: the bytes before the first NUL, none if there is no NUL.
\<close>

definition from_bytes_until_nul :: "byte list \<Rightarrow> byte list option" where
  "from_bytes_until_nul bs = (if 0 \<in> set bs then Some (takeWhile (\<lambda>b. b \<noteq> 0) bs) else None)"

lemma takeWhile_nul: "0 \<notin> set n \<Longrightarrow> takeWhile (\<lambda>b. b \<noteq> 0) (n @ (0 :: byte) # p) = n"
  by (subst takeWhile_append2) auto

end
