(* ===== verification/Arch.thy ===== *)
theory Arch
  imports Libc_Prelude
begin

text \<open>
  The architecture layer (\<open>src/arch\<close>): the \<open>Errno\<close> newtype with its names and printed form,
  the decoding of raw syscall results, the two syscall-number tables, the \<open>syscall0..6\<close> asm
  stubs at register level for both architectures, and the call form the wrappers of the other
  modules share. A wrapper's pointer arguments are modelled by the memory they point at, which
  the kernel hands back as it left it.
\<close>

section \<open>Errno\<close>

text \<open>The arms of \<open>Errno::name\<close>, in source order.\<close>

definition errno_names :: "(int \<times> string) list" where
  "errno_names =
  [(1, ''EPERM''), (2, ''ENOENT''), (3, ''ESRCH''), (4, ''EINTR''),
   (5, ''EIO''), (6, ''ENXIO''), (7, ''E2BIG''), (8, ''ENOEXEC''),
   (9, ''EBADF''), (10, ''ECHILD''), (11, ''EAGAIN''), (12, ''ENOMEM''),
   (13, ''EACCES''), (14, ''EFAULT''), (16, ''EBUSY''), (17, ''EEXIST''),
   (18, ''EXDEV''), (19, ''ENODEV''), (20, ''ENOTDIR''), (21, ''EISDIR''),
   (22, ''EINVAL''), (23, ''ENFILE''), (24, ''EMFILE''), (25, ''ENOTTY''),
   (26, ''ETXTBSY''), (27, ''EFBIG''), (28, ''ENOSPC''), (29, ''ESPIPE''),
   (30, ''EROFS''), (31, ''EMLINK''), (32, ''EPIPE''), (33, ''EDOM''),
   (34, ''ERANGE''), (36, ''ENAMETOOLONG''), (38, ''ENOSYS''), (39, ''ENOTEMPTY''),
   (40, ''ELOOP''), (110, ''ETIMEDOUT''), (111, ''ECONNREFUSED''), (115, ''EINPROGRESS'')]"

definition name :: "Errno \<Rightarrow> string option" where
  "name e = map_of errno_names (sint (code e))"

text \<open>The associated constants of \<open>impl Errno\<close>, in source order.\<close>

definition errno_constants :: "(string \<times> Errno) list" where
  "errno_constants =
  [(''EPERM'', Errno 1), (''ENOENT'', Errno 2), (''ESRCH'', Errno 3),
   (''EINTR'', Errno 4), (''EIO'', Errno 5), (''ENXIO'', Errno 6),
   (''E2BIG'', Errno 7), (''ENOEXEC'', Errno 8), (''EBADF'', Errno 9),
   (''ECHILD'', Errno 10), (''EAGAIN'', Errno 11), (''ENOMEM'', Errno 12),
   (''EACCES'', Errno 13), (''EFAULT'', Errno 14), (''EBUSY'', Errno 16),
   (''EEXIST'', Errno 17), (''EXDEV'', Errno 18), (''ENODEV'', Errno 19),
   (''ENOTDIR'', Errno 20), (''EISDIR'', Errno 21), (''EINVAL'', Errno 22),
   (''ENFILE'', Errno 23), (''EMFILE'', Errno 24), (''ENOTTY'', Errno 25),
   (''ETXTBSY'', Errno 26), (''EFBIG'', Errno 27), (''ENOSPC'', Errno 28),
   (''ESPIPE'', Errno 29), (''EROFS'', Errno 30), (''EMLINK'', Errno 31),
   (''EPIPE'', Errno 32), (''EDOM'', Errno 33), (''ERANGE'', Errno 34),
   (''ENAMETOOLONG'', Errno 36), (''ENOSYS'', Errno 38), (''ENOTEMPTY'', Errno 39),
   (''ELOOP'', Errno 40), (''EWOULDBLOCK'', Errno 11), (''ETIMEDOUT'', Errno 110),
   (''ECONNREFUSED'', Errno 111), (''EINPROGRESS'', Errno 115)]"

abbreviation "ENOENT \<equiv> Errno 2"
abbreviation "EINTR \<equiv> Errno 4"
abbreviation "EIO \<equiv> Errno 5"
abbreviation "EBADF \<equiv> Errno 9"
abbreviation "EAGAIN \<equiv> Errno 11"
abbreviation "EINVAL \<equiv> Errno 22"
abbreviation "ENOTTY \<equiv> Errno 25"
abbreviation "ERANGE \<equiv> Errno 34"
abbreviation "ENOSYS \<equiv> Errno 38"
abbreviation "ETIMEDOUT \<equiv> Errno 110"

text \<open>\<open>{}\<close> formatting of an \<open>i32\<close>.\<close>

definition show_i32 :: "i32 \<Rightarrow> byte list" where
  "show_i32 n = (if sint n < 0 then ascii ''-'' @ decimal (nat (- sint n)) else decimal (nat (sint n)))"

definition errno_fmt :: "Errno \<Rightarrow> byte list" where
  "errno_fmt e = (case name e of
       Some nm \<Rightarrow> ascii nm @ ascii '' (os error '' @ show_i32 (code e) @ ascii '')''
     | None \<Rightarrow> ascii ''os error '' @ show_i32 (code e))"

text \<open>
  The conversion into \<open>std::io::Error\<close> under the feature \<open>std\<close>. Of that type only the form
  \<open>from_raw_os_error\<close> builds, an operating-system error, and the other forms, which carry no number.
\<close>

datatype io_Error = Os i32 | Not_Os

primrec raw_os_error :: "io_Error \<Rightarrow> i32 option" where
  "raw_os_error (Os c) = Some c"
| "raw_os_error Not_Os = None"

definition io_Error_from :: "Errno \<Rightarrow> io_Error" where
  "io_Error_from e = Os (code e)"

lemma io_Error_from_faithful:
  "raw_os_error (io_Error_from e) = Some (code e)"
  "io_Error_from e = io_Error_from e' \<longleftrightarrow> e = e'"
  by (simp_all add: io_Error_from_def) (metis Errno.expand)

section \<open>Decoding raw results\<close>

definition ERRNO_MAX :: int where
  "ERRNO_MAX = 4095"

definition from_ret :: "usize \<Rightarrow> usize res" where
  "from_ret ret =
     (let signed = sint ret
      in if - ERRNO_MAX \<le> signed \<and> signed < 0 then Err (Errno (ucast (- ret))) else Ok ret)"

definition from_ret_i32 :: "usize \<Rightarrow> i32 res" where
  "from_ret_i32 ret = map_res (\<lambda>v. ucast v) (from_ret ret)"

section \<open>Syscall numbers\<close>

datatype arch = X86_64 | Aarch64

definition nr_x86_64 :: "(string \<times> nat) list" where
  "nr_x86_64 =
  [(''READ'', 0), (''WRITE'', 1), (''OPEN'', 2), (''CLOSE'', 3),
   (''MMAP'', 9), (''MPROTECT'', 10), (''MUNMAP'', 11), (''MSYNC'', 26),
   (''MADVISE'', 28), (''MLOCK'', 149), (''MUNLOCK'', 150), (''POLL'', 7),
   (''LSEEK'', 8), (''RT_SIGACTION'', 13), (''RT_SIGPROCMASK'', 14), (''RT_SIGRETURN'', 15),
   (''IOCTL'', 16), (''PREAD64'', 17), (''PWRITE64'', 18), (''READV'', 19),
   (''WRITEV'', 20), (''FTRUNCATE'', 77), (''NANOSLEEP'', 35), (''CLOCK_NANOSLEEP'', 230),
   (''DUP'', 32), (''DUP2'', 33), (''GETPID'', 39), (''CLONE'', 56),
   (''EXECVE'', 59), (''KILL'', 62), (''MEMFD_CREATE'', 319), (''GETRANDOM'', 318),
   (''WAIT4'', 61), (''GETRUSAGE'', 98), (''FCNTL'', 72), (''GETCWD'', 79),
   (''CHDIR'', 80), (''FCHDIR'', 81), (''UMASK'', 95), (''GETUID'', 102),
   (''GETGID'', 104), (''GETEUID'', 107), (''GETEGID'', 108), (''GETGROUPS'', 115),
   (''SETUID'', 105), (''SETGID'', 106), (''SETGROUPS'', 116), (''SETRESUID'', 117),
   (''SETRESGID'', 119), (''GETRESUID'', 118), (''GETRESGID'', 120), (''GETPRIORITY'', 140),
   (''SETPRIORITY'', 141), (''PRCTL'', 157), (''UNAME'', 63), (''SETPGID'', 109),
   (''GETPPID'', 110), (''SETSID'', 112), (''GETPGID'', 121), (''WAITID'', 247),
   (''GETSID'', 124), (''RT_SIGPENDING'', 127), (''RT_SIGSUSPEND'', 130), (''RT_SIGQUEUEINFO'', 129),
   (''SIGNALFD4'', 289), (''CLOCK_GETTIME'', 228), (''TIMERFD_CREATE'', 283), (''TIMERFD_SETTIME'', 286),
   (''TIMERFD_GETTIME'', 287), (''EXIT_GROUP'', 231), (''OPENAT'', 257), (''MKDIRAT'', 258),
   (''UNLINKAT'', 263), (''SYMLINKAT'', 266), (''LINKAT'', 265), (''READLINKAT'', 267),
   (''FACCESSAT'', 269), (''FCHOWNAT'', 260), (''FCHMODAT'', 268), (''UTIMENSAT'', 280),
   (''DUP3'', 292), (''PIPE2'', 293), (''PRLIMIT64'', 302), (''RENAMEAT2'', 316),
   (''EXECVEAT'', 322), (''STATX'', 332), (''GETDENTS64'', 217), (''PIDFD_OPEN'', 434),
   (''CLONE3'', 435), (''PIDFD_SEND_SIGNAL'', 424), (''SOCKET'', 41), (''CONNECT'', 42),
   (''ACCEPT'', 43), (''SENDTO'', 44), (''RECVFROM'', 45), (''SHUTDOWN'', 48),
   (''BIND'', 49), (''LISTEN'', 50), (''ACCEPT4'', 288), (''GETSOCKNAME'', 51),
   (''GETPEERNAME'', 52), (''TRUNCATE'', 76), (''GETTID'', 186), (''CLOSE_RANGE'', 436),
   (''FSYNC'', 74), (''FDATASYNC'', 75), (''CLOCK_GETRES'', 229), (''PREADV'', 295),
   (''PWRITEV'', 296), (''EVENTFD2'', 290), (''EPOLL_CREATE1'', 291), (''EPOLL_CTL'', 233),
   (''EPOLL_WAIT'', 232), (''INOTIFY_INIT1'', 294), (''INOTIFY_ADD_WATCH'', 254), (''INOTIFY_RM_WATCH'', 255),
   (''SYSINFO'', 99), (''PROCESS_VM_READV'', 310), (''PROCESS_VM_WRITEV'', 311), (''PTRACE'', 101)]"

definition nr_aarch64 :: "(string \<times> nat) list" where
  "nr_aarch64 =
  [(''GETCWD'', 17), (''DUP'', 23), (''DUP3'', 24), (''FCNTL'', 25),
   (''IOCTL'', 29), (''FACCESSAT'', 48), (''FCHMODAT'', 53), (''FCHOWNAT'', 54),
   (''UTIMENSAT'', 88), (''CHDIR'', 49), (''FCHDIR'', 50), (''OPENAT'', 56),
   (''LSEEK'', 62), (''WRITE'', 64), (''CLOSE'', 57), (''PIPE2'', 59),
   (''MKDIRAT'', 34), (''UNLINKAT'', 35), (''SYMLINKAT'', 36), (''LINKAT'', 37),
   (''READ'', 63), (''READLINKAT'', 78), (''PPOLL'', 73), (''EXIT_GROUP'', 94),
   (''NANOSLEEP'', 101), (''CLOCK_NANOSLEEP'', 115), (''CLOCK_GETTIME'', 113), (''TIMERFD_CREATE'', 85),
   (''TIMERFD_SETTIME'', 86), (''TIMERFD_GETTIME'', 87), (''PREAD64'', 67), (''PWRITE64'', 68),
   (''READV'', 65), (''WRITEV'', 66), (''FTRUNCATE'', 46), (''WAITID'', 95),
   (''KILL'', 129), (''RT_SIGSUSPEND'', 133), (''RT_SIGACTION'', 134), (''RT_SIGPROCMASK'', 135),
   (''RT_SIGPENDING'', 136), (''RT_SIGQUEUEINFO'', 138), (''SIGNALFD4'', 74), (''SETPGID'', 154),
   (''GETPGID'', 155), (''GETSID'', 156), (''SETSID'', 157), (''UMASK'', 166),
   (''GETPID'', 172), (''GETPPID'', 173), (''GETUID'', 174), (''GETEUID'', 175),
   (''GETGID'', 176), (''GETEGID'', 177), (''GETGROUPS'', 158), (''SETUID'', 146),
   (''SETGID'', 144), (''SETGROUPS'', 159), (''SETRESUID'', 147), (''SETRESGID'', 149),
   (''GETRESUID'', 148), (''GETRESGID'', 150), (''SETPRIORITY'', 140), (''GETPRIORITY'', 141),
   (''PRCTL'', 167), (''UNAME'', 160), (''CLONE'', 220), (''EXECVE'', 221),
   (''RENAMEAT2'', 276), (''MEMFD_CREATE'', 279), (''GETRANDOM'', 278), (''WAIT4'', 260),
   (''GETRUSAGE'', 165), (''PRLIMIT64'', 261), (''STATX'', 291), (''EXECVEAT'', 281),
   (''GETDENTS64'', 61), (''PIDFD_OPEN'', 434), (''CLONE3'', 435), (''PIDFD_SEND_SIGNAL'', 424),
   (''MUNMAP'', 215), (''MMAP'', 222), (''MPROTECT'', 226), (''MSYNC'', 227),
   (''MLOCK'', 228), (''MUNLOCK'', 229), (''MADVISE'', 233), (''SOCKET'', 198),
   (''BIND'', 200), (''LISTEN'', 201), (''ACCEPT'', 202), (''CONNECT'', 203),
   (''SENDTO'', 206), (''RECVFROM'', 207), (''SHUTDOWN'', 210), (''ACCEPT4'', 242),
   (''GETSOCKNAME'', 204), (''GETPEERNAME'', 205), (''TRUNCATE'', 45), (''GETTID'', 178),
   (''CLOSE_RANGE'', 436), (''FSYNC'', 82), (''FDATASYNC'', 83), (''CLOCK_GETRES'', 114),
   (''PREADV'', 69), (''PWRITEV'', 70), (''EVENTFD2'', 19), (''EPOLL_CREATE1'', 20),
   (''EPOLL_CTL'', 21), (''EPOLL_PWAIT'', 22), (''INOTIFY_INIT1'', 26), (''INOTIFY_ADD_WATCH'', 27),
   (''INOTIFY_RM_WATCH'', 28), (''SYSINFO'', 179), (''PROCESS_VM_READV'', 270), (''PROCESS_VM_WRITEV'', 271),
   (''PTRACE'', 117)]"

definition nr :: "arch \<Rightarrow> string \<Rightarrow> usize" where
  "nr a s = of_nat (the (map_of (case a of X86_64 \<Rightarrow> nr_x86_64 | Aarch64 \<Rightarrow> nr_aarch64) s))"

section \<open>The asm stubs at register level\<close>

text \<open>
  A trap instruction takes the register file and the rest of the world (memory and kernel) and
  gives both back. The stubs load the number and the arguments into registers, trap, and read
  the result register.
\<close>

type_synonym ('r, 'k) trap = "('r \<Rightarrow> usize) \<Rightarrow> 'k \<Rightarrow> ('r \<Rightarrow> usize) \<times> 'k"

datatype xreg = RAX | RCX | RDX | RSI | RDI | R8 | R9 | R10 | R11 | R12 | R13 | R14 | R15

datatype areg = X nat

definition x86_64_syscall0 ::
  "((xreg, 'k) trap) \<Rightarrow> (xreg \<Rightarrow> usize) \<Rightarrow> usize \<Rightarrow> 'k \<Rightarrow> usize \<times> 'k" where
  "x86_64_syscall0 T r n k =
     (case T (r(RAX := n)) k of (r', k') \<Rightarrow> (r' RAX, k'))"

definition x86_64_syscall1 ::
  "((xreg, 'k) trap) \<Rightarrow> (xreg \<Rightarrow> usize) \<Rightarrow> usize \<Rightarrow> usize \<Rightarrow> 'k \<Rightarrow> usize \<times> 'k" where
  "x86_64_syscall1 T r n a1 k =
     (case T (r(RAX := n, RDI := a1)) k of (r', k') \<Rightarrow> (r' RAX, k'))"

definition x86_64_syscall2 ::
  "((xreg, 'k) trap) \<Rightarrow> (xreg \<Rightarrow> usize) \<Rightarrow> usize \<Rightarrow> usize \<Rightarrow> usize \<Rightarrow> 'k \<Rightarrow> usize \<times> 'k" where
  "x86_64_syscall2 T r n a1 a2 k =
     (case T (r(RAX := n, RDI := a1, RSI := a2)) k of (r', k') \<Rightarrow> (r' RAX, k'))"

definition x86_64_syscall3 ::
  "((xreg, 'k) trap) \<Rightarrow> (xreg \<Rightarrow> usize) \<Rightarrow> usize \<Rightarrow> usize \<Rightarrow> usize \<Rightarrow> usize \<Rightarrow> 'k \<Rightarrow> usize \<times> 'k" where
  "x86_64_syscall3 T r n a1 a2 a3 k =
     (case T (r(RAX := n, RDI := a1, RSI := a2, RDX := a3)) k of (r', k') \<Rightarrow> (r' RAX, k'))"

definition x86_64_syscall4 ::
  "((xreg, 'k) trap) \<Rightarrow> (xreg \<Rightarrow> usize) \<Rightarrow> usize \<Rightarrow> usize \<Rightarrow> usize \<Rightarrow> usize \<Rightarrow> usize \<Rightarrow> 'k \<Rightarrow> usize \<times> 'k" where
  "x86_64_syscall4 T r n a1 a2 a3 a4 k =
     (case T (r(RAX := n, RDI := a1, RSI := a2, RDX := a3, R10 := a4)) k of (r', k') \<Rightarrow> (r' RAX, k'))"

definition x86_64_syscall5 ::
  "((xreg, 'k) trap) \<Rightarrow> (xreg \<Rightarrow> usize) \<Rightarrow> usize \<Rightarrow> usize \<Rightarrow> usize \<Rightarrow> usize \<Rightarrow> usize \<Rightarrow> usize \<Rightarrow> 'k \<Rightarrow> usize \<times> 'k" where
  "x86_64_syscall5 T r n a1 a2 a3 a4 a5 k =
     (case T (r(RAX := n, RDI := a1, RSI := a2, RDX := a3, R10 := a4, R8 := a5)) k of (r', k') \<Rightarrow> (r' RAX, k'))"

definition x86_64_syscall6 ::
  "((xreg, 'k) trap) \<Rightarrow> (xreg \<Rightarrow> usize) \<Rightarrow> usize \<Rightarrow> usize \<Rightarrow> usize \<Rightarrow> usize \<Rightarrow> usize \<Rightarrow> usize \<Rightarrow> usize \<Rightarrow> 'k \<Rightarrow> usize \<times> 'k" where
  "x86_64_syscall6 T r n a1 a2 a3 a4 a5 a6 k =
     (case T (r(RAX := n, RDI := a1, RSI := a2, RDX := a3, R10 := a4, R8 := a5, R9 := a6)) k of (r', k') \<Rightarrow> (r' RAX, k'))"

definition aarch64_syscall0 ::
  "((areg, 'k) trap) \<Rightarrow> (areg \<Rightarrow> usize) \<Rightarrow> usize \<Rightarrow> 'k \<Rightarrow> usize \<times> 'k" where
  "aarch64_syscall0 T r n k =
     (case T (r(X 8 := n)) k of (r', k') \<Rightarrow> (r' (X 0), k'))"

definition aarch64_syscall1 ::
  "((areg, 'k) trap) \<Rightarrow> (areg \<Rightarrow> usize) \<Rightarrow> usize \<Rightarrow> usize \<Rightarrow> 'k \<Rightarrow> usize \<times> 'k" where
  "aarch64_syscall1 T r n a1 k =
     (case T (r(X 8 := n, X 0 := a1)) k of (r', k') \<Rightarrow> (r' (X 0), k'))"

definition aarch64_syscall2 ::
  "((areg, 'k) trap) \<Rightarrow> (areg \<Rightarrow> usize) \<Rightarrow> usize \<Rightarrow> usize \<Rightarrow> usize \<Rightarrow> 'k \<Rightarrow> usize \<times> 'k" where
  "aarch64_syscall2 T r n a1 a2 k =
     (case T (r(X 8 := n, X 0 := a1, X 1 := a2)) k of (r', k') \<Rightarrow> (r' (X 0), k'))"

definition aarch64_syscall3 ::
  "((areg, 'k) trap) \<Rightarrow> (areg \<Rightarrow> usize) \<Rightarrow> usize \<Rightarrow> usize \<Rightarrow> usize \<Rightarrow> usize \<Rightarrow> 'k \<Rightarrow> usize \<times> 'k" where
  "aarch64_syscall3 T r n a1 a2 a3 k =
     (case T (r(X 8 := n, X 0 := a1, X 1 := a2, X 2 := a3)) k of (r', k') \<Rightarrow> (r' (X 0), k'))"

definition aarch64_syscall4 ::
  "((areg, 'k) trap) \<Rightarrow> (areg \<Rightarrow> usize) \<Rightarrow> usize \<Rightarrow> usize \<Rightarrow> usize \<Rightarrow> usize \<Rightarrow> usize \<Rightarrow> 'k \<Rightarrow> usize \<times> 'k" where
  "aarch64_syscall4 T r n a1 a2 a3 a4 k =
     (case T (r(X 8 := n, X 0 := a1, X 1 := a2, X 2 := a3, X 3 := a4)) k of (r', k') \<Rightarrow> (r' (X 0), k'))"

definition aarch64_syscall5 ::
  "((areg, 'k) trap) \<Rightarrow> (areg \<Rightarrow> usize) \<Rightarrow> usize \<Rightarrow> usize \<Rightarrow> usize \<Rightarrow> usize \<Rightarrow> usize \<Rightarrow> usize \<Rightarrow> 'k \<Rightarrow> usize \<times> 'k" where
  "aarch64_syscall5 T r n a1 a2 a3 a4 a5 k =
     (case T (r(X 8 := n, X 0 := a1, X 1 := a2, X 2 := a3, X 3 := a4, X 4 := a5)) k of (r', k') \<Rightarrow> (r' (X 0), k'))"

definition aarch64_syscall6 ::
  "((areg, 'k) trap) \<Rightarrow> (areg \<Rightarrow> usize) \<Rightarrow> usize \<Rightarrow> usize \<Rightarrow> usize \<Rightarrow> usize \<Rightarrow> usize \<Rightarrow> usize \<Rightarrow> usize \<Rightarrow> 'k \<Rightarrow> usize \<times> 'k" where
  "aarch64_syscall6 T r n a1 a2 a3 a4 a5 a6 k =
     (case T (r(X 8 := n, X 0 := a1, X 1 := a2, X 2 := a3, X 3 := a4, X 4 := a5, X 5 := a6)) k of (r', k') \<Rightarrow> (r' (X 0), k'))"


text \<open>
  The kernel side of the calling convention the module headers document: number in \<open>rax\<close> (\<open>x8\<close>),
  arguments in \<open>rdi rsi rdx r10 r8 r9\<close> (\<open>x0\<close> to \<open>x5\<close>), result in \<open>rax\<close> (\<open>x0\<close>); the x86_64
  \<open>syscall\<close> instruction also overwrites \<open>rcx\<close> with the return address and \<open>r11\<close> with the flags.
\<close>

definition x86_64_trap ::
  "(usize \<Rightarrow> usize list \<Rightarrow> 'k \<Rightarrow> usize \<times> 'k) \<Rightarrow> usize \<Rightarrow> usize \<Rightarrow> (xreg, 'k) trap" where
  "x86_64_trap kern rip fl r k =
     (case kern (r RAX) [r RDI, r RSI, r RDX, r R10, r R8, r R9] k of
        (v, k') \<Rightarrow> (r(RAX := v, RCX := rip, R11 := fl), k'))"

definition aarch64_trap ::
  "(usize \<Rightarrow> usize list \<Rightarrow> 'k \<Rightarrow> usize \<times> 'k) \<Rightarrow> (areg, 'k) trap" where
  "aarch64_trap kern r k =
     (case kern (r (X 8)) [r (X 0), r (X 1), r (X 2), r (X 3), r (X 4), r (X 5)] k of
        (v, k') \<Rightarrow> (r(X 0 := v), k'))"

text \<open>The call numbered \<open>n\<close> looks at its first \<open>m\<close> arguments only.\<close>

definition reads_args :: "(usize \<Rightarrow> usize list \<Rightarrow> 'k \<Rightarrow> 'r) \<Rightarrow> usize \<Rightarrow> nat \<Rightarrow> bool" where
  "reads_args kern n m \<longleftrightarrow>
     (\<forall>args args' k. take m args = take m args' \<longrightarrow> kern n args k = kern n args' k)"

lemma reads_argsD:
  "reads_args kern n m \<Longrightarrow> take m args = take m args' \<Longrightarrow> kern n args k = kern n args' k"
  unfolding reads_args_def by blast

lemmas stub_defs = x86_64_syscall0_def aarch64_syscall0_def x86_64_syscall1_def aarch64_syscall1_def x86_64_syscall2_def aarch64_syscall2_def x86_64_syscall3_def aarch64_syscall3_def x86_64_syscall4_def aarch64_syscall4_def x86_64_syscall5_def aarch64_syscall5_def x86_64_syscall6_def aarch64_syscall6_def
  x86_64_trap_def aarch64_trap_def

section \<open>The call form of the wrappers\<close>

text \<open>
  \<open>Val\<close> is an integer in a register (a null pointer is \<open>Val 0\<close>), \<open>Ptr\<close> a pointer the kernel reads
  through, \<open>MutPtr\<close> one it may write through; \<open>Iov\<close> and \<open>IovMut\<close> are pointers to an array of
  \<open>iovec\<close>s, given by the buffers they name.
\<close>

datatype arg = Val usize | Ptr "byte list" | MutPtr "byte list"
  | Iov "byte list list" | IovMut "byte list list"

type_synonym 'k kernel = "usize \<Rightarrow> arg list \<Rightarrow> 'k \<Rightarrow> usize \<times> arg list \<times> 'k"

record 'k mach =
  m_arch :: arch
  m_kernel :: "'k kernel"

definition sys :: "'k mach \<Rightarrow> string \<Rightarrow> arg list \<Rightarrow> 'k \<Rightarrow> usize \<times> arg list \<times> 'k" where
  "sys M s args k = m_kernel M (nr (m_arch M) s) args k"

definition out_bytes :: "arg list \<Rightarrow> nat \<Rightarrow> byte list" where
  "out_bytes outs i =
     (if i < length outs
      then (case outs ! i of MutPtr b \<Rightarrow> b | Ptr b \<Rightarrow> b | Val _ \<Rightarrow> [] | Iov _ \<Rightarrow> [] | IovMut _ \<Rightarrow> [])
      else [])"

text \<open>
  The tails a wrapper can have: \<open>from_ret(ret)\<close>, \<open>from_ret_i32(ret)\<close>, \<open>from_ret(ret).map(|_| ())\<close>
  and \<open>from_ret(ret)?; Ok(out)\<close> for a local \<open>out\<close> the kernel wrote.
\<close>

definition call_usize :: "'k mach \<Rightarrow> string \<Rightarrow> arg list \<Rightarrow> ('k, usize) io" where
  "call_usize M s args k = (case sys M s args k of (ret, _, k') \<Rightarrow> (from_ret ret, k'))"

definition call_i32 :: "'k mach \<Rightarrow> string \<Rightarrow> arg list \<Rightarrow> ('k, i32) io" where
  "call_i32 M s args k = (case sys M s args k of (ret, _, k') \<Rightarrow> (from_ret_i32 ret, k'))"

definition call_unit :: "'k mach \<Rightarrow> string \<Rightarrow> arg list \<Rightarrow> ('k, unit) io" where
  "call_unit M s args k =
     (case sys M s args k of (ret, _, k') \<Rightarrow> (map_res (\<lambda>_. ()) (from_ret ret), k'))"

definition call_out ::
  "'k mach \<Rightarrow> string \<Rightarrow> arg list \<Rightarrow> (arg list \<Rightarrow> 'a) \<Rightarrow> ('k, 'a) io" where
  "call_out M s args f k =
     (case sys M s args k of (ret, outs, k') \<Rightarrow> (map_res (\<lambda>_. f outs) (from_ret ret), k'))"

definition call_i32_out ::
  "'k mach \<Rightarrow> string \<Rightarrow> arg list \<Rightarrow> (i32 \<Rightarrow> arg list \<Rightarrow> 'a) \<Rightarrow> ('k, 'a) io" where
  "call_i32_out M s args f k =
     (case sys M s args k of (ret, outs, k') \<Rightarrow> (map_res (\<lambda>v. f v outs) (from_ret_i32 ret), k'))"

text \<open>A wrapper over a caller's buffer also hands the buffer back, as the kernel left it.\<close>

definition call_buf ::
  "'k mach \<Rightarrow> string \<Rightarrow> arg list \<Rightarrow> nat \<Rightarrow> 'k \<Rightarrow> usize res \<times> byte list \<times> 'k" where
  "call_buf M s args i k =
     (case sys M s args k of (ret, outs, k') \<Rightarrow> (from_ret ret, out_bytes outs i, k'))"

text \<open>
  What the wrappers rely on of the kernel: it changes memory only behind the pointers it was
  given to write through, and never the extent of a buffer.
\<close>

fun same_extent :: "arg \<Rightarrow> arg \<Rightarrow> bool" where
  "same_extent (Val v) a \<longleftrightarrow> a = Val v"
| "same_extent (Ptr b) a \<longleftrightarrow> a = Ptr b"
| "same_extent (MutPtr b) (MutPtr b') \<longleftrightarrow> length b' = length b"
| "same_extent (Iov bs) a \<longleftrightarrow> a = Iov bs"
| "same_extent (IovMut bs) (IovMut bs') \<longleftrightarrow> map length bs' = map length bs"
| "same_extent _ _ \<longleftrightarrow> False"

definition memory_safe :: "'k mach \<Rightarrow> bool" where
  "memory_safe M \<longleftrightarrow>
     (\<forall>n args k ret outs k'. m_kernel M n args k = (ret, outs, k') \<longrightarrow> list_all2 same_extent args outs)"

section \<open>Results\<close>

lemma from_ret_Ok_iff:
  "from_ret ret = Ok v \<longleftrightarrow> v = ret \<and> \<not> (- 4095 \<le> sint ret \<and> sint ret < 0)"
  by (auto simp: from_ret_def ERRNO_MAX_def Let_def)

lemma from_ret_not_Panic [simp]: "from_ret ret \<noteq> Panic" "from_ret_i32 ret \<noteq> Panic"
  by (auto simp: from_ret_i32_def from_ret_def Let_def)

lemma sint_word_of_int_small:
  "- (2 ^ (LENGTH('a) - 1)) \<le> m \<Longrightarrow> m < 2 ^ (LENGTH('a) - 1) \<Longrightarrow>
   sint (word_of_int m :: 'a::len word) = m"
  by (simp add: signed_of_int signed_take_bit_int_eq_self)

lemma ucast_word_of_int_small:
  "0 \<le> m \<Longrightarrow> m < 2 ^ LENGTH('a) \<Longrightarrow>
   (ucast (word_of_int m :: 'a::len word) :: 'b::len word) = word_of_int m"
  by (simp add: unsigned_of_int take_bit_int_eq_self)

lemma from_ret_window:
  assumes "1 \<le> m" and "m \<le> 4095"
  shows "from_ret (word_of_int (- m)) = Err (Errno (word_of_int m))"
proof -
  have s: "sint (word_of_int (- m) :: usize) = - m"
    using assms by (intro sint_word_of_int_small) simp_all
  have "(ucast (word_of_int m :: usize) :: i32) = word_of_int m"
    using assms by (intro ucast_word_of_int_small) simp_all
  then have "(ucast (- (word_of_int (- m) :: usize)) :: i32) = word_of_int m"
    by (metis minus_minus of_int_minus)
  with s show ?thesis
    using assms by (simp only: from_ret_def ERRNO_MAX_def Let_def) simp
qed

lemma from_ret_Err_cases:
  assumes "from_ret ret = Err e"
  obtains m where "1 \<le> m" and "m \<le> 4095" and "ret = word_of_int (- m)" and "e = Errno (word_of_int m)"
proof -
  define m where "m = - sint ret"
  from assms have "1 \<le> m" and "m \<le> 4095"
    by (auto simp: from_ret_def ERRNO_MAX_def Let_def m_def split: if_splits)
  moreover have "ret = word_of_int (- m)" by (simp add: m_def)
  ultimately show thesis using that from_ret_window assms by (metis res.inject(2))
qed

lemma from_ret_errno_range:
  assumes "from_ret ret = Err e"
  shows "1 \<le> sint (code e) \<and> sint (code e) \<le> 4095"
  using assms by (elim from_ret_Err_cases) (simp add: sint_word_of_int_small)

lemma from_ret_neg_errno:
  assumes "1 \<le> sint c" and "sint c \<le> 4095"
  shows "from_ret (- scast (c :: i32)) = Err (Errno c)"
proof -
  have "word_of_int (- sint c) = (- scast c :: usize)" and "word_of_int (sint c) = c"
    by simp_all
  then show ?thesis using from_ret_window [OF assms] by metis
qed

lemmas call_defs = call_usize_def call_i32_def call_unit_def call_out_def call_i32_out_def call_buf_def sys_def

text \<open>
  C21: decoding a raw result is total and exact: a result is an error precisely when it is \<open>-m\<close>
  for some \<open>m\<close> from 1 to 4095, the error carries that \<open>m\<close>, and every other 64-bit value
  comes back unchanged.
\<close>
theorem from_ret_decode:
  "(\<exists>m. 1 \<le> m \<and> m \<le> 4095 \<and> ret = word_of_int (- m)
        \<and> from_ret ret = Err (Errno (word_of_int m)) \<and> sint (word_of_int m :: i32) = m)
   \<or> (sint ret \<notin> {- 4095..<0} \<and> from_ret ret = Ok ret)"
proof (cases "from_ret ret")
  case (Err e)
  then obtain m where "1 \<le> m" "m \<le> 4095" "ret = word_of_int (- m)" "e = Errno (word_of_int m)"
    by (rule from_ret_Err_cases)
  moreover from this have "sint (word_of_int m :: i32) = m"
    by (intro sint_word_of_int_small) simp_all
  ultimately show ?thesis using Err by blast
next
  case (Ok v)
  then show ?thesis by (auto simp: from_ret_Ok_iff)
next
  case Panic
  then show ?thesis by simp
qed

text \<open>
  C22: the asm stubs of both architectures implement one interface: for a kernel that follows the
  documented calling convention, \<open>syscallN\<close> passes exactly its number and its \<open>N\<close> arguments in
  order, whatever the other registers held, and returns the kernel's result.
\<close>
theorem syscall_stubs_abi:
  assumes "\<And>m. reads_args kern (n m) m"
  shows "x86_64_syscall0 (x86_64_trap kern rip fl) r (n 0) k = kern (n 0) [] k
     \<and> aarch64_syscall0 (aarch64_trap kern) q (n 0) k = kern (n 0) [] k
     \<and> x86_64_syscall1 (x86_64_trap kern rip fl) r (n 1) a1 k = kern (n 1) [a1] k
     \<and> aarch64_syscall1 (aarch64_trap kern) q (n 1) a1 k = kern (n 1) [a1] k
     \<and> x86_64_syscall2 (x86_64_trap kern rip fl) r (n 2) a1 a2 k = kern (n 2) [a1, a2] k
     \<and> aarch64_syscall2 (aarch64_trap kern) q (n 2) a1 a2 k = kern (n 2) [a1, a2] k
     \<and> x86_64_syscall3 (x86_64_trap kern rip fl) r (n 3) a1 a2 a3 k = kern (n 3) [a1, a2, a3] k
     \<and> aarch64_syscall3 (aarch64_trap kern) q (n 3) a1 a2 a3 k = kern (n 3) [a1, a2, a3] k
     \<and> x86_64_syscall4 (x86_64_trap kern rip fl) r (n 4) a1 a2 a3 a4 k = kern (n 4) [a1, a2, a3, a4] k
     \<and> aarch64_syscall4 (aarch64_trap kern) q (n 4) a1 a2 a3 a4 k = kern (n 4) [a1, a2, a3, a4] k
     \<and> x86_64_syscall5 (x86_64_trap kern rip fl) r (n 5) a1 a2 a3 a4 a5 k = kern (n 5) [a1, a2, a3, a4, a5] k
     \<and> aarch64_syscall5 (aarch64_trap kern) q (n 5) a1 a2 a3 a4 a5 k = kern (n 5) [a1, a2, a3, a4, a5] k
     \<and> x86_64_syscall6 (x86_64_trap kern rip fl) r (n 6) a1 a2 a3 a4 a5 a6 k = kern (n 6) [a1, a2, a3, a4, a5, a6] k
     \<and> aarch64_syscall6 (aarch64_trap kern) q (n 6) a1 a2 a3 a4 a5 a6 k = kern (n 6) [a1, a2, a3, a4, a5, a6] k"
  unfolding stub_defs
  by (simp add: case_prod_beta) (intro conjI; rule reads_argsD [OF assms]; simp)

text \<open>A witness: a kernel that adds up as many arguments as the call's number says.\<close>
theorem syscall_stubs_abi_witness:
  "x86_64_syscall3 (x86_64_trap (\<lambda>n args k. (sum_list (take (unat n) args), k)) 9 9) (\<lambda>_. 7) 3 1 2 4 ()
     = (7, ())
   \<and> aarch64_syscall2 (aarch64_trap (\<lambda>n args k. (sum_list (take (unat n) args), k))) (\<lambda>_. 7) 2 1 2 ()
     = (3, ())"
proof -
  let ?kern = "\<lambda>n args (k :: unit). (sum_list (take (unat n) args) :: usize, k)"
  have "reads_args ?kern (of_nat m) m" for m
    unfolding reads_args_def
    by (metis (no_types, lifting) min.absorb1 take_take unat_of_nat mod_less_eq_dividend)
  from syscall_stubs_abi [of ?kern of_nat, OF this]
  show ?thesis by simp
qed

lemma nr_x86_64_names: "distinct (map fst nr_x86_64)"
  by (simp add: nr_x86_64_def)

lemma nr_x86_64_numbers: "distinct (map snd nr_x86_64)"
  by (simp add: nr_x86_64_def)

lemma nr_aarch64_names: "distinct (map fst nr_aarch64)"
  by (simp add: nr_aarch64_def)

lemma nr_aarch64_numbers: "distinct (map snd nr_aarch64)"
  by (simp add: nr_aarch64_def)

text \<open>So a number is read off the table at the position of its name, with no search.\<close>

lemma nr_x86_64_at: "i < length nr_x86_64 \<Longrightarrow> nr X86_64 (fst (nr_x86_64 ! i)) = of_nat (snd (nr_x86_64 ! i))"
  using map_of_is_SomeI [OF nr_x86_64_names, of "fst (nr_x86_64 ! i)" "snd (nr_x86_64 ! i)"] by (simp add: nr_def)

lemma nr_aarch64_at: "i < length nr_aarch64 \<Longrightarrow> nr Aarch64 (fst (nr_aarch64 ! i)) = of_nat (snd (nr_aarch64 ! i))"
  using map_of_is_SomeI [OF nr_aarch64_names, of "fst (nr_aarch64 ! i)" "snd (nr_aarch64 ! i)"] by (simp add: nr_def)

text \<open>
  On each architecture the syscall-number table gives every name one number and every number
  one name.
\<close>
lemma nr_tables:
  "distinct (map fst nr_x86_64) \<and> distinct (map snd nr_x86_64)
   \<and> distinct (map fst nr_aarch64) \<and> distinct (map snd nr_aarch64)"
  by (intro conjI nr_x86_64_names nr_x86_64_numbers nr_aarch64_names nr_aarch64_numbers)

text \<open>
  Every \<open>Errno\<close> constant is known to \<open>name\<close> under its own name, the alias \<open>EWOULDBLOCK\<close> under
  \<open>EAGAIN\<close>, and every code \<open>name\<close> knows is a constant of that name.
\<close>
lemma errno_constants_named:
  "list_all (\<lambda>(s, e). name e = Some (if s = ''EWOULDBLOCK'' then ''EAGAIN'' else s)) errno_constants
   \<and> list_all (\<lambda>(c, s). map_of errno_constants s = Some (Errno (word_of_int c))) errno_names"
  by (intro conjI; code_simp)

end
