(* ===== verification/Layout.thy ===== *)
theory Layout
  imports Libc_Prelude
begin

text \<open>
  The memory layout \<open>#[repr(C)]\<close> gives a struct, as an algorithm over its field types, and the
  byte image of a struct value under it. The crate states the offsets and sizes it relies on as
  \<open>const\<close> assertions; with this algorithm they become theorems about the field lists. A byte
  codec is an interface (\<open>codec\<close>), so that arrays and out-parameters are handled once for every
  struct.
\<close>

section \<open>Types, sizes and offsets\<close>

datatype cty = U8 | U16 | U32 | U64 | Arr nat cty
  | Struct "(string \<times> cty) list" | Packed "(string \<times> cty) list"

definition round_up :: "nat \<Rightarrow> nat \<Rightarrow> nat" where
  "round_up n a = (n + (a - 1)) div a * a"

fun align_of :: "cty \<Rightarrow> nat" where
  "align_of U8 = 1"
| "align_of U16 = 2"
| "align_of U32 = 4"
| "align_of U64 = 8"
| "align_of (Arr n t) = align_of t"
| "align_of (Struct fs) = foldr (\<lambda>(_, t) a. max (align_of t) a) fs 1"
| "align_of (Packed fs) = 1"

text \<open>
  \<open>struct_end\<close> is the offset after the last field: each field starts at the next multiple of its
  alignment.
\<close>

fun size_of :: "cty \<Rightarrow> nat" and struct_end :: "nat \<Rightarrow> (string \<times> cty) list \<Rightarrow> nat" where
  "size_of U8 = 1"
| "size_of U16 = 2"
| "size_of U32 = 4"
| "size_of U64 = 8"
| "size_of (Arr n t) = n * size_of t"
| "size_of (Struct fs) = round_up (struct_end 0 fs) (align_of (Struct fs))"
| "size_of (Packed fs) = sum_list (map (\<lambda>(_, t). size_of t) fs)"
| "struct_end p [] = p"
| "struct_end p ((f, t) # fs) = struct_end (round_up p (align_of t) + size_of t) fs"

fun offset_from :: "nat \<Rightarrow> (string \<times> cty) list \<Rightarrow> string \<Rightarrow> nat option" where
  "offset_from p [] g = None"
| "offset_from p ((f, t) # fs) g =
     (if f = g then Some (round_up p (align_of t))
      else offset_from (round_up p (align_of t) + size_of t) fs g)"

fun packed_offset_from :: "nat \<Rightarrow> (string \<times> cty) list \<Rightarrow> string \<Rightarrow> nat option" where
  "packed_offset_from p [] g = None"
| "packed_offset_from p ((f, t) # fs) g = (if f = g then Some p else packed_offset_from (p + size_of t) fs g)"

fun offset_of :: "cty \<Rightarrow> string \<Rightarrow> nat option" where
  "offset_of (Struct fs) g = offset_from 0 fs g"
| "offset_of (Packed fs) g = packed_offset_from 0 fs g"
| "offset_of _ g = None"

lemma round_up_ge: "0 < a \<Longrightarrow> n \<le> round_up n a"
proof -
  assume a: "0 < a"
  have "(n + (a - 1)) mod a < a" using a by simp
  moreover have "(n + (a - 1)) div a * a + (n + (a - 1)) mod a = n + (a - 1)"
    by (rule div_mult_mod_eq)
  ultimately show ?thesis unfolding round_up_def by linarith
qed

lemma round_up_dvd [simp]: "a dvd round_up n a"
  by (simp add: round_up_def)

lemma round_up_less: "0 < a \<Longrightarrow> round_up n a < n + a"
proof -
  assume a: "0 < a"
  have "(n + (a - 1)) div a * a \<le> n + (a - 1)" by simp
  then show ?thesis using a unfolding round_up_def by linarith
qed

lemma align_of_pos [simp]: "0 < align_of t"
proof (induction t)
  case (Struct fs)
  show ?case by (induction fs) (auto simp: less_max_iff_disj)
qed simp_all

section \<open>Byte images of structs\<close>

text \<open>
  \<open>put_fields p fs bs\<close> lays the field images \<open>bs\<close> out from offset \<open>p\<close> on, with padding (modelled as
  zero bytes) before each field; \<open>struct_bytes\<close> adds the padding at the end.
\<close>

fun put_fields :: "nat \<Rightarrow> (string \<times> cty) list \<Rightarrow> byte list list \<Rightarrow> byte list" where
  "put_fields p [] bs = []"
| "put_fields p (ft # fs) [] = []"
| "put_fields p ((f, t) # fs) (b # bs) =
     replicate (round_up p (align_of t) - p) 0 @ b @ put_fields (round_up p (align_of t) + size_of t) fs bs"

definition struct_bytes :: "(string \<times> cty) list \<Rightarrow> byte list list \<Rightarrow> byte list" where
  "struct_bytes fs bs =
     (let body = put_fields 0 fs bs in body @ replicate (size_of (Struct fs) - length body) 0)"

definition get_field :: "(string \<times> cty) list \<Rightarrow> string \<Rightarrow> byte list \<Rightarrow> byte list" where
  "get_field fs f b = (case offset_from 0 fs f of
       None \<Rightarrow> []
     | Some p \<Rightarrow> take (size_of (the (map_of fs f))) (drop p b))"

text \<open>Every field image has the size of its field.\<close>

definition fits :: "(string \<times> cty) list \<Rightarrow> byte list list \<Rightarrow> bool" where
  "fits fs bs \<longleftrightarrow> list_all2 (\<lambda>(f, t) b. length b = size_of t) fs bs"

lemma fits_simps [simp]:
  "fits [] bs \<longleftrightarrow> bs = []"
  "fits ((f, t) # fs) (b # bs) \<longleftrightarrow> length b = size_of t \<and> fits fs bs"
  "\<not> fits (ft # fs) []"
  by (simp_all add: fits_def)

lemma fits_Cons_elim:
  assumes "fits ((f, t) # fs) bs"
  obtains b bs' where "bs = b # bs'" and "length b = size_of t" and "fits fs bs'"
  using assms by (cases bs) auto

lemma struct_end_mono: "p \<le> struct_end p fs"
proof (induction fs arbitrary: p)
  case (Cons ft fs)
  obtain f t where ft: "ft = (f, t)" by fastforce
  have "p \<le> round_up p (align_of t)" by (simp add: round_up_ge)
  also have "\<dots> \<le> round_up p (align_of t) + size_of t" by simp
  also have "\<dots> \<le> struct_end (round_up p (align_of t) + size_of t) fs" by (rule Cons.IH)
  finally show ?case by (simp add: ft)
qed simp

lemma length_put_fields: "fits fs bs \<Longrightarrow> p + length (put_fields p fs bs) = struct_end p fs"
proof (induction fs arbitrary: p bs)
  case (Cons ft fs)
  obtain f t where ft: "ft = (f, t)" by fastforce
  with Cons.prems obtain b bs' where bs: "bs = b # bs'" "length b = size_of t" "fits fs bs'"
    by (auto elim: fits_Cons_elim)
  have "p \<le> round_up p (align_of t)" by (simp add: round_up_ge)
  with Cons.IH [OF bs(3), of "round_up p (align_of t) + size_of t"] show ?case
    by (simp add: ft bs)
qed simp

lemma length_struct_bytes [simp]:
  "fits fs bs \<Longrightarrow> length (struct_bytes fs bs) = size_of (Struct fs)"
  using length_put_fields [of fs bs 0] round_up_ge [of "align_of (Struct fs)" "struct_end 0 fs"]
  by (simp add: struct_bytes_def Let_def del: align_of.simps)

lemma drop_put_fields:
  "fits fs bs \<Longrightarrow> offset_from p fs f = Some q \<Longrightarrow>
   p \<le> q \<and> take (size_of (the (map_of fs f))) (drop (q - p) (put_fields p fs bs @ z))
          = the (map_of (zip (map fst fs) bs) f)"
proof (induction fs arbitrary: p bs)
  case (Cons ft fs)
  obtain g t where ft: "ft = (g, t)" by fastforce
  with Cons.prems(1) obtain b bs' where bs: "bs = b # bs'" "length b = size_of t" "fits fs bs'"
    by (auto elim: fits_Cons_elim)
  let ?r = "round_up p (align_of t)"
  have r: "p \<le> ?r" by (simp add: round_up_ge)
  show ?case
  proof (cases "g = f")
    case True
    with Cons.prems(2) ft have "q = ?r" by simp
    with True r bs show ?thesis by (simp add: ft)
  next
    case False
    with Cons.prems(2) ft have q: "offset_from (?r + size_of t) fs f = Some q" by simp
    note IH = Cons.IH [OF bs(3) q]
    let ?pre = "replicate (?r - p) 0 @ b" and ?rest = "put_fields (?r + size_of t) fs bs' @ z"
    have len: "length ?pre \<le> q - p" and diff: "q - p - length ?pre = q - (?r + size_of t)"
      using IH r bs(2) by auto
    have "drop (q - p) (put_fields p (ft # fs) bs @ z) = drop (q - p) (?pre @ ?rest)"
      by (simp add: ft bs)
    also have "\<dots> = drop (q - (?r + size_of t)) ?rest"
      by (simp only: drop_past [OF len] diff)
    finally have eq: "drop (q - p) (put_fields p (ft # fs) bs @ z) = drop (q - (?r + size_of t)) ?rest" .
    have "p \<le> q" using IH r by simp
    moreover have "map_of (ft # fs) f = map_of fs f"
      and "map_of (zip (map fst (ft # fs)) bs) f = map_of (zip (map fst fs) bs') f"
      using False by (simp_all add: ft bs)
    ultimately show ?thesis using IH by (simp only: eq)
  qed
qed simp

lemma get_field_struct_bytes:
  assumes "fits fs bs" and "offset_from 0 fs f = Some q"
  shows "get_field fs f (struct_bytes fs bs) = the (map_of (zip (map fst fs) bs) f)"
  using drop_put_fields [OF assms, of "replicate (size_of (Struct fs) - length (put_fields 0 fs bs)) 0"]
    assms(2)
  by (simp add: get_field_def struct_bytes_def Let_def del: size_of.simps)

lemma offset_from_None: "offset_from p fs f = None \<longleftrightarrow> f \<notin> fst ` set fs"
  by (induction fs arbitrary: p) (force split: if_splits)+

lemma offset_from_member: "f \<in> set (map fst fs) \<Longrightarrow> \<exists>q. offset_from p fs f = Some q"
  using offset_from_None [of p fs f] by auto

text \<open>All field images of a struct, in field order.\<close>

definition get_fields :: "(string \<times> cty) list \<Rightarrow> byte list \<Rightarrow> byte list list" where
  "get_fields fs b = map (\<lambda>f. get_field fs f b) (map fst fs)"

lemma get_fields_struct_bytes:
  assumes "fits fs bs" and "distinct (map fst fs)"
  shows "get_fields fs (struct_bytes fs bs) = bs"
proof -
  have len: "length bs = length fs" using assms(1) by (auto simp: fits_def list_all2_lengthD)
  have "get_field fs (map fst fs ! i) (struct_bytes fs bs) = bs ! i" if i: "i < length fs" for i
  proof -
    have "map fst fs ! i \<in> set (map fst fs)" using i by (intro nth_mem) simp
    from offset_from_member [OF this] obtain q where "offset_from 0 fs (map fst fs ! i) = Some q" by blast
    from get_field_struct_bytes [OF assms(1) this] show ?thesis
      using map_of_zip_nth [of "map fst fs" bs i] assms(2) i len by simp
  qed
  then show ?thesis by (intro nth_equalityI) (simp_all add: get_fields_def len)
qed

lemma offset_from_end:
  "offset_from p fs f = Some q \<Longrightarrow> q + size_of (the (map_of fs f)) \<le> struct_end p fs"
proof (induction fs arbitrary: p)
  case (Cons ft fs)
  obtain g t where ft: "ft = (g, t)" by fastforce
  show ?case
  proof (cases "g = f")
    case True
    with Cons.prems show ?thesis by (simp add: ft struct_end_mono)
  next
    case False
    with Cons show ?thesis by (simp add: ft)
  qed
qed simp

lemma length_get_field:
  assumes "f \<in> set (map fst fs)" and "length b = size_of (Struct fs)"
  shows "length (get_field fs f b) = size_of (the (map_of fs f))"
proof -
  from offset_from_member [OF assms(1)] obtain q where q: "offset_from 0 fs f = Some q" by blast
  have "struct_end 0 fs \<le> length b"
    using assms(2) round_up_ge [of "align_of (Struct fs)" "struct_end 0 fs"] by (simp del: align_of.simps)
  with offset_from_end [OF q] show ?thesis using q by (simp add: get_field_def)
qed

lemma fits_get_fields:
  assumes "distinct (map fst fs)" and "length b = size_of (Struct fs)"
  shows "fits fs (get_fields fs b)"
proof -
  have "length (get_field fs f b) = size_of t" if "(f, t) \<in> set fs" for f t
    using length_get_field [OF _ assms(2), of f] that assms(1) by (force simp: map_of_is_SomeI)
  then show ?thesis
    by (auto simp: fits_def get_fields_def list_all2_map2 intro!: list.rel_refl_strong)
qed

section \<open>Codecs\<close>

text \<open>
  The interface of a fixed-size byte representation: well-formed values (arrays of the declared
  length) have an image of \<open>sz\<close> bytes that decodes to the value, and every image of that size
  decodes to a well-formed value.
\<close>

locale codec =
  fixes sz :: nat
    and ok :: "'a \<Rightarrow> bool"
    and enc :: "'a \<Rightarrow> byte list"
    and dec :: "byte list \<Rightarrow> 'a"
  assumes length_enc: "ok x \<Longrightarrow> length (enc x) = sz"
    and dec_enc: "ok x \<Longrightarrow> dec (enc x) = x"
    and ok_dec: "length b = sz \<Longrightarrow> ok (dec b)"

text \<open>Arrays of a struct, laid out one after the other.\<close>

definition enc_array :: "('a \<Rightarrow> byte list) \<Rightarrow> 'a list \<Rightarrow> byte list" where
  "enc_array enc xs = concat (map enc xs)"

fun dec_array :: "nat \<Rightarrow> (byte list \<Rightarrow> 'a) \<Rightarrow> nat \<Rightarrow> byte list \<Rightarrow> 'a list" where
  "dec_array sz dec 0 b = []"
| "dec_array sz dec (Suc n) b = dec (take sz b) # dec_array sz dec n (drop sz b)"

lemma length_dec_array [simp]: "length (dec_array sz dec n b) = n"
  by (induction n arbitrary: b) simp_all

context codec
begin

lemma enc_inject: "ok x \<Longrightarrow> ok y \<Longrightarrow> enc x = enc y \<longleftrightarrow> x = y"
  using dec_enc by metis

lemma length_enc_array: "list_all ok xs \<Longrightarrow> length (enc_array enc xs) = length xs * sz"
  by (induction xs) (simp_all add: enc_array_def length_enc)

lemma dec_enc_array: "list_all ok xs \<Longrightarrow> length xs = n \<Longrightarrow> dec_array sz dec n (enc_array enc xs) = xs"
  by (induction xs arbitrary: n) (auto simp: enc_array_def length_enc dec_enc)

lemma ok_dec_array: "length b = n * sz \<Longrightarrow> list_all ok (dec_array sz dec n b)"
  by (induction n arbitrary: b) (simp_all add: ok_dec)

end

text \<open>
  A struct whose values are taken apart into field images (\<open>parts\<close>) and put together from them
  (\<open>build\<close>) has a codec: its image is laid out by \<open>struct_bytes\<close> and read back by \<open>get_fields\<close>.
\<close>

definition struct_enc :: "(string \<times> cty) list \<Rightarrow> ('a \<Rightarrow> byte list list) \<Rightarrow> 'a \<Rightarrow> byte list" where
  "struct_enc fs parts x = struct_bytes fs (parts x)"

definition struct_dec :: "(string \<times> cty) list \<Rightarrow> (byte list list \<Rightarrow> 'a) \<Rightarrow> byte list \<Rightarrow> 'a" where
  "struct_dec fs build b = build (get_fields fs b)"

locale struct_codec =
  fixes fs :: "(string \<times> cty) list"
    and ok :: "'a \<Rightarrow> bool"
    and parts :: "'a \<Rightarrow> byte list list"
    and build :: "byte list list \<Rightarrow> 'a"
    and sz :: nat
  assumes struct_size: "size_of (Struct fs) = sz"
    and distinct_names: "distinct (map fst fs)"
    and fits_parts: "ok x \<Longrightarrow> fits fs (parts x)"
    and build_parts: "ok x \<Longrightarrow> build (parts x) = x"
    and ok_build: "fits fs bs \<Longrightarrow> ok (build bs)"

sublocale struct_codec \<subseteq> codec sz ok "struct_enc fs parts" "struct_dec fs build"
proof unfold_locales
  fix x assume x: "ok x"
  then show "length (struct_enc fs parts x) = sz"
    using length_struct_bytes [OF fits_parts] struct_size by (simp add: struct_enc_def)
  show "struct_dec fs build (struct_enc fs parts x) = x"
    using get_fields_struct_bytes [OF fits_parts [OF x] distinct_names] build_parts [OF x]
    by (simp add: struct_enc_def struct_dec_def)
next
  fix b :: "byte list" assume "length b = sz"
  then show "ok (struct_dec fs build b)"
    using ok_build fits_get_fields distinct_names struct_size by (simp add: struct_dec_def)
qed

lemma fits_nth: "fits fs bs \<Longrightarrow> i < length fs \<Longrightarrow> length (bs ! i) = size_of (snd (fs ! i))"
  unfolding fits_def using list_all2_nthD [of _ fs bs i] by (fastforce split: prod.splits)

text \<open>Machine integers are codecs of their size.\<close>

interpretation word16: codec 2 "\<lambda>_. True" "le_bytes 2" "le_word :: byte list \<Rightarrow> 16 word"
  by unfold_locales (simp_all add: le_word_le_bytes_full)

interpretation word32: codec 4 "\<lambda>_. True" "le_bytes 4" "le_word :: byte list \<Rightarrow> 32 word"
  by unfold_locales (simp_all add: le_word_le_bytes_full)

interpretation word64: codec 8 "\<lambda>_. True" "le_bytes 8" "le_word :: byte list \<Rightarrow> 64 word"
  by unfold_locales (simp_all add: le_word_le_bytes_full)

lemmas [codec_simps] = word16.length_enc_array word16.dec_enc_array word32.length_enc_array
  word32.dec_enc_array word64.length_enc_array word64.dec_enc_array list_all_length

end
