(* ===== verification/Fd.thy ===== *)
theory Fd
  imports Arch Layout
begin

text \<open>
  File-descriptor primitives (\<open>src/fd.rs\<close>): the thin wrappers, the \<open>read_all\<close>/\<open>write_all\<close> loops over
  short transfers and interrupted calls, and the two calls that are emulated on aarch64, \<open>poll\<close>
  (by \<open>ppoll\<close>) and \<open>dup2\<close> (by \<open>dup3\<close>).
\<close>

section \<open>Constants\<close>

definition POLLIN :: i16 where "POLLIN = 0x001"
definition POLLPRI :: i16 where "POLLPRI = 0x002"
definition POLLOUT :: i16 where "POLLOUT = 0x004"
definition POLLERR :: i16 where "POLLERR = 0x008"
definition POLLHUP :: i16 where "POLLHUP = 0x010"
definition POLLNVAL :: i16 where "POLLNVAL = 0x020"

lemmas poll_flag_defs = POLLIN_def POLLPRI_def POLLOUT_def POLLERR_def POLLHUP_def POLLNVAL_def

definition F_GETFD :: i32 where "F_GETFD = 1"
definition O_RDONLY :: i32 where "O_RDONLY = 0"
definition O_RDWR :: i32 where "O_RDWR = 2"
definition AT_FDCWD :: i32 where "AT_FDCWD = - 100"
definition F_SETFD :: i32 where "F_SETFD = 2"
definition F_GETFL :: i32 where "F_GETFL = 3"
definition F_SETFL :: i32 where "F_SETFL = 4"
definition F_DUPFD_CLOEXEC :: i32 where "F_DUPFD_CLOEXEC = 1030"
definition F_SETPIPE_SZ :: i32 where "F_SETPIPE_SZ = 1031"
definition F_GETPIPE_SZ :: i32 where "F_GETPIPE_SZ = 1032"
definition FD_CLOEXEC :: i32 where "FD_CLOEXEC = 1"
definition O_CLOEXEC :: i32 where "O_CLOEXEC = 0x80000"
definition O_NONBLOCK :: i32 where "O_NONBLOCK = 0x800"
definition O_WRONLY :: i32 where "O_WRONLY = 1"
definition O_CREAT :: i32 where "O_CREAT = 0x40"
definition O_EXCL :: i32 where "O_EXCL = 0x80"
definition O_TRUNC :: i32 where "O_TRUNC = 0x200"
definition O_APPEND :: i32 where "O_APPEND = 0x400"

text \<open>The one open flag whose value differs between the architectures.\<close>

definition O_DIRECTORY :: "arch \<Rightarrow> i32" where
  "O_DIRECTORY a = (case a of X86_64 \<Rightarrow> 0x10000 | Aarch64 \<Rightarrow> 0x4000)"

definition CLOSE_RANGE_CLOEXEC :: u32 where "CLOSE_RANGE_CLOEXEC = push_bit 2 1"
definition MFD_CLOEXEC :: u32 where "MFD_CLOEXEC = 1"
definition SEEK_SET :: i32 where "SEEK_SET = 0"
definition SEEK_CUR :: i32 where "SEEK_CUR = 1"
definition SEEK_END :: i32 where "SEEK_END = 2"

section \<open>Opening, reading and writing\<close>

text \<open>A \<open>&CStr\<close> argument: the kernel sees its bytes up to and including the terminating NUL.\<close>

definition cstr :: "byte list \<Rightarrow> arg" where
  "cstr p = Ptr (p @ [0])"

abbreviation len_arg :: "'a list \<Rightarrow> arg" where
  "len_arg xs \<equiv> Val (of_nat (length xs))"

definition openat :: "'k mach \<Rightarrow> i32 \<Rightarrow> byte list \<Rightarrow> i32 \<Rightarrow> u32 \<Rightarrow> ('k, i32) io" where
  "openat M dirfd path flags mode =
     call_i32 M ''OPENAT'' [Val (scast dirfd), cstr path, Val (scast flags), Val (ucast mode)]"

definition fd_open :: "'k mach \<Rightarrow> byte list \<Rightarrow> i32 \<Rightarrow> u32 \<Rightarrow> ('k, i32) io" where
  "fd_open M path flags mode = openat M AT_FDCWD path flags mode"

record PollFd =
  p_fd :: i32
  p_events :: i16
  p_revents :: i16

definition PollFd_fields :: "(string \<times> cty) list" where
  "PollFd_fields = [(''fd'', U32), (''events'', U16), (''revents'', U16)]"

definition PollFd_parts :: "PollFd \<Rightarrow> byte list list" where
  "PollFd_parts x = [le_bytes 4 (p_fd x), le_bytes 2 (p_events x), le_bytes 2 (p_revents x)]"

definition PollFd_build :: "byte list list \<Rightarrow> PollFd" where
  "PollFd_build bs =
     \<lparr>p_fd = le_word (bs ! 0), p_events = le_word (bs ! 1), p_revents = le_word (bs ! 2)\<rparr>"

abbreviation "enc_PollFd \<equiv> struct_enc PollFd_fields PollFd_parts"
abbreviation "dec_PollFd \<equiv> struct_dec PollFd_fields PollFd_build"

interpretation pollfd: struct_codec PollFd_fields "\<lambda>_. True" PollFd_parts PollFd_build 8
  by unfold_locales
    (auto simp: PollFd_fields_def PollFd_parts_def PollFd_build_def round_up_def codec_simps)

definition PollFd_new :: "i32 \<Rightarrow> i16 \<Rightarrow> PollFd" where
  "PollFd_new fd events = \<lparr>p_fd = fd, p_events = events, p_revents = 0\<rparr>"

definition is_readable :: "PollFd \<Rightarrow> bool" where
  "is_readable p \<longleftrightarrow> p_revents p AND POLLIN \<noteq> 0"

definition is_writable :: "PollFd \<Rightarrow> bool" where
  "is_writable p \<longleftrightarrow> p_revents p AND POLLOUT \<noteq> 0"

definition is_hup :: "PollFd \<Rightarrow> bool" where
  "is_hup p \<longleftrightarrow> p_revents p AND POLLHUP \<noteq> 0"

definition is_error :: "PollFd \<Rightarrow> bool" where
  "is_error p \<longleftrightarrow> p_revents p AND POLLERR \<noteq> 0"

definition is_invalid :: "PollFd \<Rightarrow> bool" where
  "is_invalid p \<longleftrightarrow> p_revents p AND POLLNVAL \<noteq> 0"

text \<open>
  A function that fills a caller's buffer returns its outcome and the buffer as the kernel left
  it, since the caller still owns the buffer when the call fails.
\<close>

definition read :: "'k mach \<Rightarrow> i32 \<Rightarrow> byte list \<Rightarrow> 'k \<Rightarrow> usize res \<times> byte list \<times> 'k" where
  "read M fd buf = call_buf M ''READ'' [Val (scast fd), MutPtr buf, len_arg buf] 1"

definition fd_write :: "'k mach \<Rightarrow> i32 \<Rightarrow> byte list \<Rightarrow> ('k, usize) io" where
  "fd_write M fd buf = call_usize M ''WRITE'' [Val (scast fd), Ptr buf, len_arg buf]"

text \<open>
  \<open>None\<close> is a loop that never ends, which an endless run of \<open>EINTR\<close> would be.
\<close>

partial_function (option) write_all ::
  "'k mach \<Rightarrow> i32 \<Rightarrow> byte list \<Rightarrow> 'k \<Rightarrow> (unit res \<times> 'k) option" where
  "write_all M fd buf k =
     (if buf = [] then Some (Ok (), k)
      else case fd_write M fd buf k of
        (Ok n, k') \<Rightarrow>
          if n = 0 then Some (Err EIO, k')
          else if unat n \<le> length buf then write_all M fd (drop (unat n) buf) k'
          else Some (Panic, k')
      | (Err e, k') \<Rightarrow> if e = EINTR then write_all M fd buf k' else Some (Err e, k')
      | (Panic, k') \<Rightarrow> Some (Panic, k'))"

definition pread :: "'k mach \<Rightarrow> i32 \<Rightarrow> byte list \<Rightarrow> i64 \<Rightarrow> 'k \<Rightarrow> usize res \<times> byte list \<times> 'k" where
  "pread M fd buf offset =
     call_buf M ''PREAD64'' [Val (scast fd), MutPtr buf, len_arg buf, Val offset] 1"

definition pwrite :: "'k mach \<Rightarrow> i32 \<Rightarrow> byte list \<Rightarrow> i64 \<Rightarrow> ('k, usize) io" where
  "pwrite M fd buf offset =
     call_usize M ''PWRITE64'' [Val (scast fd), Ptr buf, len_arg buf, Val offset]"

text \<open>
  \<open>IoSlice\<close> and \<open>IoSliceMut\<close>: address and length of a buffer. An array of them is passed as the
  buffers it names (\<open>Iov\<close>, \<open>IovMut\<close>); \<open>addr\<close> is where the buffer lies.
\<close>

record IoSlice =
  io_base :: u64
  io_len :: u64

definition IoSlice_fields :: "(string \<times> cty) list" where
  "IoSlice_fields =
    [(''base'', U64), (''len'', U64)]"

definition IoSlice_parts :: "IoSlice \<Rightarrow> byte list list" where
  "IoSlice_parts x =
    [le_bytes 8 (io_base x), le_bytes 8 (io_len x)]"

definition IoSlice_build :: "byte list list \<Rightarrow> IoSlice" where
  "IoSlice_build bs =
    \<lparr>io_base = le_word (bs ! 0), io_len = le_word (bs ! 1)\<rparr>"

abbreviation "enc_IoSlice \<equiv> struct_enc IoSlice_fields IoSlice_parts"
abbreviation "dec_IoSlice \<equiv> struct_dec IoSlice_fields IoSlice_build"

interpretation ioslice: struct_codec IoSlice_fields "\<lambda>_. True" IoSlice_parts IoSlice_build 16
  by (unfold_locales)
    (auto simp: IoSlice_fields_def IoSlice_parts_def IoSlice_build_def round_up_def two_fold codec_simps)

record IoSliceMut =
  iom_base :: u64
  iom_len :: u64

definition IoSliceMut_fields :: "(string \<times> cty) list" where
  "IoSliceMut_fields =
    [(''base'', U64), (''len'', U64)]"

definition IoSliceMut_parts :: "IoSliceMut \<Rightarrow> byte list list" where
  "IoSliceMut_parts x =
    [le_bytes 8 (iom_base x), le_bytes 8 (iom_len x)]"

definition IoSliceMut_build :: "byte list list \<Rightarrow> IoSliceMut" where
  "IoSliceMut_build bs =
    \<lparr>iom_base = le_word (bs ! 0), iom_len = le_word (bs ! 1)\<rparr>"

abbreviation "enc_IoSliceMut \<equiv> struct_enc IoSliceMut_fields IoSliceMut_parts"
abbreviation "dec_IoSliceMut \<equiv> struct_dec IoSliceMut_fields IoSliceMut_build"

interpretation ioslice_mut: struct_codec IoSliceMut_fields "\<lambda>_. True" IoSliceMut_parts IoSliceMut_build 16
  by (unfold_locales)
    (auto simp: IoSliceMut_fields_def IoSliceMut_parts_def IoSliceMut_build_def round_up_def two_fold codec_simps)

definition IoSlice_new :: "usize \<Rightarrow> byte list \<Rightarrow> IoSlice" where
  "IoSlice_new addr b = \<lparr>io_base = addr, io_len = of_nat (length b)\<rparr>"

definition IoSliceMut_new :: "usize \<Rightarrow> byte list \<Rightarrow> IoSliceMut" where
  "IoSliceMut_new addr b = \<lparr>iom_base = addr, iom_len = of_nat (length b)\<rparr>"

definition out_iov :: "arg list \<Rightarrow> nat \<Rightarrow> byte list list" where
  "out_iov outs i = (if i < length outs then (case outs ! i of IovMut bs \<Rightarrow> bs | _ \<Rightarrow> []) else [])"

definition call_iov ::
  "'k mach \<Rightarrow> string \<Rightarrow> arg list \<Rightarrow> nat \<Rightarrow> 'k \<Rightarrow> usize res \<times> byte list list \<times> 'k" where
  "call_iov M s args i k =
     (case sys M s args k of (ret, outs, k') \<Rightarrow> (from_ret ret, out_iov outs i, k'))"

definition readv ::
  "'k mach \<Rightarrow> i32 \<Rightarrow> byte list list \<Rightarrow> 'k \<Rightarrow> usize res \<times> byte list list \<times> 'k" where
  "readv M fd bufs = call_iov M ''READV'' [Val (scast fd), IovMut bufs, len_arg bufs] 1"

definition writev :: "'k mach \<Rightarrow> i32 \<Rightarrow> byte list list \<Rightarrow> ('k, usize) io" where
  "writev M fd bufs = call_usize M ''WRITEV'' [Val (scast fd), Iov bufs, len_arg bufs]"

definition preadv ::
  "'k mach \<Rightarrow> i32 \<Rightarrow> byte list list \<Rightarrow> i64 \<Rightarrow> 'k \<Rightarrow> usize res \<times> byte list list \<times> 'k" where
  "preadv M fd bufs offset =
     call_iov M ''PREADV'' [Val (scast fd), IovMut bufs, len_arg bufs, Val offset, Val 0] 1"

definition pwritev :: "'k mach \<Rightarrow> i32 \<Rightarrow> byte list list \<Rightarrow> i64 \<Rightarrow> ('k, usize) io" where
  "pwritev M fd bufs offset =
     call_usize M ''PWRITEV'' [Val (scast fd), Iov bufs, len_arg bufs, Val offset, Val 0]"

text \<open>The loop of \<open>read_all\<close>, at \<open>tot\<close> bytes read; each round reads into \<open>&mut buf[tot..]\<close>.\<close>

partial_function (option) read_all_from ::
  "'k mach \<Rightarrow> i32 \<Rightarrow> nat \<Rightarrow> byte list \<Rightarrow> 'k \<Rightarrow> (usize res \<times> byte list \<times> 'k) option" where
  "read_all_from M fd tot buf k =
     (if tot < length buf
      then case read M fd (drop tot buf) k of
          (Ok n, tail, k') \<Rightarrow>
            if n = 0 then Some (Ok (of_nat tot), take tot buf @ tail, k')
            else read_all_from M fd ((tot + unat n) mod 2 ^ 64) (take tot buf @ tail) k'
        | (Err e, tail, k') \<Rightarrow>
            if e = EINTR then read_all_from M fd tot (take tot buf @ tail) k'
            else Some (Err e, take tot buf @ tail, k')
        | (Panic, tail, k') \<Rightarrow> Some (Panic, take tot buf @ tail, k')
      else Some (Ok (of_nat tot), buf, k))"

definition read_all ::
  "'k mach \<Rightarrow> i32 \<Rightarrow> byte list \<Rightarrow> 'k \<Rightarrow> (usize res \<times> byte list \<times> 'k) option" where
  "read_all M fd buf k = read_all_from M fd 0 buf k"

section \<open>Polling\<close>

text \<open>
  The \<open>timespec\<close> the aarch64 \<open>poll\<close> passes to \<open>ppoll\<close>; a negative timeout becomes a null pointer. The raw
  system call writes the time that is left there, so the pointer is one the kernel writes through, although
  the source takes it from a shared reference.
\<close>

definition poll_timespec :: "i32 \<Rightarrow> (i64 \<times> i64) option" where
  "poll_timespec timeout =
     (if sint timeout < 0 then None
      else Some (scast (word_of_int (sint timeout div 1000) :: i32),
                 scast (word_of_int (sint timeout mod 1000) :: i32) * 1000000))"

definition poll_timespec_fields :: "(string \<times> cty) list" where
  "poll_timespec_fields = [(''tv_sec'', U64), (''tv_nsec'', U64)]"

definition poll_args :: "arch \<Rightarrow> PollFd list \<Rightarrow> i32 \<Rightarrow> string \<times> arg list" where
  "poll_args a fds timeout = (case a of
       X86_64 \<Rightarrow> (''POLL'', [MutPtr (enc_array enc_PollFd fds), len_arg fds, Val (scast timeout)])
     | Aarch64 \<Rightarrow>
         (''PPOLL'', [MutPtr (enc_array enc_PollFd fds), len_arg fds,
            (case poll_timespec timeout of
               Some (sec, nsec) \<Rightarrow> MutPtr (struct_bytes poll_timespec_fields [le_bytes 8 sec, le_bytes 8 nsec])
             | None \<Rightarrow> Val 0),
            Val 0, Val 8]))"

definition poll :: "'k mach \<Rightarrow> PollFd list \<Rightarrow> i32 \<Rightarrow> 'k \<Rightarrow> usize res \<times> PollFd list \<times> 'k" where
  "poll M fds timeout k =
     (case poll_args (m_arch M) fds timeout of (s, args) \<Rightarrow>
        (case sys M s args k of (ret, outs, k') \<Rightarrow>
           (from_ret ret, dec_array 8 dec_PollFd (length fds) (out_bytes outs 0), k')))"

section \<open>Descriptors\<close>

definition fcntl :: "'k mach \<Rightarrow> i32 \<Rightarrow> i32 \<Rightarrow> i32 \<Rightarrow> ('k, i32) io" where
  "fcntl M fd cmd arg = call_i32 M ''FCNTL'' [Val (scast fd), Val (scast cmd), Val (scast arg)]"

definition pipe2 :: "'k mach \<Rightarrow> i32 \<Rightarrow> ('k, i32 \<times> i32) io" where
  "pipe2 M flags = call_out M ''PIPE2'' [MutPtr (replicate 8 0), Val (scast flags)]
     (\<lambda>outs. (le_word (take 4 (out_bytes outs 0)), le_word (take 4 (drop 4 (out_bytes outs 0)))))"

definition dup :: "'k mach \<Rightarrow> i32 \<Rightarrow> ('k, i32) io" where
  "dup M fd = call_i32 M ''DUP'' [Val (scast fd)]"

definition dup2_x86_64 :: "'k mach \<Rightarrow> i32 \<Rightarrow> i32 \<Rightarrow> ('k, i32) io" where
  "dup2_x86_64 M oldfd newfd = call_i32 M ''DUP2'' [Val (scast oldfd), Val (scast newfd)]"

definition dup2_aarch64 :: "'k mach \<Rightarrow> i32 \<Rightarrow> i32 \<Rightarrow> ('k, i32) io" where
  "dup2_aarch64 M oldfd newfd =
     (if oldfd = newfd
      then io_bind (fcntl M oldfd F_GETFD 0) (\<lambda>_. io_return newfd)
      else call_i32 M ''DUP3'' [Val (scast oldfd), Val (scast newfd), Val 0])"

definition dup2 :: "'k mach \<Rightarrow> i32 \<Rightarrow> i32 \<Rightarrow> ('k, i32) io" where
  "dup2 M oldfd newfd = (case m_arch M of
       X86_64 \<Rightarrow> dup2_x86_64 M oldfd newfd
     | Aarch64 \<Rightarrow> dup2_aarch64 M oldfd newfd)"

definition dup3 :: "'k mach \<Rightarrow> i32 \<Rightarrow> i32 \<Rightarrow> i32 \<Rightarrow> ('k, i32) io" where
  "dup3 M oldfd newfd flags =
     call_i32 M ''DUP3'' [Val (scast oldfd), Val (scast newfd), Val (scast flags)]"

definition close :: "'k mach \<Rightarrow> i32 \<Rightarrow> ('k, unit) io" where
  "close M fd = call_unit M ''CLOSE'' [Val (scast fd)]"

definition close_range :: "'k mach \<Rightarrow> u32 \<Rightarrow> u32 \<Rightarrow> u32 \<Rightarrow> ('k, unit) io" where
  "close_range M fst_fd lst_fd flags =
     call_unit M ''CLOSE_RANGE'' [Val (ucast fst_fd), Val (ucast lst_fd), Val (ucast flags)]"

definition fsync :: "'k mach \<Rightarrow> i32 \<Rightarrow> ('k, unit) io" where
  "fsync M fd = call_unit M ''FSYNC'' [Val (scast fd)]"

definition fdatasync :: "'k mach \<Rightarrow> i32 \<Rightarrow> ('k, unit) io" where
  "fdatasync M fd = call_unit M ''FDATASYNC'' [Val (scast fd)]"

definition memfd_create :: "'k mach \<Rightarrow> byte list \<Rightarrow> u32 \<Rightarrow> ('k, i32) io" where
  "memfd_create M nm flags = call_i32 M ''MEMFD_CREATE'' [cstr nm, Val (ucast flags)]"

definition lseek :: "'k mach \<Rightarrow> i32 \<Rightarrow> i64 \<Rightarrow> i32 \<Rightarrow> ('k, i64) io" where
  "lseek M fd offset whence =
     call_usize M ''LSEEK'' [Val (scast fd), Val offset, Val (scast whence)]"

definition ftruncate :: "'k mach \<Rightarrow> i32 \<Rightarrow> i64 \<Rightarrow> ('k, unit) io" where
  "ftruncate M fd len = call_unit M ''FTRUNCATE'' [Val (scast fd), Val len]"

definition ioctl :: "'k mach \<Rightarrow> i32 \<Rightarrow> usize \<Rightarrow> arg \<Rightarrow> 'k \<Rightarrow> usize res \<times> arg \<times> 'k" where
  "ioctl M fd request arg k =
     (case sys M ''IOCTL'' [Val (scast fd), Val request, arg] k of
        (ret, outs, k') \<Rightarrow> (from_ret ret, (if 2 < length outs then outs ! 2 else arg), k'))"

section \<open>What the kernel promises\<close>

text \<open>A raw result is an error code, \<open>-m\<close> with \<open>m\<close> from 1 to 4095.\<close>

definition errno_ret :: "usize \<Rightarrow> int \<Rightarrow> bool" where
  "errno_ret ret m \<longleftrightarrow> 1 \<le> m \<and> m \<le> 4095 \<and> ret = word_of_int (- m)"

lemma from_ret_errno_ret: "errno_ret ret m \<Longrightarrow> from_ret ret = Err (Errno (word_of_int m))"
  using from_ret_window [of m] by (simp only: errno_ret_def)

lemma from_ret_of_nat: "n < 2 ^ 63 \<Longrightarrow> from_ret (of_nat n) = Ok (of_nat n)"
proof -
  assume n: "n < 2 ^ 63"
  then have "sint (word_of_int (int n) :: usize) = int n"
    by (intro sint_word_of_int_small) simp_all
  then show ?thesis by (simp add: from_ret_Ok_iff)
qed

lemma unat_of_nat_usize: "n < 2 ^ 63 \<Longrightarrow> unat (of_nat n :: usize) = n"
  by (simp add: unat_of_nat)

lemma EINTR_iff: "1 \<le> m \<Longrightarrow> m \<le> 4095 \<Longrightarrow> (word_of_int m :: i32) = 4 \<longleftrightarrow> m = 4"
  using sint_word_of_int_small [of m, where 'a = 32] by auto

section \<open>Poll entries\<close>

lemma and_pow_bit: "x AND push_bit n 1 \<noteq> 0 \<longleftrightarrow> n < LENGTH('a) \<and> bit (x :: 'a::len word) n"
proof -
  have "x AND push_bit n 1 = (if n < LENGTH('a) \<and> bit x n then push_bit n 1 else 0)"
    by (rule bit_word_eqI) (auto simp: bit_simps)
  then show ?thesis by (auto simp: push_bit_eq_0_iff)
qed

text \<open>
  The accessors of a \<open>PollFd\<close> report bits 0, 2, 4, 3 and 5 of \<open>revents\<close>, each on its own, and a
  new entry reports none of them.
\<close>
lemma pollfd_accessors:
  "(is_readable p \<longleftrightarrow> bit (p_revents p) 0) \<and> (is_writable p \<longleftrightarrow> bit (p_revents p) 2)
   \<and> (is_hup p \<longleftrightarrow> bit (p_revents p) 4) \<and> (is_error p \<longleftrightarrow> bit (p_revents p) 3)
   \<and> (is_invalid p \<longleftrightarrow> bit (p_revents p) 5)
   \<and> \<not> is_readable (PollFd_new fd ev) \<and> \<not> is_writable (PollFd_new fd ev)
   \<and> \<not> is_hup (PollFd_new fd ev) \<and> \<not> is_error (PollFd_new fd ev) \<and> \<not> is_invalid (PollFd_new fd ev)"
  using and_pow_bit [of "p_revents p" 0] and_pow_bit [of "p_revents p" 2] and_pow_bit [of "p_revents p" 3]
    and_pow_bit [of "p_revents p" 4] and_pow_bit [of "p_revents p" 5]
  by (simp add: is_readable_def is_writable_def is_hup_def is_error_def is_invalid_def poll_flag_defs
      PollFd_new_def push_bit_eq_mult)

text \<open>
  \<open>poll(2)\<close> and \<open>ppoll(2)\<close> as one operation with a time limit in nanoseconds (\<open>None\<close>: wait for
  ever), and how each system call presents it: \<open>poll\<close> takes milliseconds, negative for no limit;
  \<open>ppoll\<close> a \<open>timespec\<close>, null for no limit, and here no signal mask. The raw \<open>ppoll\<close> leaves the time that is left,
  or anything else, in the \<open>timespec\<close>.
\<close>

type_synonym 'k waiter = "byte list \<Rightarrow> usize \<Rightarrow> int option \<Rightarrow> 'k \<Rightarrow> usize \<times> byte list \<times> 'k"

definition poll_contract :: "'k mach \<Rightarrow> 'k waiter \<Rightarrow> bool" where
  "poll_contract M P \<longleftrightarrow>
     (\<forall>b n t k. sys M ''POLL'' [MutPtr b, Val n, Val (scast (t :: i32))] k =
        (case P b n (if sint t < 0 then None else Some (sint t * 1000000)) k of
           (ret, b', k') \<Rightarrow> (ret, [MutPtr b', Val n, Val (scast t)], k')))"

definition ppoll_contract :: "'k mach \<Rightarrow> 'k waiter \<Rightarrow> bool" where
  "ppoll_contract M P \<longleftrightarrow>
     (\<forall>b n k. sys M ''PPOLL'' [MutPtr b, Val n, Val 0, Val 0, Val 8] k =
        (case P b n None k of (ret, b', k') \<Rightarrow> (ret, [MutPtr b', Val n, Val 0, Val 0, Val 8], k')))
     \<and> (\<forall>b n k sec nsec. 0 \<le> sint sec \<longrightarrow> 0 \<le> sint nsec \<longrightarrow> sint nsec < 1000000000 \<longrightarrow>
        (\<exists>left. length left = 16 \<and>
          sys M ''PPOLL'' [MutPtr b, Val n, MutPtr (le_bytes 8 (sec :: i64) @ le_bytes 8 (nsec :: i64)), Val 0, Val 8] k =
          (case P b n (Some (sint sec * 1000000000 + sint nsec)) k of
             (ret, b', k') \<Rightarrow> (ret, [MutPtr b', Val n, MutPtr left, Val 0, Val 8], k'))))"

lemma sint_i32_bounds: "- (2 ^ 31) \<le> sint (t :: i32)" "sint t < 2 ^ 31"
  using sint_greater_eq [of t] sint_less [of t] by simp_all

lemma sint_scast_up:
  "LENGTH('a) \<le> LENGTH('b) \<Longrightarrow> sint (scast (w :: 'a::len word) :: 'b::len word) = sint w"
proof -
  assume "LENGTH('a) \<le> LENGTH('b)"
  then have "(2 :: int) ^ (LENGTH('a) - Suc 0) \<le> 2 ^ (LENGTH('b) - Suc 0)"
    by (intro power_increasing diff_le_mono) simp_all
  with sint_greater_eq [of w] sint_less [of w]
  have "signed_take_bit (LENGTH('b) - Suc 0) (sint w) = sint w"
    by (intro signed_take_bit_int_eq_self) linarith+
  then show ?thesis by (simp add: signed_scast_eq)
qed

lemma poll_timespec_exact:
  assumes "0 \<le> sint timeout"
  obtains sec nsec where "poll_timespec timeout = Some (sec, nsec)"
    and "sint sec = sint timeout div 1000" and "sint nsec = sint timeout mod 1000 * 1000000"
proof
  let ?s = "word_of_int (sint timeout div 1000) :: i32" and ?m = "word_of_int (sint timeout mod 1000) :: i32"
  show "poll_timespec timeout = Some (scast ?s, scast ?m * 1000000)"
    using assms by (simp add: poll_timespec_def)
  have "sint ?s = sint timeout div 1000"
    using assms sint_i32_bounds [of timeout] by (intro sint_word_of_int_small) auto
  then show "sint (scast ?s :: i64) = sint timeout div 1000"
    using sint_scast_up [of ?s, where 'b = 64] by simp
  have m: "sint ?m = sint timeout mod 1000"
    by (intro sint_word_of_int_small) (simp_all add: pos_mod_bound [THEN order_less_trans])
  have "(scast ?m * 1000000 :: i64) = word_of_int (sint timeout mod 1000 * 1000000)"
    using m by (simp add: scast_eq)
  then show "sint (scast ?m * 1000000 :: i64) = sint timeout mod 1000 * 1000000"
    using pos_mod_bound [of 1000 "sint timeout"] pos_mod_sign [of 1000 "sint timeout"]
    by (simp only:) (intro sint_word_of_int_small, simp_all)
qed

lemma poll_timespec_bytes:
  "struct_bytes poll_timespec_fields [le_bytes 8 sec, le_bytes 8 nsec] = le_bytes 8 sec @ le_bytes 8 nsec"
  by (simp add: struct_bytes_def poll_timespec_fields_def round_up_def Let_def)

text \<open>
  C18: \<open>poll\<close> is the same operation on both architectures: over kernels that offer one waiting
  operation, as \<open>poll(2)\<close> on x86_64 and as \<open>ppoll(2)\<close> on aarch64, the two bodies wait for the same
  time on the same entries and return the same result, entries and kernel state.
\<close>
theorem poll_portable:
  assumes "m_arch M = X86_64" and "poll_contract M P"
    and "m_arch M' = Aarch64" and "ppoll_contract M' P"
  shows "poll M fds timeout k = poll M' fds timeout k"
proof (cases "sint timeout < 0")
  case True
  with assms show ?thesis
    unfolding poll_contract_def ppoll_contract_def
    by (simp add: poll_def poll_args_def poll_timespec_def out_bytes_def split: prod.splits)
next
  case False
  then obtain sec nsec where ts: "poll_timespec timeout = Some (sec, nsec)"
    and s: "sint sec = sint timeout div 1000" and n: "sint nsec = sint timeout mod 1000 * 1000000"
    by (elim poll_timespec_exact [OF leI])
  have "sint sec * 1000000000 + sint nsec = sint timeout * 1000000"
    using s n div_mult_mod_eq [of "sint timeout" 1000] by linarith
  moreover have "0 \<le> sint sec" "0 \<le> sint nsec" "sint nsec < 1000000000"
    using s n False pos_mod_bound [of 1000 "sint timeout"] by simp_all
  ultimately obtain left where
    "sys M' ''PPOLL'' [MutPtr (enc_array enc_PollFd fds), len_arg fds, MutPtr (le_bytes 8 sec @ le_bytes 8 nsec), Val 0, Val 8] k
     = (case P (enc_array enc_PollFd fds) (of_nat (length fds)) (Some (sint timeout * 1000000)) k of
          (ret, b', k') \<Rightarrow> (ret, [MutPtr b', len_arg fds, MutPtr left, Val 0, Val 8], k'))"
    using assms(4) unfolding ppoll_contract_def by metis
  with assms(1-3) False ts show ?thesis unfolding poll_contract_def
    by (simp add: poll_def poll_args_def poll_timespec_bytes out_bytes_def split: prod.splits)
qed

text \<open>
  Two kernels over one waiter whose answer is the time limit itself, in milliseconds, and which
  marks every entry; \<open>ppoll\<close> leaves no time.
\<close>

definition echo_waiter :: "nat waiter" where
  "echo_waiter b n d k =
     (word_of_int (case d of None \<Rightarrow> 7 | Some ns \<Rightarrow> ns div 1000000), map (\<lambda>_. 1) b, Suc k)"

definition echo_mach :: "arch \<Rightarrow> nat mach" where
  "echo_mach a = \<lparr>m_arch = a, m_kernel = \<lambda>n args k. (case args of
       [MutPtr b, Val c, Val t] \<Rightarrow>
         (case echo_waiter b c (if sint t < 0 then None else Some (sint t * 1000000)) k of
            (ret, b', k') \<Rightarrow> (ret, [MutPtr b', Val c, Val t], k'))
     | [MutPtr b, Val c, Val z, s, t] \<Rightarrow>
         (case echo_waiter b c None k of (ret, b', k') \<Rightarrow> (ret, [MutPtr b', Val c, Val z, s, t], k'))
     | [MutPtr b, Val c, MutPtr ts, s, t] \<Rightarrow>
         (case echo_waiter b c (Some (sint (le_word (take 8 ts) :: i64) * 1000000000
             + sint (le_word (drop 8 ts) :: i64))) k of
            (ret, b', k') \<Rightarrow> (ret, [MutPtr b', Val c, MutPtr (replicate 16 0), s, t], k'))
     | _ \<Rightarrow> (- 22, args, k))\<rparr>"

lemma echo_poll: "poll_contract (echo_mach X86_64) echo_waiter"
  by (simp add: poll_contract_def sys_def echo_mach_def sint_scast_up)

lemma echo_ppoll: "ppoll_contract (echo_mach Aarch64) echo_waiter"
  by (auto simp: ppoll_contract_def sys_def echo_mach_def le_word_le_bytes_full intro!: exI [of _ "replicate 16 0"])

text \<open>2.5 seconds on one entry.\<close>
theorem poll_portable_witness:
  "poll (echo_mach X86_64) [PollFd_new 3 1] 2500 0 = poll (echo_mach Aarch64) [PollFd_new 3 1] 2500 0
   \<and> fst (poll (echo_mach X86_64) [PollFd_new 3 1] 2500 0) = Ok 2500"
  using poll_portable [OF _ echo_poll _ echo_ppoll, of "[PollFd_new 3 1]" 2500 0]
  by (simp add: poll_def poll_args_def sys_def echo_mach_def echo_waiter_def from_ret_def
      ERRNO_MAX_def split: prod.splits)

section \<open>Duplicating descriptors\<close>

text \<open>
  The documented behaviour behind \<open>dup2\<close>: duplicating onto another number (\<open>D\<close>), which \<open>dup2(2)\<close>
  and \<open>dup3(2)\<close> without flags share; \<open>dup2(2)\<close> onto itself returns the number if it is open and
  \<open>EBADF\<close> if not; \<open>F_GETFD\<close> returns the (non-negative) flags of an open descriptor.
\<close>

definition dup2_contract ::
  "'k mach \<Rightarrow> (i32 \<Rightarrow> i32 \<Rightarrow> 'k \<Rightarrow> usize \<times> 'k) \<Rightarrow> ('k \<Rightarrow> i32 \<Rightarrow> bool) \<Rightarrow> bool" where
  "dup2_contract M D is_open \<longleftrightarrow>
     (\<forall>k fd. is_open k fd \<longrightarrow> 0 \<le> sint fd) \<and>
     (\<forall>oldfd newfd k. let args = [Val (scast oldfd), Val (scast newfd)] in
        sys M ''DUP2'' args k =
          (if oldfd = newfd then (if is_open k newfd then scast newfd else - 9, args, k)
           else (case D oldfd newfd k of (ret, k') \<Rightarrow> (ret, args, k'))))"

definition dup3_contract ::
  "'k mach \<Rightarrow> (i32 \<Rightarrow> i32 \<Rightarrow> 'k \<Rightarrow> usize \<times> 'k) \<Rightarrow> ('k \<Rightarrow> i32 \<Rightarrow> bool) \<Rightarrow> ('k \<Rightarrow> i32 \<Rightarrow> usize) \<Rightarrow> bool" where
  "dup3_contract M D is_open fdflags \<longleftrightarrow>
     (\<forall>k fd. 0 \<le> sint (fdflags k fd)) \<and>
     (\<forall>oldfd newfd k. let args = [Val (scast oldfd), Val (scast newfd), Val 0] in
        oldfd \<noteq> newfd \<longrightarrow>
        sys M ''DUP3'' args k = (case D oldfd newfd k of (ret, k') \<Rightarrow> (ret, args, k'))) \<and>
     (\<forall>fd k. let args = [Val (scast fd), Val (scast F_GETFD), Val 0] in
        sys M ''FCNTL'' args k = (if is_open k fd then fdflags k fd else - 9, args, k))"

lemma from_ret_nonneg: "0 \<le> sint ret \<Longrightarrow> from_ret ret = Ok ret"
  by (simp add: from_ret_Ok_iff)

lemma from_ret_i32_nonneg: "0 \<le> sint (v :: i32) \<Longrightarrow> from_ret_i32 (scast v) = Ok v"
  by (simp add: from_ret_i32_def from_ret_nonneg sint_scast_up ucast_scast_i32)

text \<open>
  C17: \<open>dup2\<close> has the semantics of \<open>dup2(2)\<close> on aarch64 too, where it is built from \<open>dup3(2)\<close> and
  \<open>fcntl(2)\<close>: over kernels with the same descriptor behaviour both bodies return the same result
  in the same state, a descriptor duplicated onto itself included.
\<close>
theorem dup2_portable:
  assumes "m_arch M = X86_64" and "dup2_contract M D is_open"
    and "m_arch M' = Aarch64" and "dup3_contract M' D is_open fdflags"
  shows "dup2 M oldfd newfd k = dup2 M' oldfd newfd k"
proof (cases "oldfd = newfd")
  case True
  have "from_ret_i32 (scast newfd) = Ok newfd" if "is_open k newfd"
    using assms(2) that by (simp add: dup2_contract_def from_ret_i32_nonneg)
  moreover have "\<exists>f. from_ret_i32 (fdflags k newfd) = Ok f"
    using assms(4) by (simp add: dup3_contract_def from_ret_i32_def from_ret_nonneg)
  ultimately show ?thesis
    using assms True unfolding dup2_contract_def dup3_contract_def
    by (auto simp: dup2_def dup2_x86_64_def dup2_aarch64_def fcntl_def call_i32_def Let_def
        io_bind_def io_return_def from_ret_i32_def from_ret_def ERRNO_MAX_def split: if_splits)
next
  case False
  with assms show ?thesis unfolding dup2_contract_def dup3_contract_def
    by (simp add: dup2_def dup2_x86_64_def dup2_aarch64_def call_i32_def Let_def split: prod.splits)
qed

text \<open>A descriptor table: the files behind the open descriptors.\<close>

definition table_dup :: "i32 \<Rightarrow> i32 \<Rightarrow> (i32 \<rightharpoonup> nat) \<Rightarrow> usize \<times> (i32 \<rightharpoonup> nat)" where
  "table_dup oldfd newfd t = (case t oldfd of
       Some f \<Rightarrow> if 0 \<le> sint newfd then (scast newfd, t(newfd \<mapsto> f)) else (- 9, t)
     | None \<Rightarrow> (- 9, t))"

definition table_open :: "(i32 \<rightharpoonup> nat) \<Rightarrow> i32 \<Rightarrow> bool" where
  "table_open t fd \<longleftrightarrow> 0 \<le> sint fd \<and> t fd \<noteq> None"

definition table_mach :: "arch \<Rightarrow> (i32 \<rightharpoonup> nat) mach" where
  "table_mach a = \<lparr>m_arch = a, m_kernel = \<lambda>n args t. (case args of
       [Val p, Val q] \<Rightarrow>
         (if p = q then (if table_open t (ucast p) then p else - 9, args, t)
          else case table_dup (ucast p) (ucast q) t of (ret, t') \<Rightarrow> (ret, args, t'))
     | [Val p, Val q, Val z] \<Rightarrow>
         (if n = 25 then (if table_open t (ucast p) then 0 else - 9, args, t)
          else case table_dup (ucast p) (ucast q) t of (ret, t') \<Rightarrow> (ret, args, t'))
     | _ \<Rightarrow> (- 22, args, t))\<rparr>"

lemma nr_dup3: "nr Aarch64 ''DUP3'' = 24" "nr Aarch64 ''FCNTL'' = 25"
proof -
  show "nr Aarch64 ''DUP3'' = 24" using nr_aarch64_at [of 2] by (simp add: nr_aarch64_def)
  show "nr Aarch64 ''FCNTL'' = 25" using nr_aarch64_at [of 3] by (simp add: nr_aarch64_def)
qed

lemma table_dup2: "dup2_contract (table_mach X86_64) table_dup table_open"
  by (auto simp: dup2_contract_def table_mach_def sys_def Let_def table_open_def ucast_scast_i32)

lemma table_dup3: "dup3_contract (table_mach Aarch64) table_dup table_open (\<lambda>_ _. 0)"
  by (auto simp: dup3_contract_def table_mach_def sys_def Let_def ucast_scast_i32 nr_dup3)

text \<open>Descriptor 5 is open, 6 is not.\<close>
theorem dup2_portable_witness:
  "dup2 (table_mach X86_64) 5 5 [5 \<mapsto> 1] = dup2 (table_mach Aarch64) 5 5 [5 \<mapsto> 1]
   \<and> dup2 (table_mach X86_64) 6 6 [5 \<mapsto> 1] = dup2 (table_mach Aarch64) 6 6 [5 \<mapsto> 1]
   \<and> dup2 (table_mach X86_64) 5 6 [5 \<mapsto> 1] = dup2 (table_mach Aarch64) 5 6 [5 \<mapsto> 1]"
  using dup2_portable [OF _ table_dup2 _ table_dup3] by (simp add: table_mach_def)

section \<open>Descriptor accounting\<close>

text \<open>
  The descriptors a process has open, as the kernel keeps them: a call that makes a descriptor adds
  a number that was free, \<open>close\<close> removes its argument, and other calls leave the set alone.
\<close>

definition makes_fd :: "'k mach \<Rightarrow> ('k \<Rightarrow> i32 set) \<Rightarrow> string \<Rightarrow> bool" where
  "makes_fd M opened s \<longleftrightarrow>
     (\<forall>args k ret outs k'. sys M s args k = (ret, outs, k') \<longrightarrow>
        (\<exists>fd. 0 \<le> sint fd \<and> ret = scast fd \<and> fd \<notin> opened k \<and> opened k' = insert fd (opened k))
        \<or> (\<exists>m. errno_ret ret m \<and> opened k' = opened k))"

definition closes_fd :: "'k mach \<Rightarrow> ('k \<Rightarrow> i32 set) \<Rightarrow> bool" where
  "closes_fd M opened \<longleftrightarrow>
     (\<forall>fd k ret outs k'. sys M ''CLOSE'' [Val (scast fd)] k = (ret, outs, k') \<longrightarrow> opened k' = opened k - {fd})"

definition keeps_fds :: "'k mach \<Rightarrow> ('k \<Rightarrow> i32 set) \<Rightarrow> string \<Rightarrow> bool" where
  "keeps_fds M opened s \<longleftrightarrow>
     (\<forall>args k ret outs k'. sys M s args k = (ret, outs, k') \<longrightarrow> opened k' = opened k)"

text \<open>
  \<open>ioctl(2)\<close> makes a descriptor for \<open>TIOCGPTPEER\<close> (0x5441); the requests the crate issues are others.
\<close>

definition ioctl_keeps_fds :: "'k mach \<Rightarrow> ('k \<Rightarrow> i32 set) \<Rightarrow> bool" where
  "ioctl_keeps_fds M opened \<longleftrightarrow>
     (\<forall>fd req a k ret outs k'. sys M ''IOCTL'' [Val fd, Val req, a] k = (ret, outs, k') \<longrightarrow> req \<noteq> 0x5441 \<longrightarrow>
        opened k' = opened k)"

lemma keeps_fdsD: "keeps_fds M opened s \<Longrightarrow> sys M s args k = (ret, outs, k') \<Longrightarrow> opened k' = opened k"
  unfolding keeps_fds_def by blast

lemma makes_fd_i32:
  assumes "makes_fd M opened s"
  obtains (made) fd k' where "call_i32 M s args k = (Ok fd, k')" "fd \<notin> opened k" "opened k' = insert fd (opened k)"
    | (failed) e k' where "call_i32 M s args k = (Err e, k')" "opened k' = opened k"
proof -
  obtain ret outs k' where call: "sys M s args k = (ret, outs, k')" using prod_cases3 by blast
  then consider fd where "0 \<le> sint fd" "ret = scast fd" "fd \<notin> opened k" "opened k' = insert fd (opened k)"
    | m where "errno_ret ret m" "opened k' = opened k"
    using assms unfolding makes_fd_def by blast
  then show thesis
  proof cases
    case 1
    with call show thesis by (intro made) (simp_all add: call_i32_def from_ret_i32_nonneg)
  next
    case (2 m)
    with call have "call_i32 M s args k = (Err (Errno (word_of_int m)), k')"
      by (simp add: call_i32_def from_ret_i32_def from_ret_errno_ret)
    with 2 show thesis by (intro failed)
  qed
qed

lemma close_opened: "closes_fd M opened \<Longrightarrow> opened (snd (close M fd k)) = opened k - {fd}"
  unfolding closes_fd_def close_def call_unit_def by (auto split: prod.splits)

lemma close_no_panic [simp]: "fst (close M fd k) \<noteq> Panic"
  by (simp add: close_def call_unit_def split: prod.splits)

lemma ignore_close: "io_ignore (close M fd) m k = m (snd (close M fd k))"
proof -
  obtain r k' where c: "close M fd k = (r, k')" by force
  with close_no_panic [of M fd k] show ?thesis by (cases r) (simp_all add: io_ignore_def)
qed

text \<open>
  An x86_64 kernel that hands out the descriptors 3 to 5 in every call that makes one, duplicates and closes
  them, and fails in all other calls; its state is the open ones.
\<close>

definition three_fds :: "i32 list mach" where
  "three_fds = \<lparr>m_arch = X86_64, m_kernel = \<lambda>n args k.
     if n \<in> {257, 41, 43, 288, 32, 319, 291, 290, 294, 283, 434} then (case find (\<lambda>fd. fd \<notin> set k) [3, 4, 5] of
         Some fd \<Rightarrow> (scast fd, args, fd # k) | None \<Rightarrow> (- 24, args, k))
     else if n = 3 then (case args of
         [Val v] \<Rightarrow> (0, args, filter (\<lambda>fd. fd \<noteq> ucast v) k) | _ \<Rightarrow> (- 9, args, k))
     else if n = 33 then (case args of
         [Val u, Val v] \<Rightarrow> (if ucast u \<in> set k \<and> 0 \<le> sint (ucast v :: i32)
            then (scast (ucast v :: i32), args, List.insert (ucast v) k) else (- 9, args, k))
       | _ \<Rightarrow> (- 9, args, k))
     else (- 5, args, k)\<rparr>"

lemma fd_nrs:
  "nr X86_64 ''OPENAT'' = 257" "nr X86_64 ''SOCKET'' = 41" "nr X86_64 ''CLOSE'' = 3" "nr X86_64 ''READ'' = 0"
  "nr X86_64 ''GETRANDOM'' = 318" "nr X86_64 ''SENDTO'' = 44" "nr X86_64 ''POLL'' = 7" "nr X86_64 ''RECVFROM'' = 45"
  "nr X86_64 ''IOCTL'' = 16"
proof -
  show "nr X86_64 ''OPENAT'' = 257" using nr_x86_64_at [of 70] by (simp add: nr_x86_64_def)
  show "nr X86_64 ''SOCKET'' = 41" using nr_x86_64_at [of 90] by (simp add: nr_x86_64_def)
  show "nr X86_64 ''CLOSE'' = 3" using nr_x86_64_at [of 3] by (simp add: nr_x86_64_def)
  show "nr X86_64 ''READ'' = 0" using nr_x86_64_at [of 0] by (simp add: nr_x86_64_def)
  show "nr X86_64 ''GETRANDOM'' = 318" using nr_x86_64_at [of 31] by (simp add: nr_x86_64_def)
  show "nr X86_64 ''SENDTO'' = 44" using nr_x86_64_at [of 93] by (simp add: nr_x86_64_def)
  show "nr X86_64 ''POLL'' = 7" using nr_x86_64_at [of 11] by (simp add: nr_x86_64_def)
  show "nr X86_64 ''RECVFROM'' = 45" using nr_x86_64_at [of 94] by (simp add: nr_x86_64_def)
  show "nr X86_64 ''IOCTL'' = 16" using nr_x86_64_at [of 16] by (simp add: nr_x86_64_def)
qed

lemma three_fds_find: "find (\<lambda>fd. fd \<notin> set k) [3, 4, 5 :: i32] = Some fd \<Longrightarrow> fd \<notin> set k \<and> 0 \<le> sint fd"
  by (auto split: if_splits)

lemma three_fds_makes:
  assumes "nr X86_64 s \<in> {257, 41, 43, 288, 32, 319, 291, 290, 294, 283, 434}"
  shows "makes_fd three_fds set s"
  unfolding makes_fd_def
proof (intro allI impI)
  fix args k ret outs k'
  assume call: "sys three_fds s args k = (ret, outs, k')"
  show "(\<exists>fd. 0 \<le> sint fd \<and> ret = scast fd \<and> fd \<notin> set k \<and> set k' = insert fd (set k))
      \<or> (\<exists>m. errno_ret ret m \<and> set k' = set k)"
  proof (cases "find (\<lambda>fd. fd \<notin> set k) [3, 4, 5]")
    case None
    with call assms have "ret = - 24 \<and> k' = k" by (auto simp: sys_def three_fds_def)
    moreover have "errno_ret (- 24) 24" by (simp add: errno_ret_def)
    ultimately show ?thesis by blast
  next
    case (Some fd)
    with call assms have "ret = scast fd \<and> k' = fd # k" by (auto simp: sys_def three_fds_def)
    with three_fds_find [OF Some] show ?thesis by auto
  qed
qed

lemma three_fds_closes: "closes_fd three_fds set"
  by (auto simp: closes_fd_def sys_def three_fds_def fd_nrs ucast_scast_i32)

lemma three_fds_ioctl: "ioctl_keeps_fds three_fds set"
  by (simp add: ioctl_keeps_fds_def sys_def three_fds_def fd_nrs)

lemma three_fds_keeps: "nr X86_64 s \<notin> {3, 33} \<union> {257, 41, 43, 288, 32, 319, 291, 290, 294, 283, 434} \<Longrightarrow> keeps_fds three_fds set s"
  by (auto simp: keeps_fds_def sys_def three_fds_def)

end
