(* ===== verification/Socket.thy ===== *)
theory Socket
  imports Fd
begin

text \<open>
  TCP and UDP sockets (\<open>src/socket.rs\<close>) and kernel randomness (\<open>src/rand.rs\<close>): the two socket
  address structs with their byte order, and the wrappers over the socket calls. What IPv4 and
  IPv6 addresses have in common is the interface \<open>sockaddr\<close>.
\<close>

section \<open>Constants\<close>

definition AF_INET :: i32 where "AF_INET = 2"
definition AF_INET6 :: i32 where "AF_INET6 = 10"
definition SOCK_STREAM :: i32 where "SOCK_STREAM = 1"
definition SOCK_DGRAM :: i32 where "SOCK_DGRAM = 2"

definition socket_flags :: "(string \<times> i32) list" where
  "socket_flags = [(''SOCK_CLOEXEC'', 0x80000), (''SOCK_NONBLOCK'', 0x800)]"

definition shutdown_modes :: "(string \<times> i32) list" where
  "shutdown_modes = [(''SHUT_RD'', 0), (''SHUT_WR'', 1), (''SHUT_RDWR'', 2)]"

definition getrandom_flags :: "(string \<times> i32) list" where
  "getrandom_flags = [(''GRND_NONBLOCK'', 1), (''GRND_RANDOM'', 2)]"

section \<open>Socket addresses\<close>

text \<open>\<open>u16::to_be\<close> and \<open>u16::from_be\<close> swap the bytes on a little-endian machine.\<close>

definition swap_bytes :: "u16 \<Rightarrow> u16" where
  "swap_bytes w = le_word (be_bytes 2 w)"

record SockAddrIn =
  sin_family :: u16
  sin_port :: u16
  sin_addr :: "byte list"
  sin_zero :: "byte list"

definition SockAddrIn_fields :: "(string \<times> cty) list" where
  "SockAddrIn_fields =
    [(''family'', U16), (''port'', U16), (''addr'', Arr 4 U8), (''zero'', Arr 8 U8)]"

definition SockAddrIn_ok :: "SockAddrIn \<Rightarrow> bool" where
  "SockAddrIn_ok x \<longleftrightarrow> length (sin_addr x) = 4 \<and> length (sin_zero x) = 8"

definition SockAddrIn_parts :: "SockAddrIn \<Rightarrow> byte list list" where
  "SockAddrIn_parts x =
    [le_bytes 2 (sin_family x), le_bytes 2 (sin_port x), sin_addr x, sin_zero x]"

definition SockAddrIn_build :: "byte list list \<Rightarrow> SockAddrIn" where
  "SockAddrIn_build bs =
    \<lparr>sin_family = le_word (bs ! 0), sin_port = le_word (bs ! 1), sin_addr = bs ! 2,
     sin_zero = bs ! 3\<rparr>"

abbreviation "enc_SockAddrIn \<equiv> struct_enc SockAddrIn_fields SockAddrIn_parts"
abbreviation "dec_SockAddrIn \<equiv> struct_dec SockAddrIn_fields SockAddrIn_build"

lemma SockAddrIn_ok_build: "fits SockAddrIn_fields bs \<Longrightarrow> SockAddrIn_ok (SockAddrIn_build bs)"
  using fits_nth [of SockAddrIn_fields bs 2] fits_nth [of SockAddrIn_fields bs 3]
  by (simp add: SockAddrIn_ok_def SockAddrIn_build_def SockAddrIn_fields_def)

interpretation sockaddr_in: struct_codec SockAddrIn_fields SockAddrIn_ok SockAddrIn_parts SockAddrIn_build 16
  by (unfold_locales; (erule SockAddrIn_ok_build)?)
    (auto simp: SockAddrIn_fields_def SockAddrIn_parts_def SockAddrIn_build_def SockAddrIn_ok_def round_up_def two_fold codec_simps)

definition SockAddrIn_new :: "byte list \<Rightarrow> u16 \<Rightarrow> SockAddrIn" where
  "SockAddrIn_new octs p =
     \<lparr>sin_family = ucast AF_INET, sin_port = swap_bytes p, sin_addr = octs, sin_zero = replicate 8 0\<rparr>"

definition SockAddrIn_octets :: "SockAddrIn \<Rightarrow> byte list" where
  "SockAddrIn_octets x = sin_addr x"

definition SockAddrIn_port :: "SockAddrIn \<Rightarrow> u16" where
  "SockAddrIn_port x = swap_bytes (sin_port x)"

record SockAddrIn6 =
  sin6_family :: u16
  sin6_port :: u16
  sin6_flowinfo :: u32
  sin6_addr :: "byte list"
  sin6_scope_id :: u32

definition SockAddrIn6_fields :: "(string \<times> cty) list" where
  "SockAddrIn6_fields =
    [(''family'', U16), (''port'', U16), (''flowinfo'', U32), (''addr'', Arr 16 U8),
     (''scope_id'', U32)]"

definition SockAddrIn6_ok :: "SockAddrIn6 \<Rightarrow> bool" where
  "SockAddrIn6_ok x \<longleftrightarrow> length (sin6_addr x) = 16"

definition SockAddrIn6_parts :: "SockAddrIn6 \<Rightarrow> byte list list" where
  "SockAddrIn6_parts x =
    [le_bytes 2 (sin6_family x), le_bytes 2 (sin6_port x), le_bytes 4 (sin6_flowinfo x),
     sin6_addr x, le_bytes 4 (sin6_scope_id x)]"

definition SockAddrIn6_build :: "byte list list \<Rightarrow> SockAddrIn6" where
  "SockAddrIn6_build bs =
    \<lparr>sin6_family = le_word (bs ! 0), sin6_port = le_word (bs ! 1),
     sin6_flowinfo = le_word (bs ! 2), sin6_addr = bs ! 3, sin6_scope_id = le_word (bs ! 4)\<rparr>"

abbreviation "enc_SockAddrIn6 \<equiv> struct_enc SockAddrIn6_fields SockAddrIn6_parts"
abbreviation "dec_SockAddrIn6 \<equiv> struct_dec SockAddrIn6_fields SockAddrIn6_build"

lemma SockAddrIn6_ok_build: "fits SockAddrIn6_fields bs \<Longrightarrow> SockAddrIn6_ok (SockAddrIn6_build bs)"
  using fits_nth [of SockAddrIn6_fields bs 3]
  by (simp add: SockAddrIn6_ok_def SockAddrIn6_build_def SockAddrIn6_fields_def)

interpretation sockaddr_in6: struct_codec SockAddrIn6_fields SockAddrIn6_ok SockAddrIn6_parts SockAddrIn6_build 28
  by (unfold_locales; (erule SockAddrIn6_ok_build)?)
    (auto simp: SockAddrIn6_fields_def SockAddrIn6_parts_def SockAddrIn6_build_def SockAddrIn6_ok_def round_up_def two_fold codec_simps)

definition SockAddrIn6_new :: "byte list \<Rightarrow> u16 \<Rightarrow> SockAddrIn6" where
  "SockAddrIn6_new octs p =
     \<lparr>sin6_family = ucast AF_INET6, sin6_port = swap_bytes p, sin6_flowinfo = 0, sin6_addr = octs,
      sin6_scope_id = 0\<rparr>"

definition SockAddrIn6_octets :: "SockAddrIn6 \<Rightarrow> byte list" where
  "SockAddrIn6_octets x = sin6_addr x"

definition SockAddrIn6_port :: "SockAddrIn6 \<Rightarrow> u16" where
  "SockAddrIn6_port x = swap_bytes (sin6_port x)"

text \<open>The zeroed addresses the receiving wrappers hand to the kernel.\<close>

definition SockAddrIn_zero :: SockAddrIn where
  "SockAddrIn_zero = \<lparr>sin_family = 0, sin_port = 0, sin_addr = replicate 4 0, sin_zero = replicate 8 0\<rparr>"

definition SockAddrIn6_zero :: SockAddrIn6 where
  "SockAddrIn6_zero =
     \<lparr>sin6_family = 0, sin6_port = 0, sin6_flowinfo = 0, sin6_addr = replicate 16 0, sin6_scope_id = 0\<rparr>"

section \<open>System calls\<close>

definition socket :: "'k mach \<Rightarrow> i32 \<Rightarrow> i32 \<Rightarrow> i32 \<Rightarrow> ('k, i32) io" where
  "socket M domain ty protocol =
     call_i32 M ''SOCKET'' [Val (scast domain), Val (scast ty), Val (scast protocol)]"

definition bind_in :: "'k mach \<Rightarrow> i32 \<Rightarrow> SockAddrIn \<Rightarrow> ('k, unit) io" where
  "bind_in M fd addr = call_unit M ''BIND'' [Val (scast fd), Ptr (enc_SockAddrIn addr), Val 16]"

definition bind_in6 :: "'k mach \<Rightarrow> i32 \<Rightarrow> SockAddrIn6 \<Rightarrow> ('k, unit) io" where
  "bind_in6 M fd addr = call_unit M ''BIND'' [Val (scast fd), Ptr (enc_SockAddrIn6 addr), Val 28]"

definition connect_in :: "'k mach \<Rightarrow> i32 \<Rightarrow> SockAddrIn \<Rightarrow> ('k, unit) io" where
  "connect_in M fd addr = call_unit M ''CONNECT'' [Val (scast fd), Ptr (enc_SockAddrIn addr), Val 16]"

definition connect_in6 :: "'k mach \<Rightarrow> i32 \<Rightarrow> SockAddrIn6 \<Rightarrow> ('k, unit) io" where
  "connect_in6 M fd addr = call_unit M ''CONNECT'' [Val (scast fd), Ptr (enc_SockAddrIn6 addr), Val 28]"

definition listen :: "'k mach \<Rightarrow> i32 \<Rightarrow> i32 \<Rightarrow> ('k, unit) io" where
  "listen M fd backlog = call_unit M ''LISTEN'' [Val (scast fd), Val (scast backlog)]"

definition accept :: "'k mach \<Rightarrow> i32 \<Rightarrow> ('k, i32) io" where
  "accept M fd = call_i32 M ''ACCEPT'' [Val (scast fd), Val 0, Val 0]"

definition accept4_in :: "'k mach \<Rightarrow> i32 \<Rightarrow> i32 \<Rightarrow> ('k, i32 \<times> SockAddrIn) io" where
  "accept4_in M fd flags =
     call_i32_out M ''ACCEPT4''
       [Val (scast fd), MutPtr (enc_SockAddrIn SockAddrIn_zero), MutPtr (le_bytes 4 (16 :: u32)), Val (scast flags)]
       (\<lambda>newfd outs. (newfd, dec_SockAddrIn (out_bytes outs 1)))"

definition accept4_in6 :: "'k mach \<Rightarrow> i32 \<Rightarrow> i32 \<Rightarrow> ('k, i32 \<times> SockAddrIn6) io" where
  "accept4_in6 M fd flags =
     call_i32_out M ''ACCEPT4''
       [Val (scast fd), MutPtr (enc_SockAddrIn6 SockAddrIn6_zero), MutPtr (le_bytes 4 (28 :: u32)), Val (scast flags)]
       (\<lambda>newfd outs. (newfd, dec_SockAddrIn6 (out_bytes outs 1)))"

definition getsockname_in :: "'k mach \<Rightarrow> i32 \<Rightarrow> ('k, SockAddrIn) io" where
  "getsockname_in M fd =
     call_out M ''GETSOCKNAME'' [Val (scast fd), MutPtr (enc_SockAddrIn SockAddrIn_zero), MutPtr (le_bytes 4 (16 :: u32))]
       (\<lambda>outs. dec_SockAddrIn (out_bytes outs 1))"

definition getsockname_in6 :: "'k mach \<Rightarrow> i32 \<Rightarrow> ('k, SockAddrIn6) io" where
  "getsockname_in6 M fd =
     call_out M ''GETSOCKNAME'' [Val (scast fd), MutPtr (enc_SockAddrIn6 SockAddrIn6_zero), MutPtr (le_bytes 4 (28 :: u32))]
       (\<lambda>outs. dec_SockAddrIn6 (out_bytes outs 1))"

definition getpeername_in :: "'k mach \<Rightarrow> i32 \<Rightarrow> ('k, SockAddrIn) io" where
  "getpeername_in M fd =
     call_out M ''GETPEERNAME'' [Val (scast fd), MutPtr (enc_SockAddrIn SockAddrIn_zero), MutPtr (le_bytes 4 (16 :: u32))]
       (\<lambda>outs. dec_SockAddrIn (out_bytes outs 1))"

definition getpeername_in6 :: "'k mach \<Rightarrow> i32 \<Rightarrow> ('k, SockAddrIn6) io" where
  "getpeername_in6 M fd =
     call_out M ''GETPEERNAME'' [Val (scast fd), MutPtr (enc_SockAddrIn6 SockAddrIn6_zero), MutPtr (le_bytes 4 (28 :: u32))]
       (\<lambda>outs. dec_SockAddrIn6 (out_bytes outs 1))"

definition send :: "'k mach \<Rightarrow> i32 \<Rightarrow> byte list \<Rightarrow> i32 \<Rightarrow> ('k, usize) io" where
  "send M fd buf flags =
     call_usize M ''SENDTO'' [Val (scast fd), Ptr buf, len_arg buf, Val (scast flags), Val 0, Val 0]"

definition recv :: "'k mach \<Rightarrow> i32 \<Rightarrow> byte list \<Rightarrow> i32 \<Rightarrow> 'k \<Rightarrow> usize res \<times> byte list \<times> 'k" where
  "recv M fd buf flags =
     call_buf M ''RECVFROM'' [Val (scast fd), MutPtr buf, len_arg buf, Val (scast flags), Val 0, Val 0] 1"

definition sendto_in :: "'k mach \<Rightarrow> i32 \<Rightarrow> byte list \<Rightarrow> i32 \<Rightarrow> SockAddrIn \<Rightarrow> ('k, usize) io" where
  "sendto_in M fd buf flags dest =
     call_usize M ''SENDTO''
       [Val (scast fd), Ptr buf, len_arg buf, Val (scast flags), Ptr (enc_SockAddrIn dest), Val 16]"

definition sendto_in6 :: "'k mach \<Rightarrow> i32 \<Rightarrow> byte list \<Rightarrow> i32 \<Rightarrow> SockAddrIn6 \<Rightarrow> ('k, usize) io" where
  "sendto_in6 M fd buf flags dest =
     call_usize M ''SENDTO''
       [Val (scast fd), Ptr buf, len_arg buf, Val (scast flags), Ptr (enc_SockAddrIn6 dest), Val 28]"

definition recvfrom_in ::
  "'k mach \<Rightarrow> i32 \<Rightarrow> byte list \<Rightarrow> i32 \<Rightarrow> 'k \<Rightarrow> (usize \<times> SockAddrIn) res \<times> byte list \<times> 'k" where
  "recvfrom_in M fd buf flags k =
     (case sys M ''RECVFROM''
         [Val (scast fd), MutPtr buf, len_arg buf, Val (scast flags), MutPtr (enc_SockAddrIn SockAddrIn_zero),
          MutPtr (le_bytes 4 (16 :: u32))] k of
        (ret, outs, k') \<Rightarrow>
          (map_res (\<lambda>n. (n, dec_SockAddrIn (out_bytes outs 4))) (from_ret ret), out_bytes outs 1, k'))"

definition recvfrom_in6 ::
  "'k mach \<Rightarrow> i32 \<Rightarrow> byte list \<Rightarrow> i32 \<Rightarrow> 'k \<Rightarrow> (usize \<times> SockAddrIn6) res \<times> byte list \<times> 'k" where
  "recvfrom_in6 M fd buf flags k =
     (case sys M ''RECVFROM''
         [Val (scast fd), MutPtr buf, len_arg buf, Val (scast flags), MutPtr (enc_SockAddrIn6 SockAddrIn6_zero),
          MutPtr (le_bytes 4 (28 :: u32))] k of
        (ret, outs, k') \<Rightarrow>
          (map_res (\<lambda>n. (n, dec_SockAddrIn6 (out_bytes outs 4))) (from_ret ret), out_bytes outs 1, k'))"

definition shutdown :: "'k mach \<Rightarrow> i32 \<Rightarrow> i32 \<Rightarrow> ('k, unit) io" where
  "shutdown M fd how = call_unit M ''SHUTDOWN'' [Val (scast fd), Val (scast how)]"

definition getrandom :: "'k mach \<Rightarrow> byte list \<Rightarrow> i32 \<Rightarrow> 'k \<Rightarrow> usize res \<times> byte list \<times> 'k" where
  "getrandom M buf flags = call_buf M ''GETRANDOM'' [MutPtr buf, len_arg buf, Val (scast flags)] 0"

section \<open>The address interface\<close>

text \<open>
  A socket address type: built from \<open>n\<close> octets and a host-order port, which its accessors give
  back, and with a byte image the kernel reads and writes.
\<close>

locale sockaddr = codec sz ok enc dec
  for sz :: nat and ok :: "'a \<Rightarrow> bool" and enc :: "'a \<Rightarrow> byte list" and dec :: "byte list \<Rightarrow> 'a" +
  fixes n :: nat
    and new :: "byte list \<Rightarrow> u16 \<Rightarrow> 'a"
    and octets :: "'a \<Rightarrow> byte list"
    and port :: "'a \<Rightarrow> u16"
  assumes ok_new: "length octs = n \<Longrightarrow> ok (new octs p)"
    and octets_new: "octets (new octs p) = octs"
    and port_new: "port (new octs p) = p"
begin

text \<open>An address survives the trip through its byte image.\<close>

lemma through_bytes:
  assumes "length octs = n"
  shows "octets (dec (enc (new octs p))) = octs \<and> port (dec (enc (new octs p))) = p"
  using dec_enc [OF ok_new [OF assms]] octets_new port_new by simp

lemma new_inject:
  "length octs = n \<Longrightarrow> length octs' = n \<Longrightarrow>
   enc (new octs p) = enc (new octs' p') \<longleftrightarrow> octs = octs' \<and> p = p'"
  using enc_inject [OF ok_new ok_new] octets_new port_new by metis

end

lemma swap_swap: "swap_bytes (swap_bytes w) = w"
proof -
  have "be_bytes 2 (swap_bytes w) = le_bytes 2 w"
    using le_bytes_le_word [of "be_bytes 2 w", where 'a = 16]
    by (simp add: swap_bytes_def be_bytes_def)
  then show ?thesis by (simp add: swap_bytes_def le_word_le_bytes_full)
qed

lemma swap_wire: "le_bytes 2 (swap_bytes w) = be_bytes 2 w"
  using le_bytes_le_word [of "be_bytes 2 w", where 'a = 16] by (simp add: swap_bytes_def)

interpretation inet: sockaddr 16 SockAddrIn_ok enc_SockAddrIn dec_SockAddrIn 4
  SockAddrIn_new SockAddrIn_octets SockAddrIn_port
  by unfold_locales
    (simp_all add: SockAddrIn_ok_def SockAddrIn_new_def SockAddrIn_octets_def SockAddrIn_port_def swap_swap)

interpretation inet6: sockaddr 28 SockAddrIn6_ok enc_SockAddrIn6 dec_SockAddrIn6 16
  SockAddrIn6_new SockAddrIn6_octets SockAddrIn6_port
  by unfold_locales
    (simp_all add: SockAddrIn6_ok_def SockAddrIn6_new_def SockAddrIn6_octets_def SockAddrIn6_port_def swap_swap)

lemma sockaddr_wire:
  assumes "length o4 = 4" and "length o6 = 16"
  shows "enc_SockAddrIn (SockAddrIn_new o4 p) = [2, 0] @ be_bytes 2 p @ o4 @ replicate 8 0"
    and "enc_SockAddrIn6 (SockAddrIn6_new o6 p) = [10, 0] @ be_bytes 2 p @ replicate 4 0 @ o6 @ replicate 4 0"
  using assms swap_wire [of p]
  by (simp_all add: struct_enc_def struct_bytes_def SockAddrIn_fields_def SockAddrIn_parts_def SockAddrIn_new_def
      SockAddrIn6_fields_def SockAddrIn6_parts_def SockAddrIn6_new_def round_up_def Let_def
      AF_INET_def AF_INET6_def le_bytes_numeral two_fold)

text \<open>
  C40: the bytes the kernel sees of a new socket address are the family, the port in network byte
  order and the octets as given, with eight zero bytes after them for IPv4 and with flow label and scope
  zero for IPv6; after the struct has been through the kernel as bytes, its accessors return what it
  was built from.
\<close>
theorem sockaddr_round_trip:
  assumes "length o4 = 4" and "length o6 = 16"
  shows "enc_SockAddrIn (SockAddrIn_new o4 p) = [2, 0] @ be_bytes 2 p @ o4 @ replicate 8 0
   \<and> enc_SockAddrIn6 (SockAddrIn6_new o6 p) = [10, 0] @ be_bytes 2 p @ replicate 4 0 @ o6 @ replicate 4 0
   \<and> SockAddrIn_octets (dec_SockAddrIn (enc_SockAddrIn (SockAddrIn_new o4 p))) = o4
   \<and> SockAddrIn_port (dec_SockAddrIn (enc_SockAddrIn (SockAddrIn_new o4 p))) = p
   \<and> SockAddrIn6_octets (dec_SockAddrIn6 (enc_SockAddrIn6 (SockAddrIn6_new o6 p))) = o6
   \<and> SockAddrIn6_port (dec_SockAddrIn6 (enc_SockAddrIn6 (SockAddrIn6_new o6 p))) = p"
  using sockaddr_wire [OF assms] inet.through_bytes [OF assms(1)] inet6.through_bytes [OF assms(2)] by blast

text \<open>127.0.0.1 port 8080 and ::1 port 53.\<close>
theorem sockaddr_round_trip_witness:
  "enc_SockAddrIn (SockAddrIn_new [127, 0, 0, 1] 8080) = [2, 0, 0x1F, 0x90, 127, 0, 0, 1] @ replicate 8 0
   \<and> SockAddrIn6_port (dec_SockAddrIn6 (enc_SockAddrIn6 (SockAddrIn6_new (replicate 15 0 @ [1]) 53))) = 53"
proof -
  have "be_bytes 2 (8080 :: u16) = [0x1F, 0x90]" by code_simp
  moreover have "enc_SockAddrIn (SockAddrIn_new [127, 0, 0, 1] 8080) = [2, 0] @ be_bytes 2 (8080 :: u16) @ [127, 0, 0, 1] @ replicate 8 0"
    using sockaddr_round_trip [of "[127, 0, 0, 1]" "replicate 15 0 @ [1]" 8080] by simp
  moreover have "SockAddrIn6_port (dec_SockAddrIn6 (enc_SockAddrIn6 (SockAddrIn6_new (replicate 15 0 @ [1]) 53))) = 53"
    by (rule sockaddr_round_trip [of "[127, 0, 0, 1]", THEN conjunct2, THEN conjunct2, THEN conjunct2, THEN conjunct2,
          THEN conjunct2]) simp_all
  ultimately show ?thesis by simp
qed

end
