(* ===== verification/Dns.thy ===== *)
theory Dns
  imports Socket
begin

text \<open>
  The stub resolver (\<open>src/dns.rs\<close>): reading \<open>/etc/resolv.conf\<close>, building a query, sending it to the
  name servers, and parsing the answer. A \<open>&str\<close> is its UTF-8 bytes where the code looks at bytes
  (host names) and its code points where it looks at characters (the configuration file).
\<close>

section \<open>Constants and types\<close>

definition QTYPE_A :: u16 where "QTYPE_A = 1"
definition QTYPE_AAAA :: u16 where "QTYPE_AAAA = 28"
definition QCLASS_IN :: u16 where "QCLASS_IN = 1"
definition MAX_NAMESERVERS :: nat where "MAX_NAMESERVERS = 3"
definition MAX_ADDRS :: nat where "MAX_ADDRS = 8"
definition RESPONSE_TIMEOUT_MS :: i32 where "RESPONSE_TIMEOUT_MS = 2000"

record AddrList =
  addrs :: "byte list list"
  al_len :: nat

type_synonym AddrList4 = AddrList
type_synonym AddrList6 = AddrList

definition as_slice :: "AddrList \<Rightarrow> byte list list res" where
  "as_slice l = slice (addrs l) 0 (al_len l)"

section \<open>Text\<close>

text \<open>\<open>str::split\<close> on one character.\<close>

fun split_on :: "'a \<Rightarrow> 'a list \<Rightarrow> 'a list list" where
  "split_on d [] = [[]]"
| "split_on d (x # xs) =
     (if x = d then [] # split_on d xs
      else case split_on d xs of [] \<Rightarrow> [[x]] | l # ls \<Rightarrow> (x # l) # ls)"

text \<open>
  \<open>core::str::from_utf8\<close>: the well-formed byte sequences of the Unicode standard (table 3-7),
  decoded to code points.
\<close>

definition cont :: "nat \<Rightarrow> bool" where
  "cont b \<longleftrightarrow> 0x80 \<le> b \<and> b \<le> 0xBF"

definition second_ok :: "nat \<Rightarrow> nat \<Rightarrow> bool" where
  "second_ok b c \<longleftrightarrow>
     (if b = 0xE0 then 0xA0 \<le> c \<and> c \<le> 0xBF
      else if b = 0xED then 0x80 \<le> c \<and> c \<le> 0x9F
      else if b = 0xF0 then 0x90 \<le> c \<and> c \<le> 0xBF
      else if b = 0xF4 then 0x80 \<le> c \<and> c \<le> 0x8F
      else cont c)"

fun from_utf8 :: "nat list \<Rightarrow> nat list option" where
  "from_utf8 [] = Some []"
| "from_utf8 (b # bs) =
     (if b < 0x80 then map_option ((#) b) (from_utf8 bs)
      else if 0xC2 \<le> b \<and> b \<le> 0xDF then
        (case bs of
           c # bs' \<Rightarrow> if cont c then map_option ((#) ((b - 0xC0) * 64 + (c - 0x80))) (from_utf8 bs') else None
         | _ \<Rightarrow> None)
      else if 0xE0 \<le> b \<and> b \<le> 0xEF then
        (case bs of
           c # d # bs' \<Rightarrow> if second_ok b c \<and> cont d
             then map_option ((#) ((b - 0xE0) * 4096 + (c - 0x80) * 64 + (d - 0x80))) (from_utf8 bs') else None
         | _ \<Rightarrow> None)
      else if 0xF0 \<le> b \<and> b \<le> 0xF4 then
        (case bs of
           c # d # e # bs' \<Rightarrow> if second_ok b c \<and> cont d \<and> cont e
             then map_option ((#) ((b - 0xF0) * 262144 + (c - 0x80) * 4096 + (d - 0x80) * 64 + (e - 0x80)))
               (from_utf8 bs') else None
         | _ \<Rightarrow> None)
      else None)"

text \<open>The characters with the property \<open>White_Space\<close>, which \<open>str::trim\<close> removes at both ends.\<close>

definition is_white :: "nat \<Rightarrow> bool" where
  "is_white c \<longleftrightarrow>
     9 \<le> c \<and> c \<le> 13 \<or> c = 0x20 \<or> c = 0x85 \<or> c = 0xA0 \<or> c = 0x1680 \<or> 0x2000 \<le> c \<and> c \<le> 0x200A
     \<or> c = 0x2028 \<or> c = 0x2029 \<or> c = 0x202F \<or> c = 0x205F \<or> c = 0x3000"

definition trim :: "nat list \<Rightarrow> nat list" where
  "trim s = rev (dropWhile is_white (rev (dropWhile is_white s)))"

text \<open>
  \<open>str::lines\<close>: the pieces between line feeds, without a final empty one; a carriage return goes
  with the line feed it precedes.
\<close>

definition strip_cr :: "nat list \<Rightarrow> nat list" where
  "strip_cr l = (if l \<noteq> [] \<and> last l = 13 then butlast l else l)"

definition lines :: "nat list \<Rightarrow> nat list list" where
  "lines s = (let ps = split_on 10 s
     in map strip_cr (butlast ps) @ (if last ps = [] then [] else [last ps]))"

definition strip_prefix :: "nat list \<Rightarrow> nat list \<Rightarrow> nat list option" where
  "strip_prefix p s = (if take (length p) s = p then Some (drop (length p) s) else None)"

text \<open>
  \<open>str::parse::<u8>\<close>: an optional plus sign, then decimal digits with a value up to 255.
\<close>

definition digits_value :: "nat list \<Rightarrow> nat" where
  "digits_value ds = foldl (\<lambda>v d. 10 * v + (d - 48)) 0 ds"

definition parse_u8 :: "nat list \<Rightarrow> byte option" where
  "parse_u8 s =
     (if s = [] \<or> s = [43] \<or> s = [45] then None
      else let ds = (if hd s = 43 then tl s else s)
        in if list_all (\<lambda>d. 48 \<le> d \<and> d \<le> 57) ds \<and> digits_value ds \<le> 255
           then Some (of_nat (digits_value ds)) else None)"

section \<open>The configuration file\<close>

text \<open>The loop of \<open>parse_ipv4\<close>: \<open>acc\<close> are the octets so far, \<open>count\<close> of them.\<close>

fun parse_octets :: "nat list list \<Rightarrow> byte list \<Rightarrow> byte list option" where
  "parse_octets [] acc = (if length acc = 4 then Some acc else None)"
| "parse_octets (part # parts) acc =
     (if 4 \<le> length acc then None
      else case parse_u8 part of None \<Rightarrow> None | Some b \<Rightarrow> parse_octets parts (acc @ [b]))"

definition parse_ipv4 :: "nat list \<Rightarrow> byte list option" where
  "parse_ipv4 s = parse_octets (split_on 46 s) []"

definition points :: "string \<Rightarrow> nat list" where
  "points s = map of_char s"

text \<open>One line of the file: \<open>servers[count] = addr; count += 1\<close> for a name server that still fits.\<close>

definition add_nameserver :: "nat list \<Rightarrow> byte list list \<times> nat \<Rightarrow> byte list list \<times> nat" where
  "add_nameserver line acc = (case acc of (servers, count) \<Rightarrow>
     (case strip_prefix (points ''nameserver'') (trim line) of
        None \<Rightarrow> acc
      | Some rest \<Rightarrow> (case parse_ipv4 (trim rest) of
            None \<Rightarrow> acc
          | Some addr \<Rightarrow> if count < length servers then (servers[count := addr], Suc count) else acc)))"

definition parse_nameservers :: "byte list \<Rightarrow> (byte list list \<times> nat) res" where
  "parse_nameservers raw = (case from_utf8 (map unat raw) of
       None \<Rightarrow> Err EINVAL
     | Some text \<Rightarrow>
         (case fold add_nameserver (lines text) (replicate MAX_NAMESERVERS (replicate 4 0), 0) of
            (servers, count) \<Rightarrow> if count = 0 then Err EINVAL else Ok (servers, count)))"

text \<open>
  The read loop: it stops at the end of the file or when the 4096-byte buffer is full. The sum
  \<open>total + n\<close> does not overflow, since \<open>n\<close> is a successful result.
\<close>

function read_resolv :: "'k mach \<Rightarrow> i32 \<Rightarrow> nat \<Rightarrow> byte list \<Rightarrow> 'k \<Rightarrow> (byte list \<times> nat) res \<times> 'k" where
  "read_resolv M f tot raw k =
     (case read M f (drop tot raw) k of
        (Ok n, tail, k') \<Rightarrow>
          if n = 0 \<or> 4096 \<le> tot + unat n then (Ok (take tot raw @ tail, tot + unat n), k')
          else read_resolv M f (tot + unat n) (take tot raw @ tail) k'
      | (Err e, tail, k') \<Rightarrow> io_ignore (close M f) (io_err e) k'
      | (Panic, tail, k') \<Rightarrow> (Panic, k'))"
  by pat_completeness auto
termination
  by (relation "measure (\<lambda>(M, f, tot, raw, k). 4096 - tot)") (auto dest: unat_pos)

declare read_resolv.simps [simp del]

definition resolv_conf :: "byte list" where
  "resolv_conf = ascii ''/etc/resolv.conf''"

definition read_nameservers :: "'k mach \<Rightarrow> ('k, byte list list \<times> nat) io" where
  "read_nameservers M =
     io_bind (fd_open M resolv_conf O_RDONLY 0) (\<lambda>f.
       io_bind (read_resolv M f 0 (replicate 4096 0)) (\<lambda>(raw, tot).
         io_ignore (close M f) (\<lambda>k.
           (res_bind (slice raw 0 tot) parse_nameservers, k))))"

section \<open>Building a query\<close>

text \<open>The closure \<open>put\<close>, over the buffer and the position it advances.\<close>

definition put :: "byte list \<Rightarrow> byte list \<times> nat \<Rightarrow> (byte list \<times> nat) res" where
  "put bytes st = (case st of (buf, pos) \<Rightarrow>
     if pos + length bytes > length buf then Err EINVAL
     else res_bind (copy_at buf pos bytes) (\<lambda>buf'. Ok (buf', pos + length bytes)))"

fun put_labels :: "byte list list \<Rightarrow> byte list \<times> nat \<Rightarrow> (byte list \<times> nat) res" where
  "put_labels [] st = Ok st"
| "put_labels (label # labels) st =
     (if label = [] \<or> length label > 63 then Err EINVAL
      else res_bind (put [of_nat (length label)] st) (\<lambda>st.
             res_bind (put label st) (put_labels labels)))"

definition build_query :: "byte list \<Rightarrow> u16 \<Rightarrow> byte list \<Rightarrow> u16 \<Rightarrow> (byte list \<times> nat) res" where
  "build_query buf ident hostname qtype =
     (if hostname = [] then Err EINVAL
      else
        res_bind (put (be_bytes 2 ident) (buf, 0)) (\<lambda>st.
        res_bind (put (be_bytes 2 (0x0100 :: u16)) st) (\<lambda>st.
        res_bind (put (be_bytes 2 (1 :: u16)) st) (\<lambda>st.
        res_bind (put (be_bytes 2 (0 :: u16)) st) (\<lambda>st.
        res_bind (put (be_bytes 2 (0 :: u16)) st) (\<lambda>st.
        res_bind (put (be_bytes 2 (0 :: u16)) st) (\<lambda>st.
        res_bind (put_labels (split_on 46 hostname) st) (\<lambda>st.
        res_bind (put [0] st) (\<lambda>st.
        res_bind (put (be_bytes 2 qtype) st) (\<lambda>st.
        put (be_bytes 2 QCLASS_IN) st))))))))))"

section \<open>Parsing a response\<close>

function skip_name :: "byte list \<Rightarrow> nat \<Rightarrow> nat res" where
  "skip_name buf pos =
     (if pos \<ge> length buf then Err EINVAL
      else let len = buf ! pos in
        if len = 0 then Ok (pos + 1)
        else if len AND 0xC0 = 0xC0 then
          (if pos + 1 \<ge> length buf then Err EINVAL else Ok (pos + 2))
        else skip_name buf (pos + 1 + unat len))"
  by pat_completeness auto
termination by (relation "measure (\<lambda>(buf, pos). length buf - pos)") auto

declare skip_name.simps [simp del]

definition read_u16 :: "byte list \<Rightarrow> nat \<Rightarrow> u16 res" where
  "read_u16 buf pos =
     (if pos + 2 > length buf then Err EINVAL
      else res_bind (index buf pos) (\<lambda>a. res_bind (index buf (pos + 1)) (\<lambda>b. Ok (be_word [a, b]))))"

record ParsedHeader =
  ancount :: nat
  first_answer :: nat

fun skip_questions :: "byte list \<Rightarrow> nat \<Rightarrow> nat \<Rightarrow> nat \<Rightarrow> nat res" where
  "skip_questions buf n 0 pos = Ok pos"
| "skip_questions buf n (Suc m) pos =
     res_bind (skip_name buf pos) (\<lambda>pos.
       if pos + 4 > n then Err EINVAL else skip_questions buf n m (pos + 4))"

definition parse_header :: "byte list \<Rightarrow> nat \<Rightarrow> ParsedHeader res" where
  "parse_header buf n =
     (if n < 12 then Err EINVAL
      else res_bind (read_u16 buf 2) (\<lambda>flags.
        let rcode = flags AND 0x000F in
        if rcode = 3 then Err ENOENT
        else if rcode \<noteq> 0 then Err EINVAL
        else res_bind (read_u16 buf 4) (\<lambda>qdcount.
             res_bind (read_u16 buf 6) (\<lambda>an.
             res_bind (skip_questions buf n (unat qdcount) 12) (\<lambda>pos.
             Ok \<lparr>ancount = unat an, first_answer = pos\<rparr>)))))"

text \<open>
  One round of the answer loop and the loop, which the source spells out once for A (\<open>sz = 4\<close>) and once for AAAA (\<open>sz = 16\<close>)
  records.
\<close>

definition push_addr :: "byte list \<Rightarrow> AddrList \<Rightarrow> AddrList res" where
  "push_addr a out =
     (if al_len out < length (addrs out)
      then Ok \<lparr>addrs = (addrs out)[al_len out := a], al_len = al_len out + 1\<rparr> else Panic)"

definition answer :: "u16 \<Rightarrow> nat \<Rightarrow> byte list \<Rightarrow> nat \<Rightarrow> nat \<Rightarrow> AddrList \<Rightarrow> (nat \<times> AddrList) res" where
  "answer qtype sz buf n pos out =
     res_bind (skip_name buf pos) (\<lambda>pos.
       if pos + 10 > n then Err EINVAL
       else res_bind (read_u16 buf pos) (\<lambda>rtype.
            res_bind (read_u16 buf (pos + 8)) (\<lambda>rdl.
              let rdlength = unat rdl; pos = pos + 10 in
              if pos + rdlength > n then Err EINVAL
              else res_bind
                (if rtype = qtype \<and> rdlength = sz \<and> al_len out < MAX_ADDRS
                 then res_bind (slice buf pos (pos + sz)) (\<lambda>a. push_addr a out)
                 else Ok out)
                (\<lambda>out. Ok (pos + rdlength, out)))))"

fun answers :: "u16 \<Rightarrow> nat \<Rightarrow> byte list \<Rightarrow> nat \<Rightarrow> nat \<Rightarrow> nat \<Rightarrow> AddrList \<Rightarrow> AddrList res" where
  "answers qtype sz buf n 0 pos out = Ok out"
| "answers qtype sz buf n (Suc m) pos out =
     res_bind (answer qtype sz buf n pos out) (\<lambda>(pos, out). answers qtype sz buf n m pos out)"

definition parse_answers :: "u16 \<Rightarrow> nat \<Rightarrow> byte list \<Rightarrow> nat \<Rightarrow> AddrList res" where
  "parse_answers qtype sz buf n =
     res_bind (parse_header buf n) (\<lambda>header.
     res_bind (answers qtype sz buf n (ancount header) (first_answer header)
         \<lparr>addrs = replicate MAX_ADDRS (replicate sz 0), al_len = 0\<rparr>) (\<lambda>out.
     if al_len out = 0 then Err ENOENT else Ok out))"

definition parse_answers_a :: "byte list \<Rightarrow> nat \<Rightarrow> AddrList4 res" where
  "parse_answers_a buf n = parse_answers QTYPE_A 4 buf n"

definition parse_answers_aaaa :: "byte list \<Rightarrow> nat \<Rightarrow> AddrList6 res" where
  "parse_answers_aaaa buf n = parse_answers QTYPE_AAAA 16 buf n"

section \<open>Asking the servers\<close>

text \<open>
  The two nested loops of \<open>query\<close> visit the servers in the order of the list given here; \<open>continue\<close>
  goes on with the rest of it.
\<close>

fun ask :: "'k mach \<Rightarrow> i32 \<Rightarrow> u16 \<Rightarrow> byte list \<Rightarrow> byte list list \<Rightarrow> ('k, byte list \<times> nat) io" where
  "ask M sock ident qry [] = io_err ETIMEDOUT"
| "ask M sock ident qry (server # servers) = (\<lambda>k.
     let next = ask M sock ident qry servers in
     case sendto_in M sock qry 0 (SockAddrIn_new server 53) k of
       (Panic, k1) \<Rightarrow> (Panic, k1)
     | (Err _, k1) \<Rightarrow> next k1
     | (Ok _, k1) \<Rightarrow>
         (case poll M [\<lparr>p_fd = sock, p_events = POLLIN, p_revents = 0\<rparr>] RESPONSE_TIMEOUT_MS k1 of
            (Panic, _, k2) \<Rightarrow> (Panic, k2)
          | (Err e, _, k2) \<Rightarrow> (Err e, k2)
          | (Ok ready, _, k2) \<Rightarrow>
              if ready = 0 then next k2
              else (case recvfrom_in M sock (replicate 512 0) 0 k2 of
                  (Panic, _, k3) \<Rightarrow> (Panic, k3)
                | (Err _, _, k3) \<Rightarrow> next k3
                | (Ok (n, from), rbuf, k3) \<Rightarrow>
                    if SockAddrIn_octets from \<noteq> server \<or> unat n < 12 then next k3
                    else (case (index rbuf 0, index rbuf 1) of
                        (Ok a, Ok b) \<Rightarrow> if be_word [a, b] \<noteq> ident then next k3 else (Ok (rbuf, unat n), k3)
                      | _ \<Rightarrow> (Panic, k3)))))"

definition query :: "'k mach \<Rightarrow> byte list \<Rightarrow> u16 \<Rightarrow> ('k, byte list \<times> nat) io" where
  "query M hostname qtype =
     io_bind (read_nameservers M) (\<lambda>(servers, count) k.
       case getrandom M (replicate 2 0) 0 k of
         (Panic, _, k) \<Rightarrow> (Panic, k)
       | (Err e, _, k) \<Rightarrow> (Err e, k)
       | (Ok _, id_buf, k) \<Rightarrow>
           (case build_query (replicate 256 0) (be_word id_buf) hostname qtype of
              Panic \<Rightarrow> (Panic, k)
            | Err e \<Rightarrow> (Err e, k)
            | Ok (qbuf, qlen) \<Rightarrow>
                io_bind (socket M AF_INET SOCK_DGRAM 0) (\<lambda>sock k.
                  case ask M sock (be_word id_buf) (take qlen qbuf)
                         (concat (replicate 2 (take count servers))) k of
                    (Panic, k) \<Rightarrow> (Panic, k)
                  | (result, k) \<Rightarrow> io_ignore (close M sock) (\<lambda>k. (result, k)) k) k))"

definition resolve_a :: "'k mach \<Rightarrow> byte list \<Rightarrow> ('k, AddrList4) io" where
  "resolve_a M hostname =
     io_bind (query M hostname QTYPE_A) (\<lambda>(buf, n) k. (parse_answers_a buf n, k))"

definition resolve_aaaa :: "'k mach \<Rightarrow> byte list \<Rightarrow> ('k, AddrList6) io" where
  "resolve_aaaa M hostname =
     io_bind (query M hostname QTYPE_AAAA) (\<lambda>(buf, n) k. (parse_answers_aaaa buf n, k))"

section \<open>Queries on the wire\<close>

text \<open>The RFC 1035 image of a host name and of a query with one question.\<close>

definition wire_labels :: "byte list list \<Rightarrow> byte list" where
  "wire_labels ls = concat (map (\<lambda>l. of_nat (length l) # l) ls)"

definition valid_labels :: "byte list list \<Rightarrow> bool" where
  "valid_labels ls \<longleftrightarrow> list_all (\<lambda>l. l \<noteq> [] \<and> length l \<le> 63) ls"

definition wire_query :: "u16 \<Rightarrow> byte list list \<Rightarrow> u16 \<Rightarrow> byte list" where
  "wire_query ident ls qtype =
     be_bytes 2 ident @ be_bytes 2 (0x0100 :: u16) @ be_bytes 2 (1 :: u16) @ be_bytes 2 (0 :: u16)
     @ be_bytes 2 (0 :: u16) @ be_bytes 2 (0 :: u16) @ wire_labels ls @ [0] @ be_bytes 2 qtype @ be_bytes 2 (1 :: u16)"

lemma wire_labels_simps [simp]:
  "wire_labels [] = []"
  "wire_labels (l # ls) = of_nat (length l) # l @ wire_labels ls"
  by (simp_all add: wire_labels_def)

lemma valid_labels_simps [simp]:
  "valid_labels []" "valid_labels (l # ls) \<longleftrightarrow> l \<noteq> [] \<and> length l \<le> 63 \<and> valid_labels ls"
  by (simp_all add: valid_labels_def)

text \<open>A buffer whose front \<open>pre\<close> has been written, with the position after it.\<close>

definition written :: "byte list \<Rightarrow> byte list \<Rightarrow> byte list \<times> nat" where
  "written pre buf = (pre @ drop (length pre) buf, length pre)"

lemma put_written:
  assumes "length pre \<le> length buf"
  shows "put bytes (written pre buf) =
    (if length (pre @ bytes) \<le> length buf then Ok (written (pre @ bytes) buf) else Err EINVAL)"
  using assms by (simp add: put_def written_def copy_at_def add.commute)

lemma put_labels_written:
  "length pre \<le> length buf \<Longrightarrow>
   put_labels ls (written pre buf) =
    (if valid_labels ls \<and> length (pre @ wire_labels ls) \<le> length buf
     then Ok (written (pre @ wire_labels ls) buf) else Err EINVAL)"
proof (induction ls arbitrary: pre)
  case (Cons l ls)
  show ?case
  proof (cases "l \<noteq> [] \<and> length l \<le> 63 \<and> length (pre @ of_nat (length l) # l) \<le> length buf")
    case True
    then show ?thesis
      using Cons.prems Cons.IH [of "pre @ of_nat (length l) # l"] by (simp add: put_written)
  next
    case False
    then show ?thesis using Cons.prems by (auto simp: put_written)
  qed
qed simp

lemma build_query_wire:
  "build_query buf ident host qtype =
    (if valid_labels (split_on 46 host) \<and> length (wire_query ident (split_on 46 host) qtype) \<le> length buf
     then Ok (wire_query ident (split_on 46 host) qtype
                @ drop (length (wire_query ident (split_on 46 host) qtype)) buf,
              length (wire_query ident (split_on 46 host) qtype))
     else Err EINVAL)"
proof -
  have start: "(buf, 0) = written [] buf" by (simp add: written_def)
  have "build_query buf ident host qtype =
    (if valid_labels (split_on 46 host) \<and> length (wire_query ident (split_on 46 host) qtype) \<le> length buf
     then Ok (written (wire_query ident (split_on 46 host) qtype) buf) else Err EINVAL)"
    if "host \<noteq> []"
    using that unfolding build_query_def start
    by (simp add: put_written put_labels_written wire_query_def QCLASS_IN_def)
  moreover have "\<not> valid_labels (split_on 46 [])" by simp
  ultimately show ?thesis
    by (cases "host = []") (simp_all add: build_query_def written_def)
qed

text \<open>
  C10: \<open>build_query\<close> is exact and never panics: for a host name whose labels have 1 to 63 bytes and
  whose query fits the buffer, the buffer starts with the RFC 1035 query (recursion desired, one
  question of class IN) and the result is its length; in every other case it fails with \<open>EINVAL\<close>.
\<close>
theorem build_query_exact:
  "build_query buf ident host qtype =
    (if valid_labels (split_on 46 host) \<and> length (wire_query ident (split_on 46 host) qtype) \<le> length buf
     then Ok (wire_query ident (split_on 46 host) qtype
                @ drop (length (wire_query ident (split_on 46 host) qtype)) buf,
              length (wire_query ident (split_on 46 host) qtype))
     else Err EINVAL)"
  by (rule build_query_wire)

lemma split_on_no_delim: "d \<notin> set l \<Longrightarrow> split_on d (l @ d # rest) = l # split_on d rest"
  by (induction l) auto

lemma split_on_last: "d \<notin> set l \<Longrightarrow> split_on d l = [l]"
  by (induction l) auto

section \<open>Safety of the parser\<close>

lemma skip_name_bounds: "skip_name buf pos = Ok p \<Longrightarrow> pos < p \<and> p \<le> length buf"
proof (induction buf pos rule: skip_name.induct)
  case (1 buf pos)
  show ?case
    using 1 by (subst (asm) (2) skip_name.simps) (fastforce simp: Let_def split: if_splits)
qed

lemma skip_name_no_panic: "skip_name buf pos \<noteq> Panic"
proof (induction buf pos rule: skip_name.induct)
  case (1 buf pos)
  then show ?case by (subst skip_name.simps) (auto simp: Let_def)
qed

lemma read_u16_no_panic: "read_u16 buf pos \<noteq> Panic"
  by (simp add: read_u16_def)

lemma skip_questions_no_panic: "skip_questions buf n m pos \<noteq> Panic"
  by (induction m arbitrary: pos) (auto simp: res_bind_eq_Panic skip_name_no_panic)

lemma parse_header_no_panic: "parse_header buf n \<noteq> Panic"
  by (simp add: parse_header_def res_bind_eq_Panic read_u16_no_panic skip_questions_no_panic Let_def)

text \<open>The invariant of the result list: room for eight addresses of \<open>sz\<close> bytes, \<open>al_len\<close> of them set.\<close>

definition list_ok :: "nat \<Rightarrow> AddrList \<Rightarrow> bool" where
  "list_ok sz l \<longleftrightarrow>
     length (addrs l) = MAX_ADDRS \<and> al_len l \<le> MAX_ADDRS \<and> list_all (\<lambda>a. length a = sz) (addrs l)"

lemma push_addr_ok:
  assumes "list_ok sz out" and "al_len out < MAX_ADDRS" and "length a = sz"
  shows "\<exists>out'. push_addr a out = Ok out' \<and> list_ok sz out' \<and> al_len out' = Suc (al_len out)"
  using assms by (auto simp: push_addr_def list_ok_def list_all_length nth_list_update)

lemma answer_safe:
  assumes "n \<le> length buf" and "list_ok sz out"
  shows "answer qtype sz buf n pos out \<noteq> Panic"
    and "answer qtype sz buf n pos out = Ok (q, out') \<Longrightarrow> list_ok sz out'"
proof -
  have push: "\<exists>out'. push_addr (take sz (drop q buf)) out = Ok out' \<and> list_ok sz out'"
    if "q + sz \<le> n" "al_len out < MAX_ADDRS" for q
    using push_addr_ok [OF assms(2) that(2), of "take sz (drop q buf)"] that(1) assms(1) by auto
  have "push_addr (take sz (drop q buf)) out \<noteq> Panic" if "q + sz \<le> n" "al_len out < MAX_ADDRS" for q
    using push [OF that] by auto
  then show "answer qtype sz buf n pos out \<noteq> Panic"
    using assms(1)
    by (auto simp: answer_def res_bind_eq_Panic skip_name_no_panic read_u16_no_panic Let_def split: if_splits)
  have "list_ok sz out'" if "push_addr (take sz (drop q buf)) out = Ok out'" "q + sz \<le> n" "al_len out < MAX_ADDRS" for q out'
    using push [OF that(2,3)] that(1) by auto
  then show "answer qtype sz buf n pos out = Ok (q, out') \<Longrightarrow> list_ok sz out'"
    using assms
    by (auto simp: answer_def res_bind_eq_Ok Let_def split: if_splits)
qed

lemma answers_safe:
  assumes "n \<le> length buf" and "list_ok sz out"
  shows "answers qtype sz buf n m pos out \<noteq> Panic"
    and "answers qtype sz buf n m pos out = Ok l \<Longrightarrow> list_ok sz l"
  using assms(2)
  by (induction m arbitrary: pos out)
    (auto simp: res_bind_iffs answer_safe [OF assms(1)] split: prod.splits)

text \<open>
  What A and AAAA parsing share: a parser for records of type \<open>qtype\<close> with \<open>sz\<close> bytes of data.
\<close>

locale record_kind =
  fixes qtype :: u16 and sz :: nat
    and parse :: "byte list \<Rightarrow> nat \<Rightarrow> AddrList res"
  assumes parse_eq: "parse buf n = parse_answers qtype sz buf n"
begin

lemma parse_no_panic:
  assumes "n \<le> length buf"
  shows "parse buf n \<noteq> Panic"
proof -
  have "list_ok sz \<lparr>addrs = replicate MAX_ADDRS (replicate sz 0), al_len = 0\<rparr>"
    by (simp add: list_ok_def list_all_length)
  from answers_safe(1) [OF assms this] show ?thesis
    by (auto simp: parse_eq parse_answers_def res_bind_eq_Panic parse_header_no_panic)
qed

lemma parse_result:
  assumes "n \<le> length buf" and "parse buf n = Ok l"
  shows "\<exists>as. as_slice l = Ok as \<and> 1 \<le> length as \<and> length as \<le> 8 \<and> list_all (\<lambda>a. length a = sz) as"
proof -
  have "list_ok sz \<lparr>addrs = replicate MAX_ADDRS (replicate sz 0), al_len = 0\<rparr>"
    by (simp add: list_ok_def list_all_length)
  from answers_safe(2) [OF assms(1) this] assms(2) have "list_ok sz l" and "al_len l \<noteq> 0"
    by (auto simp: parse_eq parse_answers_def res_bind_eq_Ok split: if_splits)
  then show ?thesis
    by (auto simp: as_slice_def list_ok_def MAX_ADDRS_def list_all_length)
qed

end

interpretation a: record_kind QTYPE_A 4 parse_answers_a
  by unfold_locales (simp add: parse_answers_a_def)

interpretation aaaa: record_kind QTYPE_AAAA 16 parse_answers_aaaa
  by unfold_locales (simp add: parse_answers_aaaa_def)

text \<open>
  C9: parsing a response never panics, whatever bytes a server sent, as long as the stated length
  is within the buffer; a successful parse yields one to eight addresses of the right size.
\<close>
theorem parse_answers_safe:
  assumes "n \<le> length buf"
  shows "parse_answers_a buf n \<noteq> Panic \<and> parse_answers_aaaa buf n \<noteq> Panic
   \<and> (\<forall>l. parse_answers_a buf n = Ok l \<longrightarrow>
        (\<exists>as. as_slice l = Ok as \<and> 1 \<le> length as \<and> length as \<le> 8 \<and> list_all (\<lambda>a. length a = 4) as))
   \<and> (\<forall>l. parse_answers_aaaa buf n = Ok l \<longrightarrow>
        (\<exists>as. as_slice l = Ok as \<and> 1 \<le> length as \<and> length as \<le> 8 \<and> list_all (\<lambda>a. length a = 16) as))"
  using a.parse_no_panic [OF assms] aaaa.parse_no_panic [OF assms]
    a.parse_result [OF assms] aaaa.parse_result [OF assms] by blast

text \<open>A response that claims an answer it does not have.\<close>
theorem parse_answers_safe_witness:
  "parse_answers_a [0, 1, 0x80, 0, 0, 0, 0, 1, 0, 0, 0, 0] 12 \<noteq> Panic"
  using parse_answers_safe [of 12 "[0, 1, 0x80, 0, 0, 0, 0, 1, 0, 0, 0, 0]"] by simp

section \<open>Responses on the wire\<close>

text \<open>
  A name in a response: labels up to the root, or labels up to a compression pointer. A resource
  record is a name, a type, a class, a time to live and the data.
\<close>

datatype wname = Plain "byte list list" | Compressed "byte list list" byte byte

fun wire_name :: "wname \<Rightarrow> byte list" where
  "wire_name (Plain ls) = wire_labels ls @ [0]"
| "wire_name (Compressed ls hi lo) = wire_labels ls @ [hi, lo]"

fun valid_name :: "wname \<Rightarrow> bool" where
  "valid_name (Plain ls) \<longleftrightarrow> valid_labels ls"
| "valid_name (Compressed ls hi lo) \<longleftrightarrow> valid_labels ls \<and> hi AND 0xC0 = 0xC0"

record rr =
  rr_name :: wname
  rr_type :: u16
  rr_class :: u16
  rr_ttl :: u32
  rr_data :: "byte list"

definition wire_rr :: "rr \<Rightarrow> byte list" where
  "wire_rr r = wire_name (rr_name r) @ be_bytes 2 (rr_type r) @ be_bytes 2 (rr_class r) @ be_bytes 4 (rr_ttl r)
     @ be_bytes 2 (of_nat (length (rr_data r)) :: u16) @ rr_data r"

definition valid_rr :: "rr \<Rightarrow> bool" where
  "valid_rr r \<longleftrightarrow> valid_name (rr_name r) \<and> length (rr_data r) < 65536"

definition wire_question :: "wname \<times> u16 \<times> u16 \<Rightarrow> byte list" where
  "wire_question q = (case q of (nm, ty, cl) \<Rightarrow> wire_name nm @ be_bytes 2 ty @ be_bytes 2 cl)"

text \<open>
  A response with the questions \<open>qs\<close> and the answers \<open>rs\<close>; \<open>counts\<close> are the authority and additional
  counts, \<open>rest\<close> those sections.
\<close>

definition wire_response ::
  "u16 \<Rightarrow> u16 \<Rightarrow> u16 \<times> u16 \<Rightarrow> (wname \<times> u16 \<times> u16) list \<Rightarrow> rr list \<Rightarrow> byte list \<Rightarrow> byte list" where
  "wire_response ident flags counts qs rs rest =
     be_bytes 2 ident @ be_bytes 2 flags @ be_bytes 2 (of_nat (length qs) :: u16)
     @ be_bytes 2 (of_nat (length rs) :: u16) @ be_bytes 2 (fst counts) @ be_bytes 2 (snd counts)
     @ concat (map wire_question qs) @ concat (map wire_rr rs) @ rest"

lemma label_byte:
  assumes "l \<noteq> []" and "length l \<le> 63"
  shows "(of_nat (length l) :: byte) \<noteq> 0" and "(of_nat (length l) :: byte) AND 0xC0 \<noteq> 0xC0"
    and "unat (of_nat (length l) :: byte) = length l"
proof -
  show u: "unat (of_nat (length l) :: byte) = length l"
    using assms(2) by (simp add: unat_of_nat)
  then show "(of_nat (length l) :: byte) \<noteq> 0" using assms(1) by (auto simp: word_unat_eq_iff)
  show "(of_nat (length l) :: byte) AND 0xC0 \<noteq> 0xC0"
  proof
    assume "(of_nat (length l) :: byte) AND 0xC0 = 0xC0"
    then have "(0xC0 :: byte) \<le> of_nat (length l)"
      by (metis and.commute word_and_le1)
    then show False using u assms(2) by (simp add: word_le_nat_alt)
  qed
qed

lemma skip_labels:
  assumes "valid_labels ls"
  shows "skip_name (pre @ wire_labels ls @ post) (length pre) =
    skip_name (pre @ wire_labels ls @ post) (length pre + length (wire_labels ls))"
  using assms
proof (induction ls arbitrary: pre)
  case (Cons l ls)
  then have l: "l \<noteq> []" "length l \<le> 63" and ls: "valid_labels ls" by simp_all
  note step = Cons.IH [OF ls, of "pre @ of_nat (length l) # l"]
  show ?case
    using label_byte [OF l] step
    by (subst skip_name.simps) (simp add: Let_def nth_append add.assoc)
qed simp

lemma skip_wire_name:
  assumes "valid_name nm"
  shows "skip_name (pre @ wire_name nm @ post) (length pre) = Ok (length pre + length (wire_name nm))"
proof (cases nm)
  case (Plain ls)
  with assms skip_labels [of ls pre "0 # post"] show ?thesis
    by (simp add: skip_name.simps [of _ "length pre + length (wire_labels ls)"] nth_append)
next
  case (Compressed ls hi lo)
  with assms skip_labels [of ls pre "hi # lo # post"] show ?thesis
    by (auto simp: skip_name.simps [of _ "length pre + length (wire_labels ls)"] nth_append Let_def)
qed

lemma read_u16_at:
  assumes "take 2 (drop pos buf) = be_bytes 2 w"
  shows "read_u16 buf pos = Ok w"
proof -
  from assms have "length (take 2 (drop pos buf)) = 2" by simp
  then have len: "pos + 2 \<le> length buf" by simp
  then have "take 2 (drop pos buf) = [buf ! pos, buf ! (pos + 1)]"
    by (simp add: numeral_2_eq_2 take_Suc_conv_app_nth)
  with assms have "be_word [buf ! pos, buf ! (pos + 1)] = (be_word (be_bytes 2 w) :: u16)"
    by simp
  also have "\<dots> = w" by (rule be_word_be_bytes_full) simp
  finally show ?thesis using len by (simp add: read_u16_def)
qed

text \<open>The result list with \<open>acc\<close> as its first entries.\<close>

definition filled :: "nat \<Rightarrow> byte list list \<Rightarrow> AddrList" where
  "filled sz acc = \<lparr>addrs = acc @ replicate (MAX_ADDRS - length acc) (replicate sz 0), al_len = length acc\<rparr>"

lemma al_len_filled [simp]: "al_len (filled sz acc) = length acc"
  by (simp add: filled_def)

lemma push_filled:
  "length acc < MAX_ADDRS \<Longrightarrow> push_addr a (filled sz acc) = Ok (filled sz (acc @ [a]))"
proof -
  assume "length acc < MAX_ADDRS"
  then have "replicate (MAX_ADDRS - length acc) (replicate sz 0) =
      replicate sz 0 # replicate (MAX_ADDRS - Suc (length acc)) (replicate sz (0 :: byte))"
    by (metis Suc_diff_Suc replicate_Suc)
  then show ?thesis by (simp add: push_addr_def filled_def)
qed

lemma as_slice_filled: "length acc \<le> MAX_ADDRS \<Longrightarrow> as_slice (filled sz acc) = Ok acc"
  by (simp add: as_slice_def filled_def)

definition matching :: "u16 \<Rightarrow> nat \<Rightarrow> rr list \<Rightarrow> byte list list" where
  "matching qtype sz rs = map rr_data (filter (\<lambda>r. rr_type r = qtype \<and> length (rr_data r) = sz) rs)"

lemma answer_wire:
  assumes "valid_rr r" and "length acc \<le> MAX_ADDRS"
    and "length (pre @ wire_rr r) \<le> n" and "n \<le> length (pre @ wire_rr r @ post)"
  shows "answer qtype sz (pre @ wire_rr r @ post) n (length pre) (filled sz acc)
    = Ok (length (pre @ wire_rr r), filled sz (take MAX_ADDRS (acc @ matching qtype sz [r])))"
proof -
  let ?buf = "pre @ wire_rr r @ post" and ?p = "length pre + length (wire_name (rr_name r))"
  have sk: "skip_name ?buf (length pre) = Ok ?p"
    using skip_wire_name [of "rr_name r" pre] assms(1) by (simp add: wire_rr_def valid_rr_def)
  have ty: "read_u16 ?buf ?p = Ok (rr_type r)"
    by (rule read_u16_at) (simp add: wire_rr_def)
  have len: "read_u16 ?buf (?p + 8) = Ok (of_nat (length (rr_data r)))"
    by (rule read_u16_at) (simp add: wire_rr_def)
  have u: "unat (of_nat (length (rr_data r)) :: u16) = length (rr_data r)"
    using assms(1) by (simp add: valid_rr_def unat_of_nat)
  have total: "length (pre @ wire_rr r) = ?p + 10 + length (rr_data r)"
    by (simp add: wire_rr_def)
  have data: "take (length (rr_data r)) (drop (?p + 10) ?buf) = rr_data r"
    by (simp add: wire_rr_def)
  have sl: "slice ?buf (?p + 10) (?p + 10 + length (rr_data r)) = Ok (rr_data r)"
    using assms(3,4) total data by simp
  have fits: "\<not> ?p + 10 > n" "\<not> ?p + 10 + length (rr_data r) > n" using assms(3) total by simp_all
  show ?thesis
  proof (cases "rr_type r = qtype \<and> length (rr_data r) = sz \<and> length acc < MAX_ADDRS")
    case True
    then show ?thesis
      using fits sl unfolding total by (auto simp: answer_def sk ty len u Let_def matching_def push_filled)
  next
    case False
    then show ?thesis
      using fits assms(2) unfolding total by (auto simp: answer_def sk ty len u Let_def matching_def)
  qed
qed

lemma matching_Nil [simp]: "matching qtype sz [] = []"
  by (simp add: matching_def)

lemma matching_Cons: "matching qtype sz (r # rs) = matching qtype sz [r] @ matching qtype sz rs"
  by (simp add: matching_def)

lemma wire_question_tuple [simp]: "wire_question (nm, ty, cl) = wire_name nm @ be_bytes 2 ty @ be_bytes 2 cl"
  by (simp add: wire_question_def)

lemma take_take_append: "take n (take n xs @ ys) = take n (xs @ ys)"
  by (cases "length xs \<le> n") (simp_all add: min_def)

lemma answers_wire:
  assumes "list_all valid_rr rs" and "length acc \<le> MAX_ADDRS"
    and "length (pre @ concat (map wire_rr rs)) \<le> n" and "n \<le> length (pre @ concat (map wire_rr rs) @ post)"
  shows "answers qtype sz (pre @ concat (map wire_rr rs) @ post) n (length rs) (length pre) (filled sz acc)
    = Ok (filled sz (take MAX_ADDRS (acc @ matching qtype sz rs)))"
  using assms
proof (induction rs arbitrary: pre acc)
  case (Cons r rs)
  let ?acc = "take MAX_ADDRS (acc @ matching qtype sz [r])"
  have one: "answer qtype sz (pre @ wire_rr r @ concat (map wire_rr rs) @ post) n (length pre) (filled sz acc)
      = Ok (length (pre @ wire_rr r), filled sz ?acc)"
    using Cons.prems by (intro answer_wire) simp_all
  have "answers qtype sz ((pre @ wire_rr r) @ concat (map wire_rr rs) @ post) n (length rs)
      (length (pre @ wire_rr r)) (filled sz ?acc)
      = Ok (filled sz (take MAX_ADDRS (?acc @ matching qtype sz rs)))"
    using Cons.prems by (intro Cons.IH) simp_all
  also have "take MAX_ADDRS (?acc @ matching qtype sz rs) = take MAX_ADDRS (acc @ matching qtype sz (r # rs))"
    unfolding take_take_append matching_Cons [of qtype sz r rs] by simp
  finally show ?case
    using one by (simp del: take_append)
qed simp

lemma skip_questions_wire:
  assumes "list_all (\<lambda>(nm, _). valid_name nm) qs"
    and "length (pre @ concat (map wire_question qs)) \<le> n"
  shows "skip_questions (pre @ concat (map wire_question qs) @ post) n (length qs) (length pre)
    = Ok (length (pre @ concat (map wire_question qs)))"
  using assms
proof (induction qs arbitrary: pre)
  case (Cons q qs)
  obtain nm ty cl where q: "q = (nm, ty, cl)" by (cases q) auto
  have "skip_name (pre @ wire_name nm @ (be_bytes 2 ty @ be_bytes 2 cl @ concat (map wire_question qs) @ post))
      (length pre) = Ok (length pre + length (wire_name nm))"
    using Cons.prems q by (intro skip_wire_name) simp
  then show ?case
    using Cons.IH [of "pre @ wire_question q"] Cons.prems q by (simp add: add.assoc)
qed simp

lemma parse_answers_wire:
  assumes "flags AND 0x000F = 0" and "length qs < 65536" and "length rs < 65536"
    and "list_all (\<lambda>(nm, _). valid_name nm) qs" and "list_all valid_rr rs"
    and "buf = wire_response ident flags counts qs rs rest @ pad"
    and "n = length (wire_response ident flags counts qs rs rest)"
  shows "parse_answers qtype sz buf n =
    (if matching qtype sz rs = [] then Err ENOENT else Ok (filled sz (take MAX_ADDRS (matching qtype sz rs))))"
proof -
  let ?head = "be_bytes 2 ident @ be_bytes 2 flags @ be_bytes 2 (of_nat (length qs) :: u16)
     @ be_bytes 2 (of_nat (length rs) :: u16) @ be_bytes 2 (fst counts) @ be_bytes 2 (snd counts)"
  let ?qs = "concat (map wire_question qs)" and ?rs = "concat (map wire_rr rs)"
  have buf: "buf = ?head @ ?qs @ ?rs @ (rest @ pad)" and n: "n = length (?head @ ?qs @ ?rs @ rest)"
    using assms(6,7) by (simp_all add: wire_response_def)
  have u: "unat (of_nat (length qs) :: u16) = length qs" "unat (of_nat (length rs) :: u16) = length rs"
    using assms(2,3) by (simp_all add: unat_of_nat)
  have reads: "read_u16 buf 2 = Ok flags" "read_u16 buf 4 = Ok (of_nat (length qs))"
    "read_u16 buf 6 = Ok (of_nat (length rs))"
    unfolding buf by (rule read_u16_at, simp)+
  have "skip_questions (?head @ ?qs @ (?rs @ rest @ pad)) n (length qs) (length ?head) = Ok (length (?head @ ?qs))"
    by (rule skip_questions_wire [OF assms(4)]) (simp add: n)
  then have sq: "skip_questions buf n (length qs) 12 = Ok (length (?head @ ?qs))"
    by (simp add: buf)
  have header: "parse_header buf n = Ok \<lparr>ancount = length rs, first_answer = length (?head @ ?qs)\<rparr>"
    using sq assms(1) u by (simp add: parse_header_def n reads)
  have init: "\<lparr>addrs = replicate MAX_ADDRS (replicate sz 0), al_len = 0\<rparr> = filled sz []"
    by (simp add: filled_def)
  have "answers qtype sz ((?head @ ?qs) @ ?rs @ (rest @ pad)) n (length rs) (length (?head @ ?qs)) (filled sz [])
      = Ok (filled sz (take MAX_ADDRS ([] @ matching qtype sz rs)))"
    by (rule answers_wire [OF assms(5)]) (simp_all add: n)
  then have "answers qtype sz buf n (length rs) (length (?head @ ?qs)) (filled sz [])
      = Ok (filled sz (take MAX_ADDRS (matching qtype sz rs)))"
    by (simp add: buf)
  then show ?thesis
    unfolding parse_answers_def header init
    by (cases "matching qtype sz rs") (simp_all add: MAX_ADDRS_def)
qed

context record_kind
begin

lemma parse_response:
  assumes "flags AND 0x000F = 0" and "length qs < 65536" and "length rs < 65536"
    and "list_all (\<lambda>(nm, _). valid_name nm) qs" and "list_all valid_rr rs"
  shows "res_bind (parse (wire_response ident flags counts qs rs rest @ pad)
      (length (wire_response ident flags counts qs rs rest))) as_slice
    = (if matching qtype sz rs = [] then Err ENOENT else Ok (take 8 (matching qtype sz rs)))"
  unfolding parse_eq parse_answers_wire [OF assms refl refl]
  by (simp add: as_slice_filled MAX_ADDRS_def)

end

text \<open>
  C3: the parser inverts the wire format: on a response of RFC 1035 form with no error code, any
  number of questions, any records in any order, names plain or compressed, and arbitrary further
  sections, it returns the data of the first eight records of the type asked for, in order, and
  \<open>ENOENT\<close> if there is none.
\<close>
theorem parse_answers_response:
  assumes "flags AND 0x000F = 0" and "length qs < 65536" and "length rs < 65536"
    and "list_all (\<lambda>(nm, _). valid_name nm) qs" and "list_all valid_rr rs"
  shows "res_bind (parse_answers_a (wire_response ident flags counts qs rs rest @ pad)
      (length (wire_response ident flags counts qs rs rest))) as_slice
    = (if matching QTYPE_A 4 rs = [] then Err ENOENT else Ok (take 8 (matching QTYPE_A 4 rs)))
   \<and> res_bind (parse_answers_aaaa (wire_response ident flags counts qs rs rest @ pad)
      (length (wire_response ident flags counts qs rs rest))) as_slice
    = (if matching QTYPE_AAAA 16 rs = [] then Err ENOENT else Ok (take 8 (matching QTYPE_AAAA 16 rs)))"
  using a.parse_response [OF assms] aaaa.parse_response [OF assms] by blast

text \<open>An alias record with a plain name, then an address with a compressed one.\<close>
theorem parse_answers_response_witness:
  "res_bind (parse_answers_a
      (wire_response 7 0x8180 (0, 0) [(Plain [[97], [98]], 1, 1)]
        [\<lparr>rr_name = Plain [[99]], rr_type = 5, rr_class = 1, rr_ttl = 60, rr_data = [1, 97, 0]\<rparr>,
         \<lparr>rr_name = Compressed [] 0xC0 12, rr_type = 1, rr_class = 1, rr_ttl = 60, rr_data = [1, 2, 3, 4]\<rparr>] [] @ [0])
      (length (wire_response 7 0x8180 (0, 0) [(Plain [[97], [98]], 1, 1)]
        [\<lparr>rr_name = Plain [[99]], rr_type = 5, rr_class = 1, rr_ttl = 60, rr_data = [1, 97, 0]\<rparr>,
         \<lparr>rr_name = Compressed [] 0xC0 12, rr_type = 1, rr_class = 1, rr_ttl = 60, rr_data = [1, 2, 3, 4]\<rparr>] []))) as_slice
    = Ok [[1, 2, 3, 4]]"
  using parse_answers_response [of "0x8180" "[(Plain [[97], [98]], 1, 1)]"
      "[\<lparr>rr_name = Plain [[99]], rr_type = 5, rr_class = 1, rr_ttl = 60, rr_data = [1, 97, 0]\<rparr>,
         \<lparr>rr_name = Compressed [] 0xC0 12, rr_type = 1, rr_class = 1, rr_ttl = 60, rr_data = [1, 2, 3, 4]\<rparr>]"
      7 "(0, 0)" "[]" "[0]"]
  by (simp add: valid_rr_def matching_def QTYPE_A_def)

section \<open>The configuration file, round trip\<close>

text \<open>Dotted-quad notation, and a file with one \<open>nameserver\<close> line per server.\<close>

definition dotted :: "byte list \<Rightarrow> byte list" where
  "dotted octs = (case map (\<lambda>b. decimal (unat b)) octs of [] \<Rightarrow> [] | d # ds \<Rightarrow> d @ concat (map ((#) 46) ds))"

definition conf_line :: "byte list \<Rightarrow> byte list" where
  "conf_line octs = ascii ''nameserver '' @ dotted octs"

definition conf_file :: "byte list list \<Rightarrow> byte list" where
  "conf_file servers = concat (map (\<lambda>octs. conf_line octs @ [10]) servers)"

lemma digits_value_decimal: "digits_value (map unat (decimal n)) = n"
proof -
  have "digits_value (map unat (decimal n)) = decimal_value (decimal n)"
    by (simp add: digits_value_def decimal_value_def foldl_map)
  then show ?thesis by simp
qed

lemma decimal_range: "d \<in> set (decimal n) \<Longrightarrow> 48 \<le> unat d \<and> unat d \<le> 57"
  using decimal_digits [of n] by (simp add: is_digit_def)

lemma parse_u8_decimal: "parse_u8 (map unat (decimal (unat (b :: byte)))) = Some b"
proof -
  let ?s = "map unat (decimal (unat b))"
  have dig: "48 \<le> d \<and> d \<le> 57" if "d \<in> set ?s" for d using that decimal_range by auto
  have ne: "?s \<noteq> []" by simp
  then have "hd ?s \<in> set ?s" by (rule hd_in_set)
  then have hd: "hd ?s \<noteq> 43" using dig by force
  have "unat b < 256" using unsigned_less [of b, where ?'a = nat] by simp
  moreover have "?s \<noteq> [43]" "?s \<noteq> [45]" using dig by force+
  moreover have "list_all (\<lambda>d. 48 \<le> d \<and> d \<le> 57) ?s" using dig by (auto simp: list_all_iff)
  ultimately show ?thesis
    unfolding parse_u8_def Let_def using ne hd digits_value_decimal [of "unat b"] by simp
qed

lemma split_dots:
  "list_all (\<lambda>l. d \<notin> set l) (l # ls) \<Longrightarrow> split_on d (l @ concat (map ((#) d) ls)) = l # ls"
proof (induction ls arbitrary: l)
  case Nil
  then show ?case by (simp add: split_on_last)
next
  case (Cons m ls)
  then show ?case using split_on_no_delim [of d l "m @ concat (map ((#) d) ls)"] by simp
qed

lemma parse_dotted:
  assumes "length octs = 4"
  shows "parse_ipv4 (map unat (dotted octs)) = Some octs"
proof -
  from assms obtain a b c d where o: "octs = [a, b, c, d]"
    by (auto simp: length_Suc_conv numeral_eq_Suc)
  let ?s = "\<lambda>b. map unat (decimal (unat (b :: byte)))"
  have nodot: "46 \<notin> set (?s x)" for x using decimal_range by force
  have "map unat (dotted octs) = ?s a @ concat (map ((#) 46) [?s b, ?s c, ?s d])"
    by (simp add: dotted_def o)
  then have "split_on 46 (map unat (dotted octs)) = [?s a, ?s b, ?s c, ?s d]"
    using split_dots [of 46 "?s a" "[?s b, ?s c, ?s d]"] nodot by simp
  then show ?thesis by (simp add: parse_ipv4_def parse_u8_decimal o)
qed

lemma from_utf8_ascii: "list_all (\<lambda>b. b < 0x80) s \<Longrightarrow> from_utf8 s = Some s"
  by (induction s rule: from_utf8.induct) simp_all

lemma split_lines:
  "list_all (\<lambda>l. 10 \<notin> set l) ls \<Longrightarrow> split_on 10 (concat (map (\<lambda>l. l @ [10]) ls)) = ls @ [[]]"
  by (induction ls) (simp_all add: split_on_no_delim)

lemma lines_concat:
  assumes "list_all (\<lambda>l. 10 \<notin> set l \<and> 13 \<notin> set l) ls"
  shows "lines (concat (map (\<lambda>l. l @ [10]) ls)) = ls"
proof -
  have "list_all (\<lambda>l. 10 \<notin> set l) ls" using assms by (simp add: list_all_iff)
  note sp = split_lines [OF this]
  have "strip_cr l = l" if "l \<in> set ls" for l
  proof -
    from that assms have "13 \<notin> set l" by (auto simp: list_all_iff)
    then show ?thesis unfolding strip_cr_def using last_in_set [of l] by metis
  qed
  then show ?thesis by (simp add: lines_def sp Let_def map_idI)
qed

lemma trim_id: "s \<noteq> [] \<Longrightarrow> \<not> is_white (hd s) \<Longrightarrow> \<not> is_white (last s) \<Longrightarrow> trim s = s"
proof -
  assume "s \<noteq> []" "\<not> is_white (hd s)" "\<not> is_white (last s)"
  moreover have "dropWhile P xs = xs" if "xs \<noteq> []" "\<not> P (hd xs)" for P and xs :: "nat list"
    using that by (cases xs) simp_all
  ultimately show ?thesis by (simp add: trim_def hd_rev)
qed

lemma digit_not_white: "48 \<le> c \<Longrightarrow> c \<le> 57 \<Longrightarrow> \<not> is_white c"
  by (simp add: is_white_def)

lemma dotted_ends:
  assumes "length octs = 4"
  shows "dotted octs \<noteq> []" and "\<not> is_white (unat (hd (dotted octs)))" and "\<not> is_white (unat (last (dotted octs)))"
    and "d \<in> set (dotted octs) \<Longrightarrow> 46 \<le> unat d \<and> unat d \<le> 57"
proof -
  from assms obtain a b c e where o: "octs = [a, b, c, e]"
    by (auto simp: length_Suc_conv numeral_eq_Suc)
  have eq: "dotted octs = decimal (unat a) @ 46 # decimal (unat b) @ 46 # decimal (unat c) @ 46 # decimal (unat e)"
    by (simp add: dotted_def o)
  show "dotted octs \<noteq> []" by (simp add: eq)
  have "\<not> is_white (unat x)" if "x \<in> set (decimal m)" for x m
    using decimal_range [OF that] digit_not_white by blast
  from this [OF hd_in_set] this [OF last_in_set]
  show "\<not> is_white (unat (hd (dotted octs)))" "\<not> is_white (unat (last (dotted octs)))"
    by (simp_all add: eq)
  show "d \<in> set (dotted octs) \<Longrightarrow> 46 \<le> unat d \<and> unat d \<le> 57"
    using decimal_range by (force simp: eq)
qed

lemma add_conf_line:
  assumes "length octs = 4"
  shows "add_nameserver (map unat (conf_line octs)) (servers, count) =
    (if count < length servers then (servers[count := octs], Suc count) else (servers, count))"
proof -
  let ?d = "map unat (dotted octs)"
  have line: "map unat (conf_line octs) = points ''nameserver'' @ 32 # ?d"
    by (simp add: conf_line_def ascii_def points_def)
  have ne: "?d \<noteq> []" and h: "\<not> is_white (hd ?d)" and l: "\<not> is_white (last ?d)"
    using dotted_ends(1-3) [OF assms] by (simp_all add: hd_map last_map)
  have "trim (points ''nameserver'' @ 32 # ?d) = points ''nameserver'' @ 32 # ?d"
    using ne l by (intro trim_id) (auto simp: points_def is_white_def)
  moreover have "trim (32 # ?d) = ?d"
    using trim_id [OF ne h l] by (simp add: trim_def is_white_def)
  ultimately show ?thesis
    by (simp add: add_nameserver_def line strip_prefix_def parse_dotted [OF assms])
qed

definition padded :: "byte list list \<Rightarrow> byte list list" where
  "padded acc = acc @ replicate (MAX_NAMESERVERS - length acc) (replicate 4 0)"

lemma fold_conf_lines:
  assumes "list_all (\<lambda>octs. length octs = 4) servers" and "length acc \<le> MAX_NAMESERVERS"
  shows "fold add_nameserver (map (\<lambda>octs. map unat (conf_line octs)) servers) (padded acc, length acc)
    = (padded (take MAX_NAMESERVERS (acc @ servers)), length (take MAX_NAMESERVERS (acc @ servers)))"
  using assms
proof (induction servers arbitrary: acc)
  case (Cons octs servers)
  then have len: "length octs = 4" and rest: "list_all (\<lambda>octs. length octs = 4) servers" by simp_all
  have "length (padded acc) = MAX_NAMESERVERS" using Cons.prems by (simp add: padded_def)
  note step = add_conf_line [OF len, of "padded acc" "length acc", unfolded this]
  show ?case
  proof (cases "length acc < MAX_NAMESERVERS")
    case True
    then have "replicate (MAX_NAMESERVERS - length acc) (replicate 4 0) =
        replicate 4 0 # replicate (MAX_NAMESERVERS - Suc (length acc)) (replicate 4 (0 :: byte))"
      by (metis Suc_diff_Suc replicate_Suc)
    then have "(padded acc)[length acc := octs] = padded (acc @ [octs])"
      by (simp add: padded_def)
    with step True Cons.IH [OF rest, of "acc @ [octs]"] show ?thesis by simp
  next
    case False
    with step Cons.IH [OF rest, of acc] Cons.prems show ?thesis by simp
  qed
qed simp

lemma nameservers_of_conf:
  assumes "list_all (\<lambda>octs. length octs = 4) servers"
  shows "map_res (\<lambda>(svs, count). take count svs) (parse_nameservers (conf_file servers)) =
    (if servers = [] then Err EINVAL else Ok (take 3 servers))"
proof -
  let ?ls = "map (\<lambda>octs. map unat (conf_line octs)) servers"
  have chars: "unat d < 0x80 \<and> unat d \<noteq> 10 \<and> unat d \<noteq> 13" if "d \<in> set (conf_line octs)" "length octs = 4" for d octs
    using that dotted_ends(4) [OF that(2), of d] by (auto simp: conf_line_def ascii_def)
  have bytes: "map unat (conf_file servers) = concat (map (\<lambda>l. l @ [10]) ?ls)"
    by (simp add: conf_file_def map_concat comp_def)
  have "list_all (\<lambda>b. b < 0x80) (map unat (conf_file servers))"
    using assms chars by (auto simp: conf_file_def list_all_iff)
  then have utf: "from_utf8 (map unat (conf_file servers)) = Some (concat (map (\<lambda>l. l @ [10]) ?ls))"
    using from_utf8_ascii bytes by metis
  have "list_all (\<lambda>l. 10 \<notin> set l \<and> 13 \<notin> set l) ?ls"
    using assms chars by (fastforce simp: list_all_iff)
  then have ln: "lines (concat (map (\<lambda>l. l @ [10]) ?ls)) = ?ls" by (rule lines_concat)
  have init: "(replicate MAX_NAMESERVERS (replicate 4 0), 0) = (padded [], length [])" by (simp add: padded_def)
  show ?thesis
    using fold_conf_lines [OF assms, of "[]"]
    unfolding parse_nameservers_def utf option.case ln init
    by (cases servers) (simp_all add: padded_def MAX_NAMESERVERS_def min_def)
qed

text \<open>
  C37: the configuration file is read back: from a file with one \<open>nameserver\<close> line in dotted-quad
  notation per server, the first three servers are used, in order, and no servers at all are an
  error.
\<close>
theorem parse_nameservers_conf:
  assumes "list_all (\<lambda>octs. length octs = 4) servers"
  shows "map_res (\<lambda>(svs, count). take count svs) (parse_nameservers (conf_file servers)) =
    (if servers = [] then Err EINVAL else Ok (take 3 servers))"
  using assms by (rule nameservers_of_conf)

theorem parse_nameservers_conf_witness:
  "map_res (\<lambda>(svs, count). take count svs) (parse_nameservers (conf_file [[8, 8, 4, 4], [127, 0, 0, 53]]))
    = Ok [[8, 8, 4, 4], [127, 0, 0, 53]]"
  using parse_nameservers_conf [of "[[8, 8, 4, 4], [127, 0, 0, 53]]"] by simp

end
