(* ===== verification/Fd_Loops.thy ===== *)
theory Fd_Loops
  imports Fd
begin

text \<open>
  The transfer loops of \<open>src/fd.rs\<close>: what \<open>write_all\<close> delivers and \<open>read_all\<close> fills over a kernel that may
  transfer less than asked for and interrupt its calls, that both end, and that they keep the open descriptors.
\<close>

section \<open>Contracts\<close>

text \<open>
  \<open>write(2)\<close>: a prefix of the buffer is appended to what the descriptor's consumer has received,
  and the result is its length; an error delivers nothing.
\<close>

definition write_contract :: "'k mach \<Rightarrow> i32 \<Rightarrow> ('k \<Rightarrow> byte list) \<Rightarrow> bool" where
  "write_contract M fd sink \<longleftrightarrow>
     (\<forall>buf k ret outs k'. length buf < 2 ^ 63 \<longrightarrow>
        sys M ''WRITE'' [Val (scast fd), Ptr buf, len_arg buf] k = (ret, outs, k') \<longrightarrow>
        (\<exists>n \<le> length buf. ret = of_nat n \<and> sink k' = sink k @ take n buf)
        \<or> (\<exists>m. errno_ret ret m \<and> sink k' = sink k))"

text \<open>
  \<open>read(2)\<close>: the next bytes of the source go to the front of the buffer; 0 is the end of the
  source. An error consumes nothing, but says nothing about the buffer beyond its extent.
\<close>

definition read_contract :: "'k mach \<Rightarrow> i32 \<Rightarrow> ('k \<Rightarrow> byte list) \<Rightarrow> bool" where
  "read_contract M fd src \<longleftrightarrow>
     (\<forall>buf k ret outs k'. 0 < length buf \<longrightarrow> length buf < 2 ^ 63 \<longrightarrow>
        sys M ''READ'' [Val (scast fd), MutPtr buf, len_arg buf] k = (ret, outs, k') \<longrightarrow>
        length (out_bytes outs 1) = length buf \<and>
        ((\<exists>n \<le> length buf. ret = of_nat n \<and> n \<le> length (src k) \<and> (n = 0 \<longrightarrow> src k = [])
            \<and> take n (out_bytes outs 1) = take n (src k) \<and> src k' = drop n (src k))
         \<or> (\<exists>m. errno_ret ret m \<and> src k' = src k)))"

text \<open>Only finitely many of the calls to come are interrupted: each \<open>EINTR\<close> uses up a pending one.\<close>

definition eintr_bounded :: "'k mach \<Rightarrow> string \<Rightarrow> ('k \<Rightarrow> nat) \<Rightarrow> bool" where
  "eintr_bounded M s \<mu> \<longleftrightarrow>
     (\<forall>args k ret outs k'. sys M s args k = (ret, outs, k') \<longrightarrow> ret = - 4 \<longrightarrow> \<mu> k' < \<mu> k)"

lemma fd_write_cases:
  assumes "write_contract M fd sink" and "eintr_bounded M ''WRITE'' \<mu>" and "length buf < 2 ^ 63"
  obtains (wrote) n k' where "fd_write M fd buf k = (Ok (of_nat n), k')" "n \<le> length buf"
      "sink k' = sink k @ take n buf"
    | (interrupted) k' where "fd_write M fd buf k = (Err EINTR, k')" "sink k' = sink k" "\<mu> k' < \<mu> k"
    | (failed) e k' where "fd_write M fd buf k = (Err e, k')" "e \<noteq> EINTR" "sink k' = sink k"
proof -
  obtain ret outs k' where call: "sys M ''WRITE'' [Val (scast fd), Ptr buf, len_arg buf] k = (ret, outs, k')"
    using prod_cases3 by blast
  then have w: "fd_write M fd buf k = (from_ret ret, k')"
    by (simp add: fd_write_def call_usize_def)
  from assms(1) call assms(3)
  consider n where "n \<le> length buf" "ret = of_nat n" "sink k' = sink k @ take n buf"
    | m where "errno_ret ret m" "sink k' = sink k"
    unfolding write_contract_def by blast
  then show thesis
  proof cases
    case 1
    with w assms(3) show thesis by (intro wrote) (simp_all add: from_ret_of_nat)
  next
    case (2 m)
    from 2 have f: "from_ret ret = Err (Errno (word_of_int m))" by (simp add: from_ret_errno_ret)
    show thesis
    proof (cases "m = 4")
      case True
      with 2 call assms(2) have "\<mu> k' < \<mu> k" unfolding eintr_bounded_def errno_ret_def by auto
      with f w 2 True show thesis by (intro interrupted) simp_all
    next
      case False
      with 2 have "Errno (word_of_int m) \<noteq> EINTR" by (simp add: EINTR_iff errno_ret_def)
      with f w 2 show thesis by (intro failed [of "Errno (word_of_int m)" k']) simp_all
    qed
  qed
qed

text \<open>What \<open>write_all\<close> leaves behind, and that a partial write followed by the rest adds up to it.\<close>

definition delivered :: "('k \<Rightarrow> byte list) \<Rightarrow> byte list \<Rightarrow> 'k \<Rightarrow> unit res \<Rightarrow> 'k \<Rightarrow> bool" where
  "delivered sink buf k r k' = (case r of Ok _ \<Rightarrow> sink k' = sink k @ buf
     | Err e \<Rightarrow> e \<noteq> EINTR \<and> (\<exists>n < length buf. sink k' = sink k @ take n buf)
     | Panic \<Rightarrow> False)"

lemma write_all_partial:
  assumes "fd_write M fd buf k = (Ok (of_nat n), k')" "n \<le> length buf" "sink k' = sink k @ take n buf"
    and "n \<noteq> 0" "length buf < 2 ^ 63"
    and "write_all M fd (drop n buf) k' = Some (r, k'')" "delivered sink (drop n buf) k' r k''"
  shows "write_all M fd buf k = Some (r, k'') \<and> delivered sink buf k r k''"
proof
  have un: "unat (of_nat n :: usize) = n" using assms by (intro unat_of_nat_usize) simp
  with \<open>n \<noteq> 0\<close> have nz: "(of_nat n :: usize) \<noteq> 0" by (metis unat_0)
  show "write_all M fd buf k = Some (r, k'')"
    using assms un nz by (subst write_all.simps) auto
  have "\<exists>i < length buf. sink k'' = sink k @ take i buf"
    if "i < length (drop n buf)" "sink k'' = sink k' @ take i (drop n buf)" for i
    using that assms(2,3) by (intro exI [of _ "n + i"]) (simp add: take_add)
  then show "delivered sink buf k r k''"
    using assms(3,7) by (cases r) (auto simp: delivered_def)
qed

lemma write_all_delivered:
  assumes "write_contract M fd sink" and "eintr_bounded M ''WRITE'' \<mu>" and "length buf < 2 ^ 63"
  shows "\<exists>r k'. write_all M fd buf k = Some (r, k') \<and> delivered sink buf k r k'"
  using assms(3)
proof (induction "(length buf, \<mu> k)" arbitrary: buf k
    rule: wf_induct_rule [OF wf_lex_prod [OF wf_less_than wf_less_than]])
  case 1
  note IH = 1(1) and len = 1(2)
  show ?case
  proof (cases "buf = []")
    case True
    then show ?thesis by (subst write_all.simps) (simp add: delivered_def)
  next
    case False
    from assms(1,2) len show ?thesis
    proof (cases rule: fd_write_cases [where k = k])
      case (wrote n k')
      show ?thesis
      proof (cases "n = 0")
        case True
        with wrote False show ?thesis
          by (subst write_all.simps) (auto simp: delivered_def intro!: exI [of _ 0])
      next
        case n: False
        with False len have "\<exists>r k''. write_all M fd (drop n buf) k' = Some (r, k'') \<and> delivered sink (drop n buf) k' r k''"
          by (intro IH) auto
        then show ?thesis using write_all_partial [where sink = sink, OF wrote n len] by blast
      qed
    next
      case (interrupted k')
      with False IH [of buf k'] len show ?thesis
        by (subst write_all.simps) (simp add: delivered_def cong: res.case_cong)
    next
      case (failed e k')
      with False show ?thesis
        by (subst write_all.simps) (auto simp: delivered_def intro!: exI [of _ 0])
    qed
  qed
qed

text \<open>
  C7: \<open>write_all\<close> ends, and never panics: on success the whole buffer has been delivered in order,
  and on an error, which is never \<open>EINTR\<close>, a proper prefix of it. Short writes and interruptions
  are absorbed.
\<close>
theorem write_all_delivers:
  assumes "write_contract M fd sink" and "eintr_bounded M ''WRITE'' \<mu>" and "length buf < 2 ^ 63"
  shows "\<exists>r k'. write_all M fd buf k = Some (r, k')
     \<and> (case r of Ok _ \<Rightarrow> sink k' = sink k @ buf
         | Err e \<Rightarrow> e \<noteq> EINTR \<and> (\<exists>n < length buf. sink k' = sink k @ take n buf)
         | Panic \<Rightarrow> False)"
  using write_all_delivered [OF assms] by (simp only: delivered_def)

text \<open>
  A kernel with one descriptor at both ends of a byte stream: it interrupts the first calls, then
  transfers at most two bytes a call.
\<close>

definition two_byte_kernel :: "usize \<Rightarrow> arg list \<Rightarrow> byte list \<times> nat \<Rightarrow> usize \<times> arg list \<times> byte list \<times> nat" where
  "two_byte_kernel n args k = (case k of (stream, c) \<Rightarrow>
     if 0 < c then (- 4, args, stream, c - 1)
     else case args of
       [Val fd, Ptr b, Val len] \<Rightarrow> (of_nat (min 2 (length b)), args, stream @ take 2 b, 0)
     | [Val fd, MutPtr b, Val len] \<Rightarrow>
         (let m = min 2 (min (length b) (length stream))
          in (of_nat m, [Val fd, MutPtr (take m stream @ drop m b), Val len], drop m stream, 0))
     | _ \<Rightarrow> (- 22, args, stream, 0))"

definition two_byte_mach :: "(byte list \<times> nat) mach" where
  "two_byte_mach = \<lparr>m_arch = X86_64, m_kernel = two_byte_kernel\<rparr>"

lemma two_byte_sys: "sys two_byte_mach s args k = two_byte_kernel (nr X86_64 s) args k"
  by (simp add: sys_def two_byte_mach_def)

lemma EINTR_ret: "errno_ret (- 4) 4"
  by (simp add: errno_ret_def)

lemma two_byte_write: "write_contract two_byte_mach fd fst"
  unfolding write_contract_def two_byte_sys two_byte_kernel_def
  using EINTR_ret by (auto simp: min_def split: if_splits intro!: exI [of _ "min 2 (length _)"])

lemma two_byte_read: "read_contract two_byte_mach fd fst"
  unfolding read_contract_def two_byte_sys two_byte_kernel_def
proof (intro allI impI conjI, goal_cases)
  case (1 buf k ret outs k')
  then show ?case by (cases k) (auto simp: out_bytes_def Let_def split: if_splits)
next
  case (2 buf k ret outs k')
  obtain stream c where k: "k = (stream, c)" by (cases k)
  show ?case
  proof (cases "0 < c")
    case True
    with 2 k EINTR_ret show ?thesis by auto
  next
    case False
    with 2 k show ?thesis
      by (intro disjI1 exI [of _ "min 2 (min (length buf) (length stream))"])
        (auto simp: out_bytes_def Let_def min_def)
  qed
qed

lemma of_nat_not_EINTR: "n < 2 ^ 63 \<Longrightarrow> (of_nat n :: usize) \<noteq> - 4"
  using from_ret_of_nat [of n] from_ret_errno_ret [OF EINTR_ret] by auto

lemma two_byte_eintr: "eintr_bounded two_byte_mach s snd"
  unfolding eintr_bounded_def two_byte_sys two_byte_kernel_def
  using of_nat_not_EINTR
  by (auto simp: Let_def of_nat_not_EINTR split: prod.splits if_splits list.splits arg.splits)

text \<open>Five bytes through two interruptions and three short writes.\<close>
theorem write_all_delivers_witness:
  "\<exists>r k'. write_all two_byte_mach 1 [10, 20, 30, 40, 50] ([1], 2) = Some (r, k')
     \<and> (case r of Ok _ \<Rightarrow> fst k' = [1, 10, 20, 30, 40, 50]
         | Err e \<Rightarrow> e \<noteq> EINTR \<and> (\<exists>n < length [10, 20, 30, 40, 50 :: byte]. fst k' = [1] @ take n [10, 20, 30, 40, 50])
         | Panic \<Rightarrow> False)"
  using write_all_delivers [OF two_byte_write [of 1] two_byte_eintr,
      of "[10, 20, 30, 40, 50]" "([1], 2)"]
  by (simp cong: res.case_cong)


lemma read_cases:
  assumes "read_contract M fd src" and "eintr_bounded M ''READ'' \<mu>"
    and "0 < length buf" and "length buf < 2 ^ 63"
  obtains (data) n out k' where "read M fd buf k = (Ok (of_nat n), out, k')" "length out = length buf"
      "n \<le> length buf" "n \<le> length (src k)" "n = 0 \<Longrightarrow> src k = []"
      "take n out = take n (src k)" "src k' = drop n (src k)"
    | (interrupted) out k' where "read M fd buf k = (Err EINTR, out, k')" "length out = length buf"
      "src k' = src k" "\<mu> k' < \<mu> k"
    | (failed) e out k' where "read M fd buf k = (Err e, out, k')" "length out = length buf"
      "e \<noteq> EINTR" "src k' = src k"
proof -
  obtain ret outs k' where call: "sys M ''READ'' [Val (scast fd), MutPtr buf, len_arg buf] k = (ret, outs, k')"
    using prod_cases3 by blast
  then have w: "read M fd buf k = (from_ret ret, out_bytes outs 1, k')"
    by (simp add: read_def call_buf_def)
  from assms(1,3,4) call have len: "length (out_bytes outs 1) = length buf"
    unfolding read_contract_def by blast
  from assms(1,3,4) call
  consider n where "n \<le> length buf" "ret = of_nat n" "n \<le> length (src k)" "n = 0 \<longrightarrow> src k = []"
      "take n (out_bytes outs 1) = take n (src k)" "src k' = drop n (src k)"
    | m where "errno_ret ret m" "src k' = src k"
    unfolding read_contract_def by blast
  then show thesis
  proof cases
    case (1 n)
    then have "n < 2 ^ 63" using assms(4) by simp
    with 1 w have "read M fd buf k = (Ok (of_nat n), out_bytes outs 1, k')"
      by (simp add: from_ret_of_nat)
    from this len 1(1,3) _ 1(5,6) show thesis by (rule data) (use 1(4) in blast)
  next
    case (2 m)
    from 2 have f: "from_ret ret = Err (Errno (word_of_int m))" by (simp add: from_ret_errno_ret)
    show thesis
    proof (cases "m = 4")
      case True
      with 2 call assms(2) have "\<mu> k' < \<mu> k" unfolding eintr_bounded_def errno_ret_def by auto
      from w f True have "read M fd buf k = (Err EINTR, out_bytes outs 1, k')" by simp
      from this len 2(2) \<open>\<mu> k' < \<mu> k\<close> show thesis by (rule interrupted)
    next
      case False
      with 2 have ne: "Errno (word_of_int m) \<noteq> EINTR" by (simp add: EINTR_iff errno_ret_def)
      from w f have "read M fd buf k = (Err (Errno (word_of_int m)), out_bytes outs 1, k')" by simp
      from this len ne 2(2) show thesis by (rule failed)
    qed
  qed
qed

text \<open>What a run of the loop has done when it stops with \<open>got\<close> bytes of the source in the buffer.\<close>

definition read_progress :: "byte list \<Rightarrow> byte list \<Rightarrow> nat \<Rightarrow> byte list \<Rightarrow> byte list \<Rightarrow> bool" where
  "read_progress inp buf got buf' inp' \<longleftrightarrow>
     length buf' = length buf \<and> got \<le> length buf \<and> got \<le> length inp
     \<and> take got buf' = take got inp \<and> inp' = drop got inp"

lemma read_progress_step:
  assumes "read_progress inp buf got mid inp1" and "length out = length buf - got"
    and "n \<le> length out" and "n \<le> length inp1" and "take n out = take n inp1"
  shows "read_progress inp buf (got + n) (take got mid @ out) (drop n inp1)"
  using assms by (auto simp: read_progress_def take_add add.commute)

lemma read_progress_retry:
  assumes "read_progress inp buf got mid inp1" and "length out = length buf - got"
  shows "read_progress inp buf got (take got mid @ out) inp1"
  using assms by (auto simp: read_progress_def)

text \<open>One round of the loop: after data, and after an interruption.\<close>

lemma read_all_from_more:
  assumes "got < length mid" and "read M fd (drop got mid) k = (Ok (of_nat n), out, k')" and "n \<noteq> 0" and "n < 2 ^ 63"
    and "length mid < 2 ^ 63"
  shows "read_all_from M fd got mid k = read_all_from M fd (got + n) (take got mid @ out) k'"
proof -
  have un: "unat (of_nat n :: usize) = n" using assms(4) by (rule unat_of_nat_usize)
  with assms(3) have "(of_nat n :: usize) \<noteq> 0" by (metis unat_0)
  moreover have "(got + n) mod 2 ^ 64 = got + n" using assms(1,4,5) by simp
  ultimately show ?thesis using assms(1,2) un by (subst read_all_from.simps) simp
qed

lemma read_all_from_again:
  assumes "got < length mid" and "read M fd (drop got mid) k = (Err EINTR, out, k')"
  shows "read_all_from M fd got mid k = read_all_from M fd got (take got mid @ out) k'"
  using assms by (subst read_all_from.simps) simp

lemma read_all_from_correct:
  assumes "read_contract M fd src" and "eintr_bounded M ''READ'' \<mu>" and "length buf < 2 ^ 63"
    and "read_progress inp buf got mid (src k)"
  shows "\<exists>r buf' k' n. read_all_from M fd got mid k = Some (r, buf', k')
     \<and> read_progress inp buf n buf' (src k')
     \<and> (r = Ok (of_nat n) \<and> (n = length buf \<or> src k' = [])
        \<or> (\<exists>e. r = Err e \<and> e \<noteq> EINTR \<and> n < length buf))"
  using assms(4)
proof (induction "(length buf - got, \<mu> k)" arbitrary: got mid k
    rule: wf_induct_rule [OF wf_lex_prod [OF wf_less_than wf_less_than]])
  case 1
  note IH = 1(1) and prog = 1(2)
  then have len: "length mid = length buf" "got \<le> length buf" by (simp_all add: read_progress_def)
  show ?case
  proof (cases "got < length mid")
    case False
    with len prog show ?thesis
      by (subst read_all_from.simps) auto
  next
    case True
    have bnd: "0 < length (drop got mid)" "length (drop got mid) < 2 ^ 63"
      using True len assms(3) by simp_all
    from assms(1,2) bnd show ?thesis
    proof (cases rule: read_cases [where k = k])
      case (data n out k')
      then have step: "read_progress inp buf (got + n) (take got mid @ out) (src k')"
        using read_progress_step [OF prog, of out n] len by simp
      show ?thesis
      proof (cases "n = 0")
        case True
        with data step \<open>got < length mid\<close> show ?thesis
          by (subst read_all_from.simps) (auto intro!: exI [of _ got])
      next
        case n: False
        have "((length buf - (got + n), \<mu> k'), (length buf - got, \<mu> k)) \<in> less_than <*lex*> less_than"
          using n True len by auto
        from IH [OF this step] show ?thesis
          using read_all_from_more [OF True data(1) n] data bnd len assms(3) by simp
      qed
    next
      case (interrupted out k')
      have step: "read_progress inp buf got (take got mid @ out) (src k')"
        using read_progress_retry [OF prog, of out] interrupted len by simp
      have "((length buf - got, \<mu> k'), (length buf - got, \<mu> k)) \<in> less_than <*lex*> less_than"
        using interrupted by auto
      from IH [OF this step] show ?thesis by (simp add: read_all_from_again [OF True interrupted(1)])
    next
      case (failed e out k')
      have "read_progress inp buf got (take got mid @ out) (src k')"
        using read_progress_retry [OF prog, of out] failed len by simp
      with failed(1,3) True len show ?thesis
        by (subst read_all_from.simps) auto
    qed
  qed
qed

text \<open>
  C8: \<open>read_all\<close> ends, and never panics: on success it has read as many bytes as fit the buffer and
  the source has, in order, and no more; on an error, which is never \<open>EINTR\<close>, the bytes consumed
  so far are at the front of the buffer. The buffer keeps its length.
\<close>
theorem read_all_fills:
  assumes "read_contract M fd src" and "eintr_bounded M ''READ'' \<mu>" and "length buf < 2 ^ 63"
  shows "\<exists>r buf' k' n. read_all M fd buf k = Some (r, buf', k')
     \<and> length buf' = length buf \<and> take n buf' = take n (src k) \<and> src k' = drop n (src k)
     \<and> (r = Ok (of_nat n) \<and> n = min (length buf) (length (src k))
        \<or> (\<exists>e. r = Err e \<and> e \<noteq> EINTR \<and> n < length buf \<and> n \<le> length (src k)))"
proof -
  have "read_progress (src k) buf 0 buf (src k)" by (simp add: read_progress_def)
  from read_all_from_correct [OF assms this] show ?thesis
    unfolding read_all_def read_progress_def by fastforce
qed

text \<open>Three bytes of a three-byte source into a four-byte buffer, after one interruption.\<close>
theorem read_all_fills_witness:
  "\<exists>r buf' k' n. read_all two_byte_mach 0 [0, 0, 0, 0] ([7, 8, 9], 1) = Some (r, buf', k')
     \<and> length buf' = length [0, 0, 0, 0 :: byte]
     \<and> take n buf' = take n [7, 8, 9] \<and> fst k' = drop n [7, 8, 9]
     \<and> (r = Ok (of_nat n) \<and> n = length [7, 8, 9 :: byte]
        \<or> (\<exists>e. r = Err e \<and> e \<noteq> EINTR \<and> n < length [0, 0, 0, 0 :: byte] \<and> n \<le> length [7, 8, 9 :: byte]))"
  using read_all_fills [OF two_byte_read [of 0] two_byte_eintr, of "[0, 0, 0, 0]" "([7, 8, 9], 1)"]
  by simp

text \<open>
  The reads of a machine whose state is what is left of one file: at most 4096 bytes a call, and
  never an error.
\<close>

definition file_read :: "arg list \<Rightarrow> byte list \<Rightarrow> usize \<times> arg list \<times> byte list" where
  "file_read args k = (case args of
       [Val fd, MutPtr b, Val len] \<Rightarrow> (let m = min 4096 (min (length b) (length k))
          in (of_nat m, [Val fd, MutPtr (take m k @ drop m b), Val len], drop m k))
     | _ \<Rightarrow> (0, args, k))"

lemma file_read_no_errno: "\<not> errno_ret (fst (file_read args k)) m"
proof
  assume err: "errno_ret (fst (file_read args k)) m"
  have "\<exists>n < 2 ^ 63. fst (file_read args k) = of_nat n"
    unfolding file_read_def Let_def by (fastforce split: list.splits arg.splits intro: exI [of _ "min 4096 _"] exI [of _ 0])
  with from_ret_errno_ret [OF err] show False using from_ret_of_nat by auto
qed

lemma file_read_contract:
  assumes "\<And>args k. sys M ''READ'' args k = file_read args k"
  shows "read_contract M f (\<lambda>k. k)"
  unfolding read_contract_def assms
proof (intro allI impI)
  fix buf k :: "byte list" and ret outs k'
  let ?m = "min 4096 (min (length buf) (length k))"
  assume pos: "0 < length buf" and call: "file_read [Val (scast f), MutPtr buf, len_arg buf] k = (ret, outs, k')"
  then have eqs: "ret = of_nat ?m" "out_bytes outs 1 = take ?m k @ drop ?m buf" "k' = drop ?m k"
    by (auto simp: file_read_def out_bytes_def Let_def)
  have "?m \<le> length buf \<and> ret = of_nat ?m \<and> ?m \<le> length k \<and> (?m = 0 \<longrightarrow> k = [])
      \<and> take ?m (out_bytes outs 1) = take ?m k \<and> k' = drop ?m k"
    using pos unfolding eqs by (auto simp: min_def)
  then show "length (out_bytes outs 1) = length buf \<and>
      ((\<exists>n \<le> length buf. ret = of_nat n \<and> n \<le> length k \<and> (n = 0 \<longrightarrow> k = [])
          \<and> take n (out_bytes outs 1) = take n k \<and> k' = drop n k)
       \<or> (\<exists>m. errno_ret ret m \<and> k' = k))"
    unfolding eqs by auto
qed

lemma file_read_eintr:
  assumes "\<And>args k. sys M ''READ'' args k = file_read args k"
  shows "eintr_bounded M ''READ'' \<mu>"
  unfolding eintr_bounded_def assms using file_read_no_errno [of _ _ 4] EINTR_ret by (metis fst_conv)

section \<open>Descriptors\<close>

text \<open>What every read keeps, the loop keeps; and it does not panic.\<close>

lemma read_all_from_keeps:
  assumes "read_all_from M fd tot buf k = Some y"
    and "\<And>b k r out k'. read M fd b k = (r, out, k') \<Longrightarrow> f k' = f k"
  shows "fst y \<noteq> Panic \<and> f (snd (snd y)) = f k"
proof -
  have "(\<forall>b k r out k'. read M fd b k = (r, out, k') \<longrightarrow> f k' = f k) \<longrightarrow> fst y \<noteq> Panic \<and> f (snd (snd y)) = f k"
  proof (rule read_all_from.raw_induct
      [where P = "\<lambda>M fd tot buf k y. (\<forall>b k r out k'. read M fd b k = (r, out, k') \<longrightarrow> f k' = f k)
         \<longrightarrow> fst y \<noteq> Panic \<and> f (snd (snd y)) = f k", OF _ assms(1)], intro impI)
    fix rec :: "'a mach \<Rightarrow> i32 \<Rightarrow> nat \<Rightarrow> byte list \<Rightarrow> 'a \<Rightarrow> (usize res \<times> byte list \<times> 'a) option"
    fix M fd tot buf k y
    assume IH: "\<And>M fd tot buf k y. rec M fd tot buf k = Some y \<Longrightarrow>
        (\<forall>b k r out k'. read M fd b k = (r, out, k') \<longrightarrow> f k' = f k) \<longrightarrow> fst y \<noteq> Panic \<and> f (snd (snd y)) = f k"
      and step: "(if tot < length buf then
          (case read M fd (drop tot buf) k of (Ok n, tail, k') \<Rightarrow>
              if n = 0 then Some (Ok (of_nat tot), take tot buf @ tail, k')
              else rec M fd ((tot + unat n) mod 2 ^ 64) (take tot buf @ tail) k'
          | (Err e, tail, k') \<Rightarrow>
              if e = EINTR then rec M fd tot (take tot buf @ tail) k'
              else Some (Err e, take tot buf @ tail, k')
          | (Panic, tail, k') \<Rightarrow> Some (Panic, take tot buf @ tail, k'))
          else Some (Ok (of_nat tot), buf, k)) = Some y"
      and keeps: "\<forall>b k r out k'. read M fd b k = (r, out, k') \<longrightarrow> f k' = f k"
    obtain v out k1 where rd: "read M fd (drop tot buf) k = (v, out, k1)" using prod_cases3 by blast
    then have "v \<noteq> Panic" by (auto simp: read_def call_buf_def split: prod.splits)
    moreover have k1: "f k1 = f k" using keeps rd by blast
    moreover have "fst y \<noteq> Panic \<and> f (snd (snd y)) = f k" if "rec M fd tot' buf' k1 = Some y" for tot' buf'
      using IH [OF that] keeps k1 by simp
    ultimately show "fst y \<noteq> Panic \<and> f (snd (snd y)) = f k"
      using step by (cases v) (auto simp: rd split: if_splits)
  qed
  with assms(2) show ?thesis by blast
qed

lemma read_opened: "keeps_fds M opened ''READ'' \<Longrightarrow> read M fd buf k = (r, out, k') \<Longrightarrow> opened k' = opened k"
  by (auto simp: read_def call_buf_def dest: keeps_fdsD split: prod.splits)

lemma read_all_opened:
  assumes "keeps_fds M opened ''READ''" and "read_all M fd buf k = Some (r, out, k')"
  shows "r \<noteq> Panic \<and> opened k' = opened k"
  using read_all_from_keeps [where f = opened, OF assms(2) [unfolded read_all_def] read_opened [OF assms(1)]] by simp

lemma fd_write_opened: "keeps_fds M opened ''WRITE'' \<Longrightarrow> fd_write M fd buf k = (r, k') \<Longrightarrow> opened k' = opened k"
  by (auto simp: fd_write_def call_usize_def dest: keeps_fdsD split: prod.splits)

lemma write_all_opened:
  assumes "keeps_fds M opened ''WRITE''" and "write_all M fd buf k = Some y"
  shows "opened (snd y) = opened k"
proof -
  have "keeps_fds M opened ''WRITE'' \<longrightarrow> opened (snd y) = opened k"
  proof (rule write_all.raw_induct
      [where P = "\<lambda>M fd buf k y. keeps_fds M opened ''WRITE'' \<longrightarrow> opened (snd y) = opened k", OF _ assms(2)])
    fix rec :: "'a mach \<Rightarrow> i32 \<Rightarrow> byte list \<Rightarrow> 'a \<Rightarrow> (unit res \<times> 'a) option"
    fix M fd buf k y
    assume IH: "\<And>M fd buf k y. rec M fd buf k = Some y \<Longrightarrow> keeps_fds M opened ''WRITE'' \<longrightarrow> opened (snd y) = opened k"
      and step: "(if buf = [] then Some (Ok (), k)
          else case fd_write M fd buf k of
            (Ok n, k') \<Rightarrow>
              if n = 0 then Some (Err EIO, k')
              else if unat n \<le> length buf then rec M fd (drop (unat n) buf) k'
              else Some (Panic, k')
          | (Err e, k') \<Rightarrow> if e = EINTR then rec M fd buf k' else Some (Err e, k')
          | (Panic, k') \<Rightarrow> Some (Panic, k')) = Some y"
    show "keeps_fds M opened ''WRITE'' \<longrightarrow> opened (snd y) = opened k"
    proof
      assume keeps: "keeps_fds M opened ''WRITE''"
      obtain r k' where w: "fd_write M fd buf k = (r, k')" by force
      have k': "opened k' = opened k" using fd_write_opened [OF keeps w] .
      have rest: "rec M fd b k' = Some y \<Longrightarrow> opened (snd y) = opened k" for b using IH keeps k' by metis
      show "opened (snd y) = opened k"
        using step rest k' by (cases r) (auto simp: w split: if_splits)
    qed
  qed
  with assms(1) show ?thesis by blast
qed

end
