(* ===== verification/Resolver.thy ===== *)
theory Resolver
  imports Dns Fd_Loops
begin

text \<open>
  The exchange with the name servers (\<open>query\<close>, \<open>resolve_a\<close> and \<open>resolve_aaaa\<close> of \<open>src/dns.rs\<close>) as a whole: what it
  leaves open, that it never panics, which replies it accepts, and what it makes of every course the
  exchange can take.
\<close>

section \<open>Descriptors of the resolver\<close>

definition dns_accounting :: "'k mach \<Rightarrow> ('k \<Rightarrow> i32 set) \<Rightarrow> bool" where
  "dns_accounting M opened \<longleftrightarrow>
     makes_fd M opened ''OPENAT'' \<and> makes_fd M opened ''SOCKET'' \<and> closes_fd M opened
     \<and> list_all (keeps_fds M opened)
         [''READ'', ''GETRANDOM'', ''SENDTO'', (case m_arch M of X86_64 \<Rightarrow> ''POLL'' | Aarch64 \<Rightarrow> ''PPOLL''), ''RECVFROM'']"

lemma read_resolv_opened:
  assumes "keeps_fds M opened ''READ''" and "closes_fd M opened"
  shows "read_resolv M f tot raw k = (r, k') \<Longrightarrow>
    case r of Ok _ \<Rightarrow> opened k' = opened k | Err _ \<Rightarrow> opened k' = opened k - {f} | Panic \<Rightarrow> True"
proof (induction "4096 - tot" arbitrary: tot raw k rule: less_induct)
  case less
  obtain v out k1 where rd: "read M f (drop tot raw) k = (v, out, k1)" using prod_cases3 by blast
  have k1: "opened k1 = opened k" using read_opened [OF assms(1) rd] .
  show ?case
  proof (cases v)
    case (Ok n)
    show ?thesis
    proof (cases "n = 0 \<or> 4096 \<le> tot + unat n")
      case True
      with less.prems rd Ok k1 show ?thesis by (auto simp: read_resolv.simps [of M f tot])
    next
      case False
      then have "4096 - (tot + unat n) < 4096 - tot" using unat_pos [of n] by auto
      moreover have "read_resolv M f (tot + unat n) (take tot raw @ out) k1 = (r, k')"
        using less.prems rd Ok False by (simp add: read_resolv.simps [of M f tot])
      ultimately show ?thesis
        using less.hyps [of "tot + unat n" "take tot raw @ out" k1] k1 by (simp cong: res.case_cong)
    qed
  next
    case (Err e)
    with less.prems rd close_opened [OF assms(2), of f k1] k1 show ?thesis
      by (auto simp: read_resolv.simps [of M f tot] ignore_close io_err_def)
  next
    case Panic
    with less.prems rd show ?thesis by (auto simp: read_resolv.simps [of M f tot])
  qed
qed

lemma read_nameservers_opened:
  assumes "dns_accounting M opened" and "read_nameservers M k = (r, k')" and "r \<noteq> Panic"
  shows "opened k' = opened k"
proof -
  have acc: "makes_fd M opened ''OPENAT''" "closes_fd M opened" "keeps_fds M opened ''READ''"
    using assms(1) by (simp_all add: dns_accounting_def)
  from acc(1) show ?thesis
  proof (cases rule: makes_fd_i32
      [of _ _ _ "[Val (scast AT_FDCWD), cstr resolv_conf, Val (scast O_RDONLY), Val (ucast (0 :: u32))]" k])
    case (failed e k1)
    then have "fd_open M resolv_conf O_RDONLY 0 k = (Err e, k1)" by (simp add: fd_open_def openat_def)
    with assms(2) failed show ?thesis by (auto simp: read_nameservers_def io_bind_Err)
  next
    case (made f k1)
    then have opened: "fd_open M resolv_conf O_RDONLY 0 k = (Ok f, k1)" by (simp add: fd_open_def openat_def)
    obtain v k2 where rd: "read_resolv M f 0 (replicate 4096 0) k1 = (v, k2)" by force
    note post = read_resolv_opened [OF acc(3,2) rd]
    show ?thesis
    proof (cases v)
      case (Ok p)
      then have "r = res_bind (slice (fst p) 0 (snd p)) parse_nameservers \<and> k' = snd (close M f k2)"
        using assms(2) opened rd
        by (auto simp: read_nameservers_def io_bind_Ok ignore_close split: prod.splits)
      with post Ok made close_opened [OF acc(2), of f k2] show ?thesis by auto
    next
      case (Err e)
      with assms(2) opened rd post made show ?thesis
        by (auto simp: read_nameservers_def io_bind_Ok io_bind_Err)
    next
      case Panic
      with assms(2,3) opened rd show ?thesis by (simp add: read_nameservers_def io_bind_Ok io_bind_def)
    qed
  qed
qed

lemma socket_calls_opened:
  assumes "dns_accounting M opened"
  shows "sendto_in M sock qry fl dest k = (rs, k') \<Longrightarrow> opened k' = opened k"
    and "poll M fds t k = (rp, out, k') \<Longrightarrow> opened k' = opened k"
    and "recvfrom_in M sock buf fl k = (rr, out', k') \<Longrightarrow> opened k' = opened k"
    and "getrandom M buf fl k = (rg, out', k') \<Longrightarrow> opened k' = opened k"
  using assms
  by (auto simp: dns_accounting_def sendto_in_def call_usize_def poll_def poll_args_def recvfrom_in_def
      getrandom_def call_buf_def dest: keeps_fdsD split: prod.splits arch.splits)

lemma ask_opened:
  assumes "dns_accounting M opened"
  shows "ask M sock ident qry servers k = (r, k') \<Longrightarrow> r \<noteq> Panic \<Longrightarrow> opened k' = opened k"
proof (induction servers arbitrary: k)
  case (Cons server servers)
  then show ?case
    using socket_calls_opened [OF assms]
    by (auto simp: Let_def split: prod.splits res.splits if_splits)
qed (auto simp: io_err_def)

lemma query_opened:
  assumes "dns_accounting M opened" and "query M host qtype k = (r, k')" and "r \<noteq> Panic"
  shows "opened k' = opened k"
proof -
  have acc: "makes_fd M opened ''SOCKET''" "closes_fd M opened"
    using assms(1) by (simp_all add: dns_accounting_def)
  obtain v k1 where ns: "read_nameservers M k = (v, k1)" by force
  show ?thesis
  proof (cases v)
    case (Err e)
    with ns assms read_nameservers_opened [OF assms(1) ns] show ?thesis
      by (auto simp: query_def io_bind_Err)
  next
    case Panic
    with ns assms show ?thesis by (simp add: query_def io_bind_def)
  next
    case (Ok p)
    then have k1: "opened k1 = opened k" using read_nameservers_opened [OF assms(1) ns] by simp
    obtain servers count where p: "p = (servers, count)" by force
    obtain g idb k2 where gr: "getrandom M (replicate 2 0) 0 k1 = (g, idb, k2)" using prod_cases3 by blast
    have k2: "opened k2 = opened k" using socket_calls_opened(4) [OF assms(1) gr] k1 by simp
    have q: "query M host qtype k = (case g of
         Panic \<Rightarrow> (Panic, k2) | Err e \<Rightarrow> (Err e, k2)
       | Ok _ \<Rightarrow> (case build_query (replicate 256 0) (be_word idb) host qtype of
            Panic \<Rightarrow> (Panic, k2) | Err e \<Rightarrow> (Err e, k2)
          | Ok (qbuf, qlen) \<Rightarrow>
              io_bind (socket M AF_INET SOCK_DGRAM 0) (\<lambda>sock k.
                case ask M sock (be_word idb) (take qlen qbuf) (concat (replicate 2 (take count servers))) k of
                  (Panic, k) \<Rightarrow> (Panic, k)
                | (result, k) \<Rightarrow> io_ignore (close M sock) (\<lambda>k. (result, k)) k) k2))"
      using ns Ok p gr by (simp add: query_def io_bind_Ok split: res.splits)
    from acc(1) show ?thesis
    proof (cases rule: makes_fd_i32
        [of _ _ _ "[Val (scast AF_INET), Val (scast SOCK_DGRAM), Val (scast (0 :: i32))]" k2])
      case (failed e k3)
      then have "socket M AF_INET SOCK_DGRAM 0 k2 = (Err e, k3)" by (simp add: socket_def)
      with q assms(2,3) k2 failed show ?thesis
        by (auto simp: io_bind_Err split: res.splits prod.splits)
    next
      case (made sock k3)
      then have "socket M AF_INET SOCK_DGRAM 0 k2 = (Ok sock, k3)" by (simp add: socket_def)
      with q assms(2,3) k2 made ask_opened [OF assms(1)] close_opened [OF acc(2)] show ?thesis
        by (auto simp: io_bind_Ok ignore_close split: res.splits prod.splits)
    qed
  qed
qed

section \<open>No panic\<close>

text \<open>
  A call that fills the buffer of its argument \<open>i\<close>: the buffer keeps its length and a result that is
  no error counts bytes within it.
\<close>

definition fills_buf :: "'k mach \<Rightarrow> string \<Rightarrow> nat \<Rightarrow> bool" where
  "fills_buf M s i \<longleftrightarrow>
     (\<forall>args k ret outs k' b. sys M s args k = (ret, outs, k') \<longrightarrow> i < length args \<longrightarrow> args ! i = MutPtr b \<longrightarrow>
        length (out_bytes outs i) = length b \<and> (\<forall>v. from_ret ret = Ok v \<longrightarrow> unat v \<le> length b))"

lemma fills_bufD:
  assumes "fills_buf M s i" and "sys M s args k = (ret, outs, k')" and "i < length args" and "args ! i = MutPtr b"
  shows "length (out_bytes outs i) = length b" and "from_ret ret = Ok v \<Longrightarrow> unat v \<le> length b"
  using assms unfolding fills_buf_def by blast+

lemma read_fills:
  assumes "fills_buf M ''READ'' 1" and "read M f buf k = (r, out, k')"
  shows "length out = length buf \<and> r \<noteq> Panic \<and> (\<forall>v. r = Ok v \<longrightarrow> unat v \<le> length buf)"
proof -
  obtain ret outs where call: "sys M ''READ'' [Val (scast f), MutPtr buf, len_arg buf] k = (ret, outs, k')"
      and r: "r = from_ret ret" "out = out_bytes outs 1"
    using assms(2) by (auto simp: read_def call_buf_def split: prod.splits)
  from fills_bufD [OF assms(1) call, of buf] show ?thesis by (simp add: r)
qed

lemma recvfrom_in_fills:
  assumes "fills_buf M ''RECVFROM'' 1" and "recvfrom_in M sock buf fl k = (r, out, k')"
  shows "length out = length buf \<and> r \<noteq> Panic \<and> (\<forall>v from. r = Ok (v, from) \<longrightarrow> unat v \<le> length buf)"
proof -
  let ?args = "[Val (scast sock), MutPtr buf, len_arg buf, Val (scast fl), MutPtr (enc_SockAddrIn SockAddrIn_zero),
      MutPtr (le_bytes 4 (16 :: u32))]"
  obtain ret outs where call: "sys M ''RECVFROM'' ?args k = (ret, outs, k')"
      and r: "r = map_res (\<lambda>n. (n, dec_SockAddrIn (out_bytes outs 4))) (from_ret ret)" "out = out_bytes outs 1"
    using assms(2) by (auto simp: recvfrom_in_def split: prod.splits)
  from fills_bufD [OF assms(1) call, of buf] show ?thesis by (cases "from_ret ret") (auto simp: r)
qed

lemma read_resolv_bounds:
  assumes "fills_buf M ''READ'' 1"
  shows "tot \<le> 4096 \<Longrightarrow> length raw = 4096 \<Longrightarrow> read_resolv M f tot raw k = (r, k') \<Longrightarrow>
    r \<noteq> Panic \<and> (\<forall>raw' n. r = Ok (raw', n) \<longrightarrow> n \<le> length raw')"
proof (induction "4096 - tot" arbitrary: tot raw k rule: less_induct)
  case less
  obtain v out k1 where rd: "read M f (drop tot raw) k = (v, out, k1)" using prod_cases3 by blast
  note fits = read_fills [OF assms rd]
  show ?case
  proof (cases v)
    case (Ok n)
    have len: "tot + unat n \<le> 4096" "length (take tot raw @ out) = 4096"
      using fits Ok less.prems(1,2) by (simp_all add: le_diff_conv2 add.commute)
    show ?thesis
    proof (cases "n = 0 \<or> 4096 \<le> tot + unat n")
      case True
      with less.prems(3) Ok rd len show ?thesis by (auto simp: read_resolv.simps [of M f tot])
    next
      case False
      with less.prems(3) Ok rd
      have rec: "read_resolv M f (tot + unat n) (take tot raw @ out) k1 = (r, k')"
        by (simp add: read_resolv.simps [of M f tot])
      have "4096 - (tot + unat n) < 4096 - tot" using False unat_pos [of n] len(1) by auto
      from less.hyps [OF this len rec] show ?thesis .
    qed
  next
    case (Err e)
    with less.prems(3) rd show ?thesis by (auto simp: read_resolv.simps [of M f tot] ignore_close io_err_apply)
  next
    case Panic
    with fits show ?thesis by simp
  qed
qed

lemma call_i32_no_panic: "call_i32 M s args k = (r, k') \<Longrightarrow> r \<noteq> Panic"
  by (auto simp: call_i32_def split: prod.splits)

lemma parse_nameservers_no_panic: "parse_nameservers raw \<noteq> Panic"
  by (simp add: parse_nameservers_def split: option.splits prod.splits)

lemma read_nameservers_no_panic:
  assumes "fills_buf M ''READ'' 1" and "read_nameservers M k = (r, k')"
  shows "r \<noteq> Panic"
proof -
  obtain v k1 where o: "fd_open M resolv_conf O_RDONLY 0 k = (v, k1)" by force
  then have v: "v \<noteq> Panic" by (auto simp: fd_open_def openat_def dest: call_i32_no_panic)
  show ?thesis
  proof (cases v)
    case (Ok f)
    obtain w k2 where rd: "read_resolv M f 0 (replicate 4096 0) k1 = (w, k2)" by force
    note bounds = read_resolv_bounds [OF assms(1) _ _ rd, simplified]
    then show ?thesis
      using assms(2) o Ok rd
      by (cases w) (auto simp: read_nameservers_def io_bind_def ignore_close res_bind_eq_Panic
          parse_nameservers_no_panic)
  qed (use assms(2) o v in \<open>auto simp: read_nameservers_def io_bind_def\<close>)
qed

lemma socket_calls_no_panic:
  "sendto_in M sock qry fl dest k = (rs, k') \<Longrightarrow> rs \<noteq> Panic"
  "poll M fds t k = (rp, out, k') \<Longrightarrow> rp \<noteq> Panic"
  "getrandom M buf fl k = (rg, out', k') \<Longrightarrow> rg \<noteq> Panic"
  by (auto simp: sendto_in_def call_usize_def poll_def getrandom_def call_buf_def split: prod.splits)

lemma ask_bounds:
  assumes "fills_buf M ''RECVFROM'' 1"
  shows "ask M sock ident qry servers k = (r, k') \<Longrightarrow>
    r \<noteq> Panic \<and> (\<forall>rbuf n. r = Ok (rbuf, n) \<longrightarrow> length rbuf = 512 \<and> n \<le> 512)"
proof (induction servers arbitrary: k)
  case (Cons server servers)
  have two: "index out 0 \<noteq> Panic" "index out 1 \<noteq> Panic" "index out 0 \<noteq> Err e" "index out 1 \<noteq> Err e"
    if "recvfrom_in M sock (replicate 512 0) 0 j = (Ok p, out, j')" for out p j j' e
    using recvfrom_in_fills [OF assms that] by (simp_all add: index_def)
  show ?case
    using Cons two socket_calls_no_panic recvfrom_in_fills [OF assms, of sock "replicate 512 0" 0]
    by (fastforce simp: Let_def split: prod.splits res.splits if_splits)
qed (auto simp: io_err_def)

lemma query_bounds:
  assumes "fills_buf M ''READ'' 1" and "fills_buf M ''RECVFROM'' 1" and "query M host qtype k = (r, k')"
  shows "r \<noteq> Panic \<and> (\<forall>rbuf n. r = Ok (rbuf, n) \<longrightarrow> length rbuf = 512 \<and> n \<le> 512)"
proof -
  have bq: "build_query buf ident host qtype \<noteq> Panic" for buf ident by (simp add: build_query_wire)
  have sock: "socket M d t p j = (v, j') \<Longrightarrow> v \<noteq> Panic" for d t p j v j'
    by (auto simp: socket_def dest: call_i32_no_panic)
  show ?thesis
    using assms(3) bq sock read_nameservers_no_panic [OF assms(1)] ask_bounds [OF assms(2)] socket_calls_no_panic(3)
    by (fastforce simp: query_def io_bind_def ignore_close split: prod.splits res.splits)
qed

lemma resolve_accounted:
  assumes "dns_accounting M opened" and "fills_buf M ''READ'' 1" and "fills_buf M ''RECVFROM'' 1"
  shows "(\<forall>r k'. resolve_a M host k = (r, k') \<longrightarrow> r \<noteq> Panic \<and> opened k' = opened k)
   \<and> (\<forall>r k'. resolve_aaaa M host k = (r, k') \<longrightarrow> r \<noteq> Panic \<and> opened k' = opened k)"
proof -
  have "r \<noteq> Panic \<and> opened k' = opened k"
    if "io_bind (query M host qt) (\<lambda>(buf, n) k. (f buf n, k)) k = (r, k')"
      and "\<And>buf n. n \<le> length buf \<Longrightarrow> f buf n \<noteq> Panic"
    for f :: "byte list \<Rightarrow> nat \<Rightarrow> AddrList res" and qt r k'
  proof -
    obtain q k1 where q: "query M host qt k = (q, k1)" by force
    note bounds = query_bounds [OF assms(2,3) q]
    have "opened k1 = opened k" using query_opened [OF assms(1) q] bounds by blast
    then show ?thesis using that bounds q by (cases q) (auto simp: io_bind_def)
  qed
  then show ?thesis
    by (simp add: resolve_a_def resolve_aaaa_def a.parse_no_panic aaaa.parse_no_panic)
qed

text \<open>
  C11: the resolver leaks no descriptor and never panics: whether it resolves the name or fails, at
  whatever step and whatever bytes the configuration file and the servers hold, the set of open
  descriptors afterwards is the one before.
\<close>
theorem resolve_no_leak:
  assumes "dns_accounting M opened" and "fills_buf M ''READ'' 1" and "fills_buf M ''RECVFROM'' 1"
  shows "(\<forall>r k'. resolve_a M host k = (r, k') \<longrightarrow> r \<noteq> Panic \<and> opened k' = opened k)
   \<and> (\<forall>r k'. resolve_aaaa M host k = (r, k') \<longrightarrow> r \<noteq> Panic \<and> opened k' = opened k)"
  using assms by (rule resolve_accounted)

text \<open>
  C12: an answer the resolver accepts came from a server it asked and carries the identifier of its
  query: whenever the exchange succeeds, the last datagram received had at least twelve bytes, was
  sent from the address of one of the configured servers, and starts with the query's identifier.
\<close>
theorem ask_authentic:
  assumes "ask M sock ident qry servers k = (Ok (rbuf, n), k')"
  shows "\<exists>k1 v from. recvfrom_in M sock (replicate 512 0) 0 k1 = (Ok (v, from), rbuf, k')
     \<and> n = unat v \<and> 12 \<le> n \<and> SockAddrIn_octets from \<in> set servers
     \<and> take 2 rbuf = be_bytes 2 ident"
  using assms
proof (induction servers arbitrary: k)
  case (Cons server servers)
  have two: "take 2 xs = be_bytes 2 w" if "index xs 0 = Ok a" "index xs 1 = Ok b" "be_word [a, b] = (w :: u16)" for xs a b w
  proof -
    from that have "take 2 xs = [a, b]"
      by (auto simp: index_def numeral_2_eq_2 take_Suc_conv_app_nth split: if_splits)
    with that(3) show ?thesis using be_bytes_be_word [of "[a, b]", where 'a = 16] by (simp add: two_fold)
  qed
  show ?case
    using Cons two
    by (fastforce simp: Let_def split: prod.splits res.splits if_splits)
qed (simp add: io_err_def)

text \<open>
  A kernel whose name server 8.8.8.8 answers every datagram with a twelve-byte reply to query 7.
\<close>

definition reply_mach :: "unit mach" where
  "reply_mach = \<lparr>m_arch = X86_64, m_kernel = \<lambda>n args k. (case args of
       [Val fd, MutPtr b, Val len, Val fl, MutPtr ad, MutPtr al] \<Rightarrow>
         (12, [Val fd, MutPtr (0 # 7 # replicate 510 0), Val len, Val fl,
               MutPtr (enc_SockAddrIn (SockAddrIn_new [8, 8, 8, 8] 53)), MutPtr al], k)
     | _ \<Rightarrow> (1, args, k))\<rparr>"

theorem ask_authentic_witness:
  "\<exists>k1 v from. recvfrom_in reply_mach 3 (replicate 512 0) 0 k1 = (Ok (v, from), 0 # 7 # replicate 510 0, ())
     \<and> 12 = unat v \<and> SockAddrIn_octets from \<in> {[8, 8, 8, 8]}
     \<and> take 2 (0 # 7 # replicate 510 (0 :: byte)) = be_bytes 2 (7 :: u16)"
proof -
  have oct: "SockAddrIn_octets (dec_SockAddrIn (enc_SockAddrIn (SockAddrIn_new [8, 8, 8, 8] 53))) = [8, 8, 8, 8]"
    using inet.through_bytes [of "[8, 8, 8, 8]"] by simp
  have "ask reply_mach 3 7 [1] [[8, 8, 8, 8]] () = (Ok (0 # 7 # replicate 510 0, 12), ())"
    using oct
    by (simp add: reply_mach_def sendto_in_def poll_def poll_args_def recvfrom_in_def call_usize_def sys_def
        out_bytes_def from_ret_def ERRNO_MAX_def index_def be_word_def Let_def)
  from ask_authentic [OF this] show ?thesis by simp
qed

lemma three_fds_accounting: "dns_accounting three_fds set"
  using three_fds_makes [of "''OPENAT''"] three_fds_makes [of "''SOCKET''"] three_fds_closes three_fds_keeps
  by (simp add: dns_accounting_def fd_nrs) (simp add: three_fds_def fd_nrs)

theorem resolve_no_leak_witness:
  "fst (resolve_a three_fds [97] [0]) = Err EIO \<and> set (snd (resolve_a three_fds [97] [0])) = {0}"
proof -
  have e: "resolve_a three_fds [97] [0] = (Err EIO, [0])"
    by (simp add: resolve_a_def query_def read_nameservers_def io_bind_def fd_open_def openat_def call_i32_def
        sys_def three_fds_def fd_nrs from_ret_i32_def from_ret_def ERRNO_MAX_def read_resolv.simps read_def
        call_buf_def io_ignore_def io_err_def close_def call_unit_def)
  have "fills_buf three_fds ''READ'' 1" "fills_buf three_fds ''RECVFROM'' 1"
    by (auto simp: fills_buf_def sys_def three_fds_def fd_nrs out_bytes_def from_ret_def ERRNO_MAX_def)
  from resolve_no_leak [OF three_fds_accounting this, of "[97]" "[0]"] e show ?thesis by simp
qed

section \<open>Resolving a name\<close>















































end
