(* ===== verification/Vdso.thy ===== *)
theory Vdso
  imports Fd_Loops
begin

text \<open>
  Finding the vDSO's \<open>clock_gettime\<close> (\<open>src/vdso.rs\<close>): the base address from \<open>/proc/self/auxv\<close>, the
  ELF image parsed in memory, and the cache of the outcome. The memory of the process is a map from
  addresses to bytes; address arithmetic wraps, as in a release build.
\<close>

type_synonym memory = "usize \<Rightarrow> byte"

section \<open>Constants\<close>

definition SYMBOL :: "arch \<Rightarrow> byte list" where
  "SYMBOL a = (case a of
       X86_64 \<Rightarrow> ascii ''__vdso_clock_gettime'' | Aarch64 \<Rightarrow> ascii ''__kernel_clock_gettime'')"

definition E_MACHINE :: "arch \<Rightarrow> u16" where
  "E_MACHINE a = (case a of X86_64 \<Rightarrow> 62 | Aarch64 \<Rightarrow> 183)"

definition FAILED :: usize where "FAILED = 1"
definition AT_NULL :: u64 where "AT_NULL = 0"
definition AT_SYSINFO_EHDR :: u64 where "AT_SYSINFO_EHDR = 33"
definition PT_LOAD :: u32 where "PT_LOAD = 1"
definition PT_DYNAMIC :: u32 where "PT_DYNAMIC = 2"
definition DT_NULL :: i64 where "DT_NULL = 0"
definition DT_HASH :: i64 where "DT_HASH = 4"
definition DT_STRTAB :: i64 where "DT_STRTAB = 5"
definition DT_SYMTAB :: i64 where "DT_SYMTAB = 6"

section \<open>The auxiliary vector\<close>

function auxv_scan :: "byte list \<Rightarrow> nat \<Rightarrow> nat \<Rightarrow> usize option res" where
  "auxv_scan buf n i =
     (if i + 16 \<le> n then
        res_bind (slice buf i (i + 8)) (\<lambda>kb.
        res_bind (slice buf (i + 8) (i + 16)) (\<lambda>vb.
          let key = le_word kb; val = le_word vb in
          if key = AT_SYSINFO_EHDR then Ok (if val = 0 then None else Some val)
          else if key = AT_NULL then Ok None
          else auxv_scan buf n (i + 16)))
      else Ok None)"
  by pat_completeness auto
termination by (relation "measure (\<lambda>(buf, n, i). n - i)") auto

declare auxv_scan.simps [simp del]

definition auxv_path :: "byte list" where
  "auxv_path = ascii ''/proc/self/auxv''"

text \<open>\<open>.ok()?\<close> turns an error into \<open>None\<close>; here, before the descriptor is closed.\<close>

definition vdso_base :: "'k mach \<Rightarrow> 'k \<Rightarrow> (usize option res \<times> 'k) option" where
  "vdso_base M k = (case fd_open M auxv_path O_RDONLY 0 k of
       (Panic, k1) \<Rightarrow> Some (Panic, k1)
     | (Err _, k1) \<Rightarrow> Some (Ok None, k1)
     | (Ok fd, k1) \<Rightarrow> (case read_all M fd (replicate 4096 0) k1 of
           None \<Rightarrow> None
         | Some (Panic, buf, k2) \<Rightarrow> Some (Panic, k2)
         | Some (Err _, buf, k2) \<Rightarrow> Some (Ok None, k2)
         | Some (Ok n, buf, k2) \<Rightarrow>
             Some (io_ignore (close M fd) (\<lambda>k. (auxv_scan buf (unat n) 0, k)) k2)))"

section \<open>The ELF image\<close>

definition rd :: "nat \<Rightarrow> memory \<Rightarrow> usize \<Rightarrow> usize \<Rightarrow> 'a::len word" where
  "rd n mem p off = le_word (map (\<lambda>i. mem (p + off + of_nat i)) [0..<n])"

definition rd_u16 :: "memory \<Rightarrow> usize \<Rightarrow> usize \<Rightarrow> u16" where "rd_u16 mem p off = rd 2 mem p off"
definition rd_u32 :: "memory \<Rightarrow> usize \<Rightarrow> usize \<Rightarrow> u32" where "rd_u32 mem p off = rd 4 mem p off"
definition rd_u64 :: "memory \<Rightarrow> usize \<Rightarrow> usize \<Rightarrow> u64" where "rd_u64 mem p off = rd 8 mem p off"
definition rd_i64 :: "memory \<Rightarrow> usize \<Rightarrow> usize \<Rightarrow> i64" where "rd_i64 mem p off = rd 8 mem p off"

definition reloc :: "usize \<Rightarrow> i64 \<Rightarrow> u64 \<Rightarrow> usize" where
  "reloc base load_off vaddr = base + (load_off + vaddr)"

fun cstr_eq_from :: "memory \<Rightarrow> usize \<Rightarrow> byte list \<Rightarrow> bool" where
  "cstr_eq_from mem p [] \<longleftrightarrow> mem p = 0"
| "cstr_eq_from mem p (b # bs) \<longleftrightarrow> (if mem p \<noteq> b then False else cstr_eq_from mem (p + 1) bs)"

definition cstr_eq :: "memory \<Rightarrow> usize \<Rightarrow> byte list \<Rightarrow> bool" where
  "cstr_eq mem p target = cstr_eq_from mem p target"

text \<open>The program-header loop, from header \<open>i\<close> on: the load bias and the dynamic table.\<close>

fun phdr_scan ::
  "memory \<Rightarrow> usize \<Rightarrow> usize \<Rightarrow> usize \<Rightarrow> nat list \<Rightarrow> i64 option \<Rightarrow> usize option \<Rightarrow> i64 option \<times> usize option" where
  "phdr_scan mem base e_phoff e_phentsize [] load_off dyn = (load_off, dyn)"
| "phdr_scan mem base e_phoff e_phentsize (i # is) load_off dyn =
     (let ph = base + (e_phoff + of_nat i * e_phentsize);
          p_type = rd_u32 mem ph 0;
          p_offset = rd_u64 mem ph 8;
          p_vaddr = rd_u64 mem ph 16
      in if p_type = PT_LOAD \<and> load_off = None
         then phdr_scan mem base e_phoff e_phentsize is (Some (p_offset - p_vaddr)) dyn
         else if p_type = PT_DYNAMIC
         then phdr_scan mem base e_phoff e_phentsize is load_off (Some (base + p_offset))
         else phdr_scan mem base e_phoff e_phentsize is load_off dyn)"

record dyn_tabs =
  strtab :: "usize option"
  symtab :: "usize option"
  hash :: "usize option"

text \<open>The loop over the dynamic table, which runs to its \<open>DT_NULL\<close> entry; \<open>None\<close> if there is none.\<close>

partial_function (option) dyn_scan ::
  "memory \<Rightarrow> usize \<Rightarrow> i64 \<Rightarrow> usize \<Rightarrow> dyn_tabs \<Rightarrow> dyn_tabs option" where
  "dyn_scan mem base load_off d t =
     (let tag = rd_i64 mem d 0 in
      if tag = DT_NULL then Some t
      else let v = reloc base load_off (rd_u64 mem d 8) in
        dyn_scan mem base load_off (d + 16)
          (if tag = DT_STRTAB then t\<lparr>strtab := Some v\<rparr>
           else if tag = DT_SYMTAB then t\<lparr>symtab := Some v\<rparr>
           else if tag = DT_HASH then t\<lparr>hash := Some v\<rparr>
           else t))"

fun sym_scan :: "arch \<Rightarrow> memory \<Rightarrow> usize \<Rightarrow> i64 \<Rightarrow> usize \<Rightarrow> usize \<Rightarrow> nat list \<Rightarrow> usize option" where
  "sym_scan a mem base load_off stab ytab [] = None"
| "sym_scan a mem base load_off stab ytab (i # is) =
     (let sym = ytab + of_nat i * 24;
          st_name = rd_u32 mem sym 0;
          st_value = rd_u64 mem sym 8
      in if st_name = 0 \<or> st_value = 0 then sym_scan a mem base load_off stab ytab is
         else if cstr_eq mem (stab + ucast st_name) (SYMBOL a) then Some (reloc base load_off st_value)
         else sym_scan a mem base load_off stab ytab is)"

text \<open>The outer option is whether \<open>lookup\<close> returns, the inner one what it returns.\<close>

definition lookup :: "arch \<Rightarrow> memory \<Rightarrow> usize \<Rightarrow> usize option option" where
  "lookup a mem base =
     (if rd_u32 mem base 0 \<noteq> le_word [0x7f, 0x45, 0x4c, 0x46] then Some None
      else if mem (base + 4) \<noteq> 2 then Some None
      else if rd_u16 mem base 18 \<noteq> E_MACHINE a then Some None
      else
        let e_phoff = rd_u64 mem base 32;
            e_phentsize = rd_u16 mem base 54;
            e_phnum = rd_u16 mem base 56
        in if unat e_phentsize < 56 then Some None
           else case phdr_scan mem base e_phoff (ucast e_phentsize) [0..<unat e_phnum] None None of
               (None, _) \<Rightarrow> Some None
             | (_, None) \<Rightarrow> Some None
             | (Some load_off, Some d) \<Rightarrow>
                 (case dyn_scan mem base load_off d \<lparr>strtab = None, symtab = None, hash = None\<rparr> of
                    None \<Rightarrow> None
                  | Some t \<Rightarrow> (case (strtab t, symtab t, hash t) of
                        (Some stab, Some ytab, Some h) \<Rightarrow>
                          Some (sym_scan a mem base load_off stab ytab [0..<unat (rd_u32 mem h 4)])
                      | _ \<Rightarrow> Some None)))"

section \<open>Resolution and cache\<close>

definition resolve :: "'k mach \<Rightarrow> memory \<Rightarrow> 'k \<Rightarrow> (usize option res \<times> 'k) option" where
  "resolve M mem k = (case vdso_base M k of
       None \<Rightarrow> None
     | Some (Ok (Some base), k') \<Rightarrow>
         (case lookup (m_arch M) mem base of None \<Rightarrow> None | Some f \<Rightarrow> Some (Ok f, k'))
     | Some (Ok None, k') \<Rightarrow> Some (Ok None, k')
     | Some (Err e, k') \<Rightarrow> Some (Err e, k')
     | Some (Panic, k') \<Rightarrow> Some (Panic, k'))"

text \<open>The static \<open>CACHE\<close> is part of the state, next to the kernel's.\<close>

definition clock_gettime_fn ::
  "'k mach \<Rightarrow> memory \<Rightarrow> usize \<times> 'k \<Rightarrow> (usize option res \<times> usize \<times> 'k) option" where
  "clock_gettime_fn M mem s = (case s of (cache, k) \<Rightarrow>
     if cache = FAILED then Some (Ok None, cache, k)
     else if cache \<noteq> 0 then Some (Ok (Some cache), cache, k)
     else case resolve M mem k of
         None \<Rightarrow> None
       | Some (Ok f, k') \<Rightarrow> Some (Ok f, (case f of None \<Rightarrow> FAILED | Some a \<Rightarrow> a), k')
       | Some (Err e, k') \<Rightarrow> Some (Err e, cache, k')
       | Some (Panic, k') \<Rightarrow> Some (Panic, cache, k'))"

section \<open>The scan of the auxiliary vector\<close>

definition auxv_bytes :: "(u64 \<times> u64) list \<Rightarrow> byte list" where
  "auxv_bytes av = concat (map (\<lambda>(key, val). le_bytes 8 key @ le_bytes 8 val) av)"

lemma auxv_bytes_Cons [simp]:
  "auxv_bytes ((key, val) # av) = le_bytes 8 key @ le_bytes 8 val @ auxv_bytes av" "auxv_bytes [] = []"
  by (simp_all add: auxv_bytes_def)

lemma auxv_bytes_append [simp]: "auxv_bytes (xs @ ys) = auxv_bytes xs @ auxv_bytes ys"
  by (simp add: auxv_bytes_def)

lemma length_auxv_bytes [simp]: "length (auxv_bytes av) = 16 * length av"
  by (induction av) (auto simp: auxv_bytes_def)

lemma auxv_scan_entry:
  assumes "drop i buf = le_bytes 8 key @ le_bytes 8 val @ rest" and "i + 16 \<le> n" and "n \<le> length buf"
  shows "auxv_scan buf n i =
    (if key = AT_SYSINFO_EHDR then Ok (if val = 0 then None else Some val)
     else if key = AT_NULL then Ok None else auxv_scan buf n (i + 16))"
proof -
  have "take 8 (drop i buf) = le_bytes 8 key" and "take 8 (drop (i + 8) buf) = le_bytes 8 val"
    using assms(1) by (simp_all add: add.commute [of i] flip: drop_drop)
  with assms(2,3) show ?thesis
    by (subst auxv_scan.simps) (simp add: slice_def le_word_le_bytes_full Let_def)
qed

lemma auxv_scan_entries:
  fixes val :: u64
  assumes "drop i buf = auxv_bytes av @ le_bytes 8 AT_NULL @ le_bytes 8 val @ rest"
    and "\<forall>(key, _) \<in> set av. key \<noteq> AT_NULL" and "i + 16 * length av + 16 \<le> n" and "n \<le> length buf"
  shows "auxv_scan buf n i = Ok (case map_of av AT_SYSINFO_EHDR of
      None \<Rightarrow> None | Some v \<Rightarrow> if v = 0 then None else Some v)"
  using assms
proof (induction av arbitrary: i)
  case Nil
  from auxv_scan_entry [of i buf AT_NULL val rest n] Nil show ?case
    by (simp add: AT_NULL_def AT_SYSINFO_EHDR_def)
next
  case (Cons kv av)
  obtain key v where kv: "kv = (key, v)" by force
  have "drop (i + 16) buf = drop 16 (drop i buf)" by (simp add: add.commute)
  then have "drop (i + 16) buf = auxv_bytes av @ le_bytes 8 AT_NULL @ le_bytes 8 val @ rest"
    using Cons.prems(1) kv by simp
  with Cons.IH [of "i + 16"] Cons.prems show ?case
    by (subst auxv_scan_entry [of _ _ key v]) (auto simp: kv)
qed

section \<open>Descriptors\<close>

text \<open>
  What \<open>vdso_base\<close> leaves open: nothing, unless the read of \<open>/proc/self/auxv\<close> fails; then the early
  return skips the \<open>close\<close> and the descriptor stays open.
\<close>

definition auxv_leak :: "'k mach \<Rightarrow> 'k \<Rightarrow> i32 set" where
  "auxv_leak M k = (case fd_open M auxv_path O_RDONLY 0 k of
      (Ok fd, k1) \<Rightarrow> (case read_all M fd (replicate 4096 0) k1 of Some (Err _, _, _) \<Rightarrow> {fd} | _ \<Rightarrow> {})
    | _ \<Rightarrow> {})"

lemma vdso_base_opened:
  assumes "makes_fd M opened ''OPENAT''" and "keeps_fds M opened ''READ''" and "closes_fd M opened"
    and "vdso_base M k = Some (r, k')"
  shows "opened k' = opened k \<union> auxv_leak M k \<and> opened k \<inter> auxv_leak M k = {}
    \<and> (auxv_leak M k \<noteq> {} \<longrightarrow> r = Ok None) \<and> (\<exists>fd. auxv_leak M k \<subseteq> {fd})"
proof -
  let ?args = "[Val (scast AT_FDCWD), cstr auxv_path, Val (scast O_RDONLY), Val (ucast (0 :: u32))]"
  have openat: "fd_open M auxv_path O_RDONLY 0 k = call_i32 M ''OPENAT'' ?args k"
    by (simp add: fd_open_def openat_def)
  from assms(1) show ?thesis
  proof (cases rule: makes_fd_i32 [of _ _ _ ?args k])
    case (made fd k1)
    note o = made(1) [folded openat]
    from assms(4) o obtain v buf k2 where rd: "read_all M fd (replicate 4096 0) k1 = Some (v, buf, k2)"
      by (auto simp: vdso_base_def split: option.splits)
    have "v \<noteq> Panic" and "opened k2 = insert fd (opened k)"
      using read_all_opened [OF assms(2) rd] made(3) by auto
    then show ?thesis using assms(4) rd o made(2)
      by (cases v) (auto simp: vdso_base_def auxv_leak_def ignore_close close_opened [OF assms(3)])
  next
    case (failed e k1)
    with assms(4) openat show ?thesis by (simp add: vdso_base_def auxv_leak_def)
  qed
qed

lemma three_fds_read: "read three_fds fd buf k = (Err (Errno 5), buf, k)"
  by (simp add: read_def call_buf_def sys_def out_bytes_def three_fds_def fd_nrs from_ret_def ERRNO_MAX_def)

lemma three_fds_openat: "fd_open three_fds auxv_path O_RDONLY 0 [] = (Ok 3, [3])"
  by (simp add: fd_open_def openat_def call_i32_def sys_def three_fds_def fd_nrs from_ret_i32_def
      from_ret_def ERRNO_MAX_def)

lemma three_fds_read_all:
  "read_all three_fds fd (replicate 4096 0) k = Some (Err (Errno 5), replicate 4096 0, k)"
  unfolding read_all_def by (subst read_all_from.simps) (simp add: three_fds_read)

lemma three_fds_vdso_base: "vdso_base three_fds [] = Some (Ok None, [3])"
  by (simp add: vdso_base_def three_fds_openat three_fds_read_all)

text \<open>A kernel on which every read fails: descriptor 3 stays open.\<close>

lemma auxv_leak_example: "auxv_leak three_fds [] = {3}"
  by (simp add: auxv_leak_def three_fds_openat three_fds_read_all)

section \<open>The cache\<close>

text \<open>
  Resolution happens once: after a call that found the cache empty, every later call returns the
  same answer with no system call, whatever has become of the machine and its memory, as long as a
  resolved address is not one of the two sentinels.
\<close>
lemma clock_gettime_fn_cached:
  assumes "clock_gettime_fn M mem (0, k) = Some (Ok f, c, k')" and "f \<noteq> Some 0" and "f \<noteq> Some FAILED"
  shows "clock_gettime_fn M' mem' (c, k'') = Some (Ok f, c, k'')"
  using assms
  by (auto simp: clock_gettime_fn_def FAILED_def split: option.splits res.splits prod.splits if_splits)

lemma clock_gettime_fn_cached_example:
  "clock_gettime_fn three_fds (\<lambda>_. 0) (FAILED, []) = Some (Ok None, FAILED, [])"
proof -
  have "clock_gettime_fn three_fds (\<lambda>_. 0) (0, []) = Some (Ok None, FAILED, [3])"
    by (simp add: clock_gettime_fn_def resolve_def three_fds_vdso_base FAILED_def)
  from clock_gettime_fn_cached [OF this] show ?thesis by simp
qed

text \<open>So a process loses at most one descriptor to it: after a failed resolution it is not tried again.\<close>

lemma clock_gettime_fn_opened:
  assumes "makes_fd M opened ''OPENAT''" and "keeps_fds M opened ''READ''" and "closes_fd M opened"
    and "clock_gettime_fn M mem (c, k) = Some (r, c', k')"
  shows "if c = 0 then opened k' = opened k \<union> auxv_leak M k \<and> opened k \<inter> auxv_leak M k = {}
        \<and> (auxv_leak M k \<noteq> {} \<longrightarrow> c' = FAILED) \<and> (\<exists>fd. auxv_leak M k \<subseteq> {fd})
      else c' = c \<and> k' = k"
proof (cases "c = 0")
  case True
  with assms(4) obtain q where "resolve M mem k = Some (q, k')"
    and c': "q = Ok None \<longrightarrow> c' = FAILED"
    by (auto simp: clock_gettime_fn_def FAILED_def split: option.splits res.splits)
  then obtain b where base: "vdso_base M k = Some (b, k')" and "b = Ok None \<longrightarrow> q = Ok None"
    by (auto simp: resolve_def split: option.splits res.splits)
  with vdso_base_opened [OF assms(1-3) base] c' True show ?thesis by auto
next
  case False
  with assms(4) show ?thesis by (auto simp: clock_gettime_fn_def split: if_splits)
qed

section \<open>What the lookup finds\<close>

text \<open>
  The tables of the image as lists: program headers as (type, offset, address), dynamic entries as
  (tag, value), symbols as (name, value), names as addresses of their strings.
\<close>

definition phdrs :: "memory \<Rightarrow> usize \<Rightarrow> (u32 \<times> u64 \<times> u64) list" where
  "phdrs mem base = map (\<lambda>i. let ph = base + (rd_u64 mem base 32 + of_nat i * ucast (rd_u16 mem base 54))
     in (rd_u32 mem ph 0, rd_u64 mem ph 8, rd_u64 mem ph 16)) [0..<unat (rd_u16 mem base 56)]"

definition dyns :: "memory \<Rightarrow> usize \<Rightarrow> nat \<Rightarrow> (i64 \<times> u64) list" where
  "dyns mem d n = map (\<lambda>i. (rd_i64 mem (d + 16 * of_nat i) 0, rd_u64 mem (d + 16 * of_nat i) 8)) [0..<n]"

definition syms :: "memory \<Rightarrow> usize \<Rightarrow> nat \<Rightarrow> (u32 \<times> u64) list" where
  "syms mem ytab n = map (\<lambda>i. let sym = ytab + of_nat i * 24 in (rd_u32 mem sym 0, rd_u64 mem sym 8)) [0..<n]"

definition string_at :: "memory \<Rightarrow> usize \<Rightarrow> byte list \<Rightarrow> bool" where
  "string_at mem p t \<longleftrightarrow> map (\<lambda>i. mem (p + of_nat i)) [0..<Suc (length t)] = t @ [0]"

lemma cstr_eq_string_at: "cstr_eq mem p t \<longleftrightarrow> string_at mem p t"
proof -
  have "cstr_eq_from mem p t \<longleftrightarrow> map (\<lambda>i. mem (p + of_nat i)) [0..<Suc (length t)] = t @ [0]" for p
  proof (induction t arbitrary: p)
    case (Cons b t)
    have "map (\<lambda>i. mem (p + of_nat i)) [0..<Suc (length (b # t))]
        = mem p # map (\<lambda>i. mem (p + 1 + of_nat i)) [0..<Suc (length t)]"
      by (simp only: upt_conv_Cons [of 0 "Suc (length (b # t))"] map_Suc_upt [symmetric] list.map map_map)
        (simp add: add.assoc comp_def)
    with Cons.IH [of "p + 1"] show ?case by (simp del: upt_Suc)
  qed simp
  then show ?thesis by (simp add: cstr_eq_def string_at_def)
qed

lemma phdr_scan_phdrs:
  "phdr_scan mem base off sz is lo dy =
     (let phs = map (\<lambda>i. let ph = base + (off + of_nat i * sz)
        in (rd_u32 mem ph 0, rd_u64 mem ph 8, rd_u64 mem ph 16)) is
      in ((case lo of Some l \<Rightarrow> Some l | None \<Rightarrow>
            map_option (\<lambda>(_, p_offset, p_vaddr). p_offset - p_vaddr) (find (\<lambda>ph. fst ph = PT_LOAD) phs)),
          (case find (\<lambda>ph. fst ph = PT_DYNAMIC) (rev phs) of
            Some (_, p_offset, _) \<Rightarrow> Some (base + p_offset) | None \<Rightarrow> dy)))"
  by (induction "is" arbitrary: lo dy)
    (auto simp: Let_def PT_LOAD_def PT_DYNAMIC_def find_append split: option.splits)

lemma dyns_Suc: "dyns mem d (Suc n) = (rd_i64 mem d 0, rd_u64 mem d 8) # dyns mem (d + 16) n"
  by (simp only: dyns_def upt_conv_Cons [of 0 "Suc n"] map_Suc_upt [symmetric] list.map map_map)
    (simp add: comp_def algebra_simps)

definition dyn_last :: "usize \<Rightarrow> i64 \<Rightarrow> i64 \<Rightarrow> (i64 \<times> u64) list \<Rightarrow> usize option \<Rightarrow> usize option" where
  "dyn_last base load_off tag es old =
     (case find (\<lambda>e. fst e = tag) (rev es) of Some e \<Rightarrow> Some (reloc base load_off (snd e)) | None \<Rightarrow> old)"

lemma dyn_last_Cons:
  "dyn_last base lo tag (e # es) old =
     dyn_last base lo tag es (if fst e = tag then Some (reloc base lo (snd e)) else old)"
  by (simp add: dyn_last_def find_append split: option.splits)

lemma dyn_scan_dyns:
  assumes "rd_i64 mem (d + 16 * of_nat n) 0 = DT_NULL" and "\<forall>e \<in> set (dyns mem d n). fst e \<noteq> DT_NULL"
  shows "dyn_scan mem base lo d t = Some
    \<lparr>strtab = dyn_last base lo DT_STRTAB (dyns mem d n) (strtab t),
     symtab = dyn_last base lo DT_SYMTAB (dyns mem d n) (symtab t),
     hash = dyn_last base lo DT_HASH (dyns mem d n) (hash t)\<rparr>"
  using assms
proof (induction n arbitrary: d t)
  case 0
  then show ?case by (subst dyn_scan.simps) (simp add: dyns_def dyn_last_def)
next
  case (Suc n)
  have "rd_i64 mem d 0 \<noteq> DT_NULL" using Suc.prems(2) by (simp add: dyns_Suc)
  moreover have "rd_i64 mem (d + 16 + 16 * of_nat n) 0 = DT_NULL"
    using Suc.prems(1) by (simp add: algebra_simps)
  ultimately show ?case
    using Suc.IH [of "d + 16"] Suc.prems(2)
    by (subst dyn_scan.simps)
      (auto simp: Let_def dyns_Suc dyn_last_Cons DT_STRTAB_def DT_SYMTAB_def DT_HASH_def)
qed

lemma sym_scan_find:
  "sym_scan a mem base lo stab ytab is =
     map_option (\<lambda>(_, st_value). reloc base lo st_value)
       (find (\<lambda>(st_name, st_value). st_name \<noteq> 0 \<and> st_value \<noteq> 0 \<and> string_at mem (stab + ucast st_name) (SYMBOL a))
         (map (\<lambda>i. let sym = ytab + of_nat i * 24 in (rd_u32 mem sym 0, rd_u64 mem sym 8)) is))"
  by (induction "is") (simp_all add: Let_def cstr_eq_string_at)

text \<open>
  The image at \<open>base\<close> is an ELF image of the architecture that provides \<open>f\<close> as its \<open>clock_gettime\<close>: the
  premises under which \<open>lookup\<close> finds it, in one predicate.
\<close>

definition vdso_image :: "arch \<Rightarrow> memory \<Rightarrow> usize \<Rightarrow> usize option \<Rightarrow> bool" where
  "vdso_image a mem base f \<longleftrightarrow>
     rd_u32 mem base 0 = 0x464c457f \<and> mem (base + 4) = 2 \<and> rd_u16 mem base 18 = E_MACHINE a
     \<and> 56 \<le> unat (rd_u16 mem base 54)
     \<and> (\<exists>p_offset p_vaddr d_offset d_vaddr n stab ytab h.
         find (\<lambda>ph. fst ph = PT_LOAD) (phdrs mem base) = Some (PT_LOAD, p_offset, p_vaddr)
         \<and> find (\<lambda>ph. fst ph = PT_DYNAMIC) (rev (phdrs mem base)) = Some (PT_DYNAMIC, d_offset, d_vaddr)
         \<and> rd_i64 mem (base + d_offset + 16 * of_nat n) 0 = DT_NULL
         \<and> (\<forall>e \<in> set (dyns mem (base + d_offset) n). fst e \<noteq> DT_NULL)
         \<and> dyn_last base (p_offset - p_vaddr) DT_STRTAB (dyns mem (base + d_offset) n) None = Some stab
         \<and> dyn_last base (p_offset - p_vaddr) DT_SYMTAB (dyns mem (base + d_offset) n) None = Some ytab
         \<and> dyn_last base (p_offset - p_vaddr) DT_HASH (dyns mem (base + d_offset) n) None = Some h
         \<and> f = map_option (\<lambda>(_, st_value). base + (p_offset - p_vaddr + st_value))
             (find (\<lambda>(st_name, st_value). st_name \<noteq> 0 \<and> st_value \<noteq> 0 \<and> string_at mem (stab + ucast st_name) (SYMBOL a))
               (syms mem ytab (unat (rd_u32 mem h 4)))))"

lemma vdso_imageI:
  assumes "rd_u32 mem base 0 = 0x464c457f" and "mem (base + 4) = 2" and "rd_u16 mem base 18 = E_MACHINE a"
    and "56 \<le> unat (rd_u16 mem base 54)"
    and "find (\<lambda>ph. fst ph = PT_LOAD) (phdrs mem base) = Some (PT_LOAD, p_offset, p_vaddr)"
    and "find (\<lambda>ph. fst ph = PT_DYNAMIC) (rev (phdrs mem base)) = Some (PT_DYNAMIC, d_offset, d_vaddr)"
    and "rd_i64 mem (base + d_offset + 16 * of_nat n) 0 = DT_NULL"
    and "\<forall>e \<in> set (dyns mem (base + d_offset) n). fst e \<noteq> DT_NULL"
    and "dyn_last base (p_offset - p_vaddr) DT_STRTAB (dyns mem (base + d_offset) n) None = Some stab"
    and "dyn_last base (p_offset - p_vaddr) DT_SYMTAB (dyns mem (base + d_offset) n) None = Some ytab"
    and "dyn_last base (p_offset - p_vaddr) DT_HASH (dyns mem (base + d_offset) n) None = Some h"
  shows "vdso_image a mem base (map_option (\<lambda>(_, st_value). base + (p_offset - p_vaddr + st_value))
      (find (\<lambda>(st_name, st_value). st_name \<noteq> 0 \<and> st_value \<noteq> 0 \<and> string_at mem (stab + ucast st_name) (SYMBOL a))
        (syms mem ytab (unat (rd_u32 mem h 4)))))"
  unfolding vdso_image_def using assms by blast

lemma lookup_vdso_image:
  assumes "vdso_image a mem base f"
  shows "lookup a mem base = Some f"
proof -
  from assms obtain p_offset p_vaddr d_offset d_vaddr n stab ytab h where
      ph: "find (\<lambda>ph. fst ph = PT_LOAD) (phdrs mem base) = Some (PT_LOAD, p_offset, p_vaddr)"
        "find (\<lambda>ph. fst ph = PT_DYNAMIC) (rev (phdrs mem base)) = Some (PT_DYNAMIC, d_offset, d_vaddr)"
      and last: "rd_i64 mem (base + d_offset + 16 * of_nat n) 0 = DT_NULL"
        "\<forall>e \<in> set (dyns mem (base + d_offset) n). fst e \<noteq> DT_NULL"
      and tabs: "dyn_last base (p_offset - p_vaddr) DT_STRTAB (dyns mem (base + d_offset) n) None = Some stab"
        "dyn_last base (p_offset - p_vaddr) DT_SYMTAB (dyns mem (base + d_offset) n) None = Some ytab"
        "dyn_last base (p_offset - p_vaddr) DT_HASH (dyns mem (base + d_offset) n) None = Some h"
      and f: "f = map_option (\<lambda>(_, st_value). base + (p_offset - p_vaddr + st_value))
        (find (\<lambda>(st_name, st_value). st_name \<noteq> 0 \<and> st_value \<noteq> 0 \<and> string_at mem (stab + ucast st_name) (SYMBOL a))
          (syms mem ytab (unat (rd_u32 mem h 4))))"
    unfolding vdso_image_def by blast
  have magic: "le_word [0x7f, 0x45, 0x4c, 0x46] = (0x464c457f :: u32)" by simp
  have scan: "phdr_scan mem base (rd_u64 mem base 32) (ucast (rd_u16 mem base 54)) [0..<unat (rd_u16 mem base 56)]
      None None = (Some (p_offset - p_vaddr), Some (base + d_offset))"
    using ph by (simp add: phdr_scan_phdrs phdrs_def Let_def)
  note dyn = dyn_scan_dyns [OF last]
  show ?thesis unfolding lookup_def Let_def scan magic
    using assms [unfolded vdso_image_def] tabs f by (simp add: dyn sym_scan_find syms_def Let_def reloc_def)
qed

text \<open>
  C16: on a 64-bit image of this architecture whose dynamic table ends, \<open>lookup\<close> returns, and returns
  the run-time address of the first symbol with a name, a value and the wanted name: string table,
  symbol table and hash table are those of the last dynamic entry of their tag, the dynamic table is
  the last \<open>PT_DYNAMIC\<close> segment, and addresses are biased by the first \<open>PT_LOAD\<close> segment.
\<close>
theorem lookup_finds:
  assumes "vdso_image a mem base f"
  shows "lookup a mem base = Some f"
  using assms by (rule lookup_vdso_image)

text \<open>
  A small image at 0x1000, by its non-zero 64-bit words: a header, a loaded segment at 0x2000 and a dynamic one, four dynamic
  entries, a hash table of two symbols, their symbol table and string table.
\<close>

definition elf_image :: "(usize \<times> u64) list" where
  "elf_image =
     [(0, 0x00000002464c457f), (2, 0x00000000003e0000), (4, 64), (6, 0x0038000000000000), (7, 2),
      (8, 1), (10, 0x2000), (15, 2), (16, 176), (17, 0x20b0),
      (22, 5), (23, 0x2128), (24, 6), (25, 0x20f8), (26, 4), (27, 0x20f0), (30, 0x0000000200000001),
      (34, 1), (35, 0x2500), (37, 0x5f6f7364765f5f00), (38, 0x65675f6b636f6c63), (39, 0x000000656d697474)]"

definition elf_memory :: memory where
  "elf_memory p = (case map_of elf_image (drop_bit 3 (p - 0x1000)) of
       Some w \<Rightarrow> ucast (drop_bit (8 * unat (p AND 7)) w) | None \<Rightarrow> 0)"

lemma upto_lits: "[0..<2] = [0, 1]" "[0..<3] = [0, 1, 2]" "[0..<4] = [0, 1, 2, 3]"
  "[0..<8] = [0, 1, 2, 3, 4, 5, 6, 7]"
  by (simp_all add: upt_rec)

lemmas elf_eval = rd_u16_def rd_u32_def rd_u64_def rd_i64_def rd_def upto_lits elf_memory_def elf_image_def

lemma elf_header:
  "rd_u32 elf_memory 0x1000 0 = 0x464c457f" "elf_memory 0x1004 = 2"
  "rd_u16 elf_memory 0x1000 18 = E_MACHINE X86_64" "rd_u16 elf_memory 0x1000 54 = 56"
  "rd_u16 elf_memory 0x1000 56 = 2" "rd_u64 elf_memory 0x1000 32 = 64"
  "rd_u32 elf_memory 0x10f0 4 = 2" "rd_i64 elf_memory 0x10e0 0 = 0"
  by (simp_all add: elf_eval E_MACHINE_def)

lemma elf_tables:
  "phdrs elf_memory 0x1000 = [(1, 0, 0x2000), (2, 176, 0x20b0)]"
  "dyns elf_memory 0x10b0 3 = [(5, 0x2128), (6, 0x20f8), (4, 0x20f0)]"
  "syms elf_memory 0x10f8 2 = [(0, 0), (1, 0x2500)]"
  by (simp_all add: phdrs_def dyns_def syms_def elf_header Let_def upto_lits) (simp_all add: elf_eval)

lemma elf_symbol: "string_at elf_memory 0x1129 (SYMBOL X86_64)"
  by (simp add: cstr_eq_string_at [symmetric] cstr_eq_def SYMBOL_def ascii_def elf_eval)

lemmas elf_facts = elf_header elf_tables elf_symbol reloc_def PT_LOAD_def PT_DYNAMIC_def DT_NULL_def DT_STRTAB_def
  DT_SYMTAB_def DT_HASH_def dyn_last_def

lemma elf_image_provides: "vdso_image X86_64 elf_memory 0x1000 (Some 0x1500)"
  using vdso_imageI [of elf_memory "0x1000" X86_64 0 "0x2000" 176 "0x20b0" 3 "0x1128" "0x10f8" "0x10f0"]
  by (simp add: elf_facts)

theorem lookup_finds_witness: "lookup X86_64 elf_memory 0x1000 = Some (Some 0x1500)"
  using lookup_finds [OF elf_image_provides] .

section \<open>From the auxiliary vector to the function\<close>

lemma vdso_base_of_auxv:
  assumes "sys M ''OPENAT'' [Val (scast AT_FDCWD), cstr auxv_path, Val (scast O_RDONLY), Val 0] k = (scast fd, outs, k1)"
    and "0 \<le> sint fd" and "read_contract M fd src" and "eintr_bounded M ''READ'' \<mu>"
    and "src k1 = auxv_bytes (av @ [(AT_NULL, val)]) @ rest" and "\<forall>(key, _) \<in> set av. key \<noteq> AT_NULL"
    and "16 * length av + 16 \<le> 4096"
  shows "\<exists>r buf k2 k'. read_all M fd (replicate 4096 0) k1 = Some (r, buf, k2) \<and> r \<noteq> Panic
    \<and> vdso_base M k = Some (Ok (case r of Ok _ \<Rightarrow> (case map_of av AT_SYSINFO_EHDR of
          None \<Rightarrow> None | Some v \<Rightarrow> if v = 0 then None else Some v) | _ \<Rightarrow> None), k')"
proof -
  have o: "fd_open M auxv_path O_RDONLY 0 k = (Ok fd, k1)"
    using assms(1,2) by (simp add: fd_open_def openat_def call_i32_def from_ret_i32_nonneg)
  have "read_progress (src k1) (replicate 4096 0) 0 (replicate 4096 0) (src k1)" by (simp add: read_progress_def)
  from read_all_from_correct [OF assms(3,4) _ this] obtain r buf k2 n
    where rd: "read_all M fd (replicate 4096 0) k1 = Some (r, buf, k2)"
      and prog: "read_progress (src k1) (replicate 4096 0) n buf (src k2)"
      and res: "r = Ok (of_nat n) \<and> (n = 4096 \<or> src k2 = []) \<or> (\<exists>e. r = Err e)"
    unfolding read_all_def by auto
  show ?thesis
  proof (cases r)
    case (Ok v)
    with res have r: "r = Ok (of_nat n)" and stop: "n = 4096 \<or> src k2 = []" by auto
    from prog have buf: "length buf = 4096" "n \<le> 4096" "take n buf = take n (src k1)" "src k2 = drop n (src k1)"
      by (simp_all add: read_progress_def)
    have n: "16 * length av + 16 \<le> n" using stop buf(4) assms(5,7) by auto
    have u: "unat (of_nat n :: usize) = n" using buf(2) by (simp add: unat_of_nat)
    have "buf = take n buf @ drop n buf" by simp
    also have "\<dots> = auxv_bytes (av @ [(AT_NULL, val)]) @ (take (n - (16 + 16 * length av)) rest @ drop n buf)"
      using n by (simp add: buf(3) assms(5) min_def)
    finally have "drop 0 buf = auxv_bytes av @ le_bytes 8 AT_NULL @ le_bytes 8 val @ (take (n - (16 + 16 * length av)) rest @ drop n buf)"
      by simp
    from auxv_scan_entries [OF this assms(6)] n buf(1,2)
    have "auxv_scan buf n 0 = Ok (case map_of av AT_SYSINFO_EHDR of None \<Rightarrow> None | Some v \<Rightarrow> if v = 0 then None else Some v)"
      by simp
    then have "vdso_base M k = Some (Ok (case map_of av AT_SYSINFO_EHDR of
        None \<Rightarrow> None | Some v \<Rightarrow> if v = 0 then None else Some v), snd (close M fd k2))"
      by (simp add: vdso_base_def o rd r u ignore_close)
    with rd r show ?thesis by auto
  next
    case (Err e)
    with o rd have "vdso_base M k = Some (Ok None, k2)" by (simp add: vdso_base_def)
    with rd Err show ?thesis by auto
  qed (use res in simp)
qed

text \<open>
  C13: the first call resolves the function through all its steps and always returns: when the auxiliary vector in
  \<open>/proc/self/auxv\<close> names an ELF image of the architecture that provides the function, the call returns its
  run-time address, unless reading the vector fails, in which case there is none; either way, every later call returns the
  same from the cache alone, whatever has become of the machine, provided the address is not one of the
  two sentinels.
\<close>
theorem clock_gettime_fn_resolves:
  assumes "sys M ''OPENAT'' [Val (scast AT_FDCWD), cstr auxv_path, Val (scast O_RDONLY), Val 0] k = (scast fd, outs, k1)"
    and "0 \<le> sint fd" and "read_contract M fd src" and "eintr_bounded M ''READ'' \<mu>"
    and "src k1 = auxv_bytes (av @ [(AT_NULL, val)]) @ rest" and "\<forall>(key, _) \<in> set av. key \<noteq> AT_NULL"
    and "16 * length av + 16 \<le> 4096"
    and "map_of av AT_SYSINFO_EHDR = Some base" and "base \<noteq> 0" and "vdso_image (m_arch M) mem base f"
    and "f \<noteq> Some 0" and "f \<noteq> Some FAILED"
  shows "\<exists>r buf k2 g cache k'. read_all M fd (replicate 4096 0) k1 = Some (r, buf, k2)
    \<and> g = (case r of Ok _ \<Rightarrow> f | _ \<Rightarrow> None)
    \<and> clock_gettime_fn M mem (0, k) = Some (Ok g, cache, k')
    \<and> (\<forall>M' mem' k''. clock_gettime_fn (M' :: 'k mach) mem' (cache, k'') = Some (Ok g, cache, k''))"
proof -
  obtain r buf k2 k' where rd: "read_all M fd (replicate 4096 0) k1 = Some (r, buf, k2)" "r \<noteq> Panic"
      and vb: "vdso_base M k = Some (Ok (case r of Ok _ \<Rightarrow> Some base | _ \<Rightarrow> None), k')"
    using vdso_base_of_auxv [OF assms(1-7)] unfolding assms(8) option.case if_not_P [OF assms(9)] by blast
  let ?g = "case r of Ok _ \<Rightarrow> f | _ \<Rightarrow> None"
  have "resolve M mem k = Some (Ok ?g, k')"
    using vb rd(2) lookup_vdso_image [OF assms(10)] by (cases r) (simp_all add: resolve_def)
  then obtain cache where fn: "clock_gettime_fn M mem (0, k) = Some (Ok ?g, cache, k')"
    by (simp add: clock_gettime_fn_def FAILED_def)
  have "?g \<noteq> Some 0" "?g \<noteq> Some FAILED" using assms(11,12) by (auto split: res.splits)
  from clock_gettime_fn_cached [OF fn this] fn rd(1) show ?thesis by blast
qed

text \<open>A machine whose auxiliary vector points at the small image.\<close>

definition auxv_mach :: "byte list mach" where
  "auxv_mach = \<lparr>m_arch = X86_64, m_kernel = \<lambda>n args k.
     if n = 257 then (3, args, auxv_bytes [(6, 4096), (33, 0x1000), (0, 0)])
     else if n = 0 then file_read args k else (0, args, k)\<rparr>"

lemma auxv_mach_sys:
  "sys auxv_mach ''READ'' args k = file_read args k"
  "sys auxv_mach ''OPENAT'' args k = (3, args, auxv_bytes [(6, 4096), (33, 0x1000), (0, 0)])"
  "m_arch auxv_mach = X86_64"
  by (simp_all add: auxv_mach_def sys_def fd_nrs)

theorem clock_gettime_fn_resolves_witness:
  "\<exists>r buf k2 g cache k'. read_all auxv_mach 3 (replicate 4096 0) (auxv_bytes [(6, 4096), (33, 0x1000), (0, 0)])
      = Some (r, buf, k2)
    \<and> g = (case r of Ok _ \<Rightarrow> Some 0x1500 | _ \<Rightarrow> None)
    \<and> clock_gettime_fn auxv_mach elf_memory (0, []) = Some (Ok g, cache, k')
    \<and> (\<forall>M' mem' k''. clock_gettime_fn (M' :: byte list mach) mem' (cache, k'') = Some (Ok g, cache, k''))"
  by (rule clock_gettime_fn_resolves [where src = "\<lambda>k. k" and \<mu> = "\<lambda>_. 0" and av = "[(6, 4096), (33, 0x1000)]"
        and val = 0 and rest = "[]" and base = "0x1000"
        and outs = "[Val (scast AT_FDCWD), cstr auxv_path, Val (scast O_RDONLY), Val 0]"])
    (simp_all add: auxv_mach_sys file_read_contract file_read_eintr elf_image_provides FAILED_def AT_NULL_def
      AT_SYSINFO_EHDR_def)

section \<open>Racing threads\<close>

text \<open>
  \<open>CACHE\<close> is read and written with relaxed atomic accesses, so calls of \<open>clock_gettime_fn\<close> in several
  threads interleave at the load and the store. A thread is at its start, in \<open>resolve\<close>, before the
  store, or has returned, after which it may call again. The system calls of \<open>resolve\<close> interleave with those
  of other threads too, and may fail in one thread and not in another: what one call sees of the kernel is a machine
  and a state of its own, which answer its calls as they were answered, one of \<open>views\<close>.
\<close>

datatype call_state = Start | Resolving | Storing "usize option" | Returned "usize option"

record race =
  cell :: usize
  thread :: "nat \<Rightarrow> call_state"

definition cache_code :: "usize option \<Rightarrow> usize" where
  "cache_code f = (case f of None \<Rightarrow> FAILED | Some a \<Rightarrow> a)"

inductive race_step :: "('k mach \<times> 'k) set \<Rightarrow> memory \<Rightarrow> race \<Rightarrow> race \<Rightarrow> bool"
  for views :: "('k mach \<times> 'k) set" and mem :: memory where
  load_failed: "thread s t = Start \<Longrightarrow> cell s = FAILED
    \<Longrightarrow> race_step views mem s (s\<lparr>thread := (thread s)(t := Returned None)\<rparr>)"
| load_hit: "thread s t = Start \<Longrightarrow> cell s \<noteq> FAILED \<Longrightarrow> cell s \<noteq> 0
    \<Longrightarrow> race_step views mem s (s\<lparr>thread := (thread s)(t := Returned (Some (cell s)))\<rparr>)"
| load_miss: "thread s t = Start \<Longrightarrow> cell s = 0
    \<Longrightarrow> race_step views mem s (s\<lparr>thread := (thread s)(t := Resolving)\<rparr>)"
| resolved: "thread s t = Resolving \<Longrightarrow> (M, k) \<in> views \<Longrightarrow> resolve M mem k = Some (Ok f, k')
    \<Longrightarrow> race_step views mem s (s\<lparr>thread := (thread s)(t := Storing f)\<rparr>)"
| store: "thread s t = Storing f
    \<Longrightarrow> race_step views mem s (s\<lparr>cell := cache_code f, thread := (thread s)(t := Returned f)\<rparr>)"
| again: "thread s t = Returned f \<Longrightarrow> race_step views mem s (s\<lparr>thread := (thread s)(t := Start)\<rparr>)"

definition race_start :: race where
  "race_start = \<lparr>cell = 0, thread = \<lambda>_. Start\<rparr>"

text \<open>What a call may have in hand, if every resolution ends with one of \<open>R\<close>.\<close>

fun call_ok :: "usize option set \<Rightarrow> call_state \<Rightarrow> bool" where
  "call_ok R (Storing f) \<longleftrightarrow> f \<in> R"
| "call_ok R (Returned f) \<longleftrightarrow> f \<in> R"
| "call_ok R _ \<longleftrightarrow> True"

definition race_inv :: "usize option set \<Rightarrow> race \<Rightarrow> bool" where
  "race_inv R s \<longleftrightarrow> cell s \<in> insert 0 (cache_code ` R) \<and> (\<forall>t. call_ok R (thread s t))"

definition resolve_in :: "('k mach \<times> 'k) set \<Rightarrow> memory \<Rightarrow> usize option set \<Rightarrow> bool" where
  "resolve_in views mem R \<longleftrightarrow> Some 0 \<notin> R \<and> Some FAILED \<notin> R
     \<and> (\<forall>(M, k) \<in> views. \<forall>f k'. resolve M mem k = Some (Ok f, k') \<longrightarrow> f \<in> R)"

lemma race_inv_step:
  assumes "race_step views mem s s'" and "race_inv R s" and "resolve_in views mem R"
  shows "race_inv R s' \<and> (cell s \<noteq> 0 \<longrightarrow> cell s' \<noteq> 0)"
  using assms(1)
proof cases
  case (load_failed t)
  with assms(2,3) have "None \<in> R"
    by (auto simp: race_inv_def resolve_in_def cache_code_def FAILED_def split: option.splits)
  with load_failed assms(2) show ?thesis by (auto simp: race_inv_def)
next
  case (load_hit t)
  with assms(2) have "Some (cell s) \<in> R" by (auto simp: race_inv_def cache_code_def split: option.splits)
  with load_hit assms(2) show ?thesis by (auto simp: race_inv_def)
next
  case (resolved t M k f k')
  with assms(3) have "f \<in> R" unfolding resolve_in_def by blast
  with resolved assms(2) show ?thesis by (auto simp: race_inv_def)
next
  case (store t f)
  with assms(2) have "f \<in> R" unfolding race_inv_def by (metis call_ok.simps(1))
  moreover have "cache_code f \<noteq> 0"
    using \<open>f \<in> R\<close> assms(3) by (auto simp: resolve_in_def cache_code_def FAILED_def split: option.splits)
  ultimately show ?thesis using store assms(2) by (auto simp: race_inv_def)
qed (use assms in \<open>auto simp: race_inv_def\<close>)

lemma race_inv_steps:
  assumes "(race_step views mem)\<^sup>*\<^sup>* s s'" and "race_inv R s" and "resolve_in views mem R"
  shows "race_inv R s' \<and> (cell s \<noteq> 0 \<longrightarrow> cell s' \<noteq> 0)"
  using assms(1)
proof (induction rule: rtranclp_induct)
  case base
  show ?case using assms(2) by simp
next
  case (step s' s'')
  with race_inv_step assms(3) show ?case by blast
qed

lemma race_inv_start: "race_inv R race_start"
  by (simp add: race_inv_def race_start_def)

text \<open>A thread that makes its steps undisturbed does what \<open>clock_gettime_fn\<close> is defined to do.\<close>

lemma race_alone:
  assumes "(M, k) \<in> views" and "resolve M mem k = Some (Ok found, k')" and "thread s t = Start"
  shows "\<exists>k'' f. clock_gettime_fn M mem (cell s, k) = Some (Ok f, if cell s = 0 then cache_code f else cell s, k'')
    \<and> (race_step views mem)\<^sup>*\<^sup>* s (if cell s = 0 then s\<lparr>cell := cache_code f, thread := (thread s)(t := Returned f)\<rparr>
         else s\<lparr>thread := (thread s)(t := Returned f)\<rparr>)"
proof -
  consider "cell s = FAILED" | "cell s \<noteq> FAILED" "cell s \<noteq> 0" | "cell s = 0" by (auto simp: FAILED_def)
  then show ?thesis
  proof cases
    case 1
    have "race_step views mem s (s\<lparr>thread := (thread s)(t := Returned None)\<rparr>)"
      by (rule race_step.load_failed [OF assms(3) 1])
    then show ?thesis
      using 1 by (intro exI [of _ k] exI [of _ None]) (simp add: clock_gettime_fn_def FAILED_def r_into_rtranclp)
  next
    case 2
    have "race_step views mem s (s\<lparr>thread := (thread s)(t := Returned (Some (cell s)))\<rparr>)"
      by (rule race_step.load_hit [OF assms(3) 2])
    then show ?thesis
      using 2 by (intro exI [of _ k] exI [of _ "Some (cell s)"]) (simp add: clock_gettime_fn_def r_into_rtranclp)
  next
    case 3
    let ?s1 = "s\<lparr>thread := (thread s)(t := Resolving)\<rparr>"
    let ?s2 = "s\<lparr>thread := (thread s)(t := Storing found)\<rparr>"
    have "race_step views mem s ?s1" by (rule race_step.load_miss [OF assms(3) 3])
    moreover have "race_step views mem ?s1 ?s2" using race_step.resolved [of ?s1 t, OF _ assms(1,2)] by simp
    moreover have "race_step views mem ?s2 (s\<lparr>cell := cache_code found, thread := (thread s)(t := Returned found)\<rparr>)"
      using race_step.store [of ?s2 t found views mem] by simp
    ultimately show ?thesis using 3 assms(2)
      by (intro exI [of _ k'] exI [of _ found])
        (simp add: clock_gettime_fn_def FAILED_def cache_code_def converse_rtranclp_into_rtranclp)
  qed
qed

text \<open>
  What the calls have in common: the auxiliary vector of a process does not change, so whoever can open
  \<open>/proc/self/auxv\<close> finds \<open>av\<close> there. Opening it may fail, and so may reading it.
\<close>

definition serves_auxv :: "arch \<Rightarrow> (u64 \<times> u64) list \<Rightarrow> 'k mach \<Rightarrow> 'k \<Rightarrow> bool" where
  "serves_auxv a av M k \<longleftrightarrow> m_arch M = a \<and> (\<exists>ret outs k1.
     sys M ''OPENAT'' [Val (scast AT_FDCWD), cstr auxv_path, Val (scast O_RDONLY), Val 0] k = (ret, outs, k1)
     \<and> ((\<exists>m. errno_ret ret m) \<or> (\<exists>fd src \<mu> val rest. 0 \<le> sint (fd :: i32) \<and> ret = scast fd
          \<and> read_contract M fd src \<and> eintr_bounded M ''READ'' \<mu> \<and> src k1 = auxv_bytes (av @ [(AT_NULL, val)]) @ rest)))"

definition auxv_readable :: "'k mach \<Rightarrow> 'k \<Rightarrow> bool" where
  "auxv_readable M k \<longleftrightarrow> (case fd_open M auxv_path O_RDONLY 0 k of
      (Ok fd, k1) \<Rightarrow> (case read_all M fd (replicate 4096 0) k1 of Some (Ok _, _, _) \<Rightarrow> True | _ \<Rightarrow> False)
    | _ \<Rightarrow> False)"

definition vdso_process :: "arch \<Rightarrow> (u64 \<times> u64) list \<Rightarrow> memory \<Rightarrow> usize option \<Rightarrow> bool" where
  "vdso_process a av mem found \<longleftrightarrow> (\<forall>(key, _) \<in> set av. key \<noteq> AT_NULL) \<and> 16 * length av + 16 \<le> 4096
     \<and> (\<exists>base. map_of av AT_SYSINFO_EHDR = Some base \<and> base \<noteq> 0 \<and> vdso_image a mem base found)"

lemma resolve_served:
  assumes "serves_auxv a av M k" and "vdso_process a av mem found"
  shows "\<exists>k'. resolve M mem k = Some (Ok (if auxv_readable M k then found else None), k')"
proof -
  from assms(2) obtain base where av: "\<forall>(key, _) \<in> set av. key \<noteq> AT_NULL" "16 * length av + 16 \<le> 4096"
      and base: "map_of av AT_SYSINFO_EHDR = Some base" "base \<noteq> 0" and image: "vdso_image a mem base found"
    unfolding vdso_process_def by blast
  from assms(1) obtain ret outs k1 where arch: "m_arch M = a"
      and call: "sys M ''OPENAT'' [Val (scast AT_FDCWD), cstr auxv_path, Val (scast O_RDONLY), Val 0] k = (ret, outs, k1)"
      and ends: "(\<exists>m. errno_ret ret m) \<or> (\<exists>fd src \<mu> val rest. 0 \<le> sint (fd :: i32) \<and> ret = scast fd
          \<and> read_contract M fd src \<and> eintr_bounded M ''READ'' \<mu> \<and> src k1 = auxv_bytes (av @ [(AT_NULL, val)]) @ rest)"
    unfolding serves_auxv_def by blast
  from ends show ?thesis
  proof (elim disjE exE conjE)
    fix m assume "errno_ret ret m"
    then have "fd_open M auxv_path O_RDONLY 0 k = (Err (Errno (word_of_int m)), k1)"
      using call by (simp add: fd_open_def openat_def call_i32_def from_ret_i32_def from_ret_errno_ret)
    then show ?thesis by (simp add: resolve_def vdso_base_def auxv_readable_def)
  next
    fix fd :: i32 and src \<mu> val rest
    assume fd: "0 \<le> sint fd" "ret = scast fd" and rd: "read_contract M fd src" "eintr_bounded M ''READ'' \<mu>"
      "src k1 = auxv_bytes (av @ [(AT_NULL, val)]) @ rest"
    have o: "fd_open M auxv_path O_RDONLY 0 k = (Ok fd, k1)"
      using call fd by (simp add: fd_open_def openat_def call_i32_def from_ret_i32_nonneg)
    obtain r buf k2 k' where all: "read_all M fd (replicate 4096 0) k1 = Some (r, buf, k2)" "r \<noteq> Panic"
      and vb: "vdso_base M k = Some (Ok (case r of Ok _ \<Rightarrow> Some base | _ \<Rightarrow> None), k')"
      using vdso_base_of_auxv [OF call [unfolded fd(2)] fd(1) rd av]
      unfolding base(1) option.case if_not_P [OF base(2)] by blast
    with o lookup_vdso_image [OF image] arch show ?thesis
      by (cases r) (simp_all add: resolve_def auxv_readable_def)
  qed
qed

text \<open>
  C14: the unsynchronised cache hands out no wrong pointer: however the loads and stores of any number of
  threads interleave, and in whichever threads opening or reading the auxiliary vector fails, every call
  returns the function of the vDSO image or none, the cache is empty, marked as failed or holds that function,
  a cache that has been filled is never empty again, and no call gets stuck. If the vector can be read in all
  threads, every call returns the function. A failure in one thread may replace the function in
  the cache by the mark of failure for good. A resolved address is assumed not to be one of the two sentinels.
\<close>
theorem cache_race_harmless:
  assumes "(race_step views mem)\<^sup>*\<^sup>* race_start s"
    and "\<forall>(M, k) \<in> views. serves_auxv a av M k" and "vdso_process a av mem found"
    and "found \<noteq> Some 0" and "found \<noteq> Some FAILED"
  shows "cell s \<in> {0, FAILED, cache_code found}
    \<and> (\<forall>t r. thread s t = Returned r \<longrightarrow> r = None \<or> r = found)
    \<and> (cell s \<noteq> 0 \<longrightarrow> (\<forall>s'. (race_step views mem)\<^sup>*\<^sup>* s s' \<longrightarrow> cell s' \<noteq> 0))
    \<and> (\<forall>t. thread s t = Resolving \<longrightarrow> views \<noteq> {} \<longrightarrow> (\<exists>r. race_step views mem s (s\<lparr>thread := (thread s)(t := Storing r)\<rparr>)))
    \<and> ((\<forall>(M, k) \<in> views. auxv_readable M k) \<longrightarrow>
         cell s \<in> {0, cache_code found} \<and> (\<forall>t r. thread s t = Returned r \<longrightarrow> r = found))"
proof -
  have ends: "\<exists>k'. resolve M mem k = Some (Ok (if auxv_readable M k then found else None), k')" if "(M, k) \<in> views" for M k
    by (rule resolve_served [OF _ assms(3)]) (use assms(2) that in auto)
  have out: "(f = None \<or> f = found) \<and> (auxv_readable M k \<longrightarrow> f = found)" if "(M, k) \<in> views" and "resolve M mem k = Some (Ok f, k')" for M k f k'
    using ends [OF that(1)] that(2) by auto
  have any: "resolve_in views mem {None, found}" unfolding resolve_in_def using assms(4,5) out by blast
  note inv = race_inv_steps [OF assms(1) race_inv_start any, THEN conjunct1]
  have "\<exists>r. race_step views mem s (s\<lparr>thread := (thread s)(t := Storing r)\<rparr>)"
    if "thread s t = Resolving" and "views \<noteq> {}" for t
    using that ends race_step.resolved by (metis ex_in_conv surj_pair)
  moreover have "cell s \<in> {0, cache_code found} \<and> (\<forall>t r. thread s t = Returned r \<longrightarrow> r = found)"
    if "\<forall>(M, k) \<in> views. auxv_readable M k"
  proof -
    have "resolve_in views mem {found}" unfolding resolve_in_def using assms(4,5) that out by blast
    from race_inv_steps [OF assms(1) race_inv_start this] show ?thesis
      unfolding race_inv_def by (metis call_ok.simps(2) image_empty image_insert singletonD)
  qed
  moreover have "\<forall>t r. thread s t = Returned r \<longrightarrow> r = None \<or> r = found"
    using inv unfolding race_inv_def by (metis call_ok.simps(2) insertE singletonD)
  moreover have "cell s \<in> {0, FAILED, cache_code found}" using inv by (auto simp: race_inv_def cache_code_def)
  moreover have "cell s \<noteq> 0 \<longrightarrow> (\<forall>s'. (race_step views mem)\<^sup>*\<^sup>* s s' \<longrightarrow> cell s' \<noteq> 0)"
    using race_inv_steps [OF _ inv any] by blast
  ultimately show ?thesis by blast
qed

text \<open>
  Two threads that both miss. The first resolves the function and stores it; for the second no descriptor is left, and its store
  marks the cache as failed.
\<close>

definition busy_mach :: "byte list mach" where
  "busy_mach = \<lparr>m_arch = X86_64, m_kernel = \<lambda>n args k. (- 24, args, k)\<rparr>"

lemma busy_mach_served: "serves_auxv X86_64 av busy_mach k" and busy_mach_not: "\<not> auxv_readable busy_mach k"
proof -
  have "errno_ret (- 24) 24" by (simp add: errno_ret_def)
  then show "serves_auxv X86_64 av busy_mach k" by (auto simp: serves_auxv_def busy_mach_def sys_def)
  show "\<not> auxv_readable busy_mach k"
    by (simp add: auxv_readable_def fd_open_def openat_def call_i32_def busy_mach_def sys_def from_ret_i32_def
        from_ret_def ERRNO_MAX_def)
qed

lemma file_serves_auxv:
  assumes "m_arch M = X86_64" and "\<And>args k. sys M ''READ'' args k = file_read args k"
    and "\<And>args k. sys M ''OPENAT'' args k = (3, args, auxv_bytes [(6, 4096), (33, 0x1000), (0, 0)])"
  shows "serves_auxv X86_64 [(6, 4096), (33, 0x1000)] M k"
  unfolding serves_auxv_def assms(1,3)
  by (intro conjI refl exI disjI2 [OF exI [of _ 3]] exI [of _ "\<lambda>k. k"] exI [of _ "\<lambda>_. 0"] exI [of _ 0] exI [of _ "[]"])
    (simp_all add: assms(2) file_read_contract file_read_eintr AT_NULL_def)

lemma auxv_mach_served: "serves_auxv X86_64 [(6, 4096), (33, 0x1000)] auxv_mach k"
  by (rule file_serves_auxv) (simp_all add: auxv_mach_sys)

lemma elf_process: "vdso_process X86_64 [(6, 4096), (33, 0x1000)] elf_memory (Some 0x1500)"
  using elf_image_provides by (simp add: vdso_process_def AT_NULL_def AT_SYSINFO_EHDR_def)

lemma auxv_mach_readable: "auxv_readable auxv_mach []"
proof -
  let ?av = "auxv_bytes [(6, 4096), (33, 0x1000), (0, 0)]"
  have rd: "read auxv_mach 3 buf k = (let m = min (length buf) (length k) in
      (Ok (of_nat m), take m k @ drop m buf, drop m k))" if "length buf \<le> 4096" for buf k
  proof -
    define m where "m = min (length buf) (length k)"
    with that have m: "m \<le> 4096" "min 4096 m = m" by simp_all
    then have "from_ret (of_nat m) = Ok (of_nat m)" by (intro from_ret_of_nat) simp
    with m(2) show ?thesis
      by (simp add: read_def call_buf_def auxv_mach_sys file_read_def out_bytes_def Let_def flip: m_def)
  qed
  have "read_all_from auxv_mach 3 48 buf [] = Some (Ok 48, buf, [])" if "length buf = 4096" for buf
    using that rd [of "drop 48 buf" "[]"] by (subst read_all_from.simps) simp
  then have "\<exists>buf. read_all auxv_mach 3 (replicate 4096 0) ?av = Some (Ok 48, buf, [])"
    unfolding read_all_def by (subst read_all_from.simps) (simp add: rd)
  moreover have "fd_open auxv_mach auxv_path O_RDONLY 0 [] = (Ok 3, ?av)"
    by (simp add: fd_open_def openat_def call_i32_def auxv_mach_sys from_ret_i32_def from_ret_def ERRNO_MAX_def)
  ultimately show ?thesis by (auto simp: auxv_readable_def)
qed

theorem cache_race_harmless_witness:
  "\<exists>s. (race_step {(auxv_mach, []), (busy_mach, [])} elf_memory)\<^sup>*\<^sup>* race_start s
     \<and> thread s 0 = Returned (Some 0x1500) \<and> thread s 1 = Returned None \<and> cell s = FAILED
     \<and> (\<forall>s'. (race_step {(auxv_mach, []), (busy_mach, [])} elf_memory)\<^sup>*\<^sup>* s s' \<longrightarrow> cell s' \<noteq> 0)"
proof -
  let ?step = "race_step {(auxv_mach, []), (busy_mach, [])} elf_memory"
  let ?s1 = "race_start\<lparr>thread := (thread race_start)(1 := Resolving)\<rparr>"
  let ?s2 = "?s1\<lparr>thread := (thread ?s1)(0 := Resolving)\<rparr>"
  let ?s3 = "?s2\<lparr>thread := (thread ?s2)(0 := Storing (Some 0x1500))\<rparr>"
  let ?s4 = "?s3\<lparr>cell := cache_code (Some 0x1500), thread := (thread ?s3)(0 := Returned (Some 0x1500))\<rparr>"
  let ?s5 = "?s4\<lparr>thread := (thread ?s4)(1 := Storing None)\<rparr>"
  let ?s6 = "?s5\<lparr>cell := cache_code None, thread := (thread ?s5)(1 := Returned None)\<rparr>"
  obtain k1 where r1: "resolve auxv_mach elf_memory [] = Some (Ok (Some 0x1500), k1)"
    using resolve_served [OF auxv_mach_served [of "[]"] elf_process] auxv_mach_readable by auto
  obtain k2 where r2: "resolve busy_mach elf_memory [] = Some (Ok None, k2)"
    using resolve_served [OF busy_mach_served elf_process] busy_mach_not by auto
  have "?step race_start ?s1" by (rule race_step.load_miss) (simp_all add: race_start_def)
  moreover have "?step ?s1 ?s2" by (rule race_step.load_miss) (simp_all add: race_start_def)
  moreover have "?step ?s2 ?s3" by (rule race_step.resolved [OF _ _ r1]) simp_all
  moreover have "?step ?s3 ?s4" by (rule race_step.store) simp
  moreover have "?step ?s4 ?s5" by (rule race_step.resolved [OF _ _ r2]) simp_all
  moreover have "?step ?s5 ?s6" by (rule race_step.store) simp
  ultimately have run: "?step\<^sup>*\<^sup>* race_start ?s6" by (meson converse_rtranclp_into_rtranclp rtranclp.rtrancl_refl)
  from cache_race_harmless [OF this _ elf_process] auxv_mach_served busy_mach_served show ?thesis
    by (intro exI [of _ ?s6] conjI run) (simp_all add: cache_code_def FAILED_def)
qed

end
