(* ===== verification/Time.thy ===== *)
theory Time
  imports Vdso "HOL-Library.Signed_Division"
begin

text \<open>
  Clocks, sleeping and timer descriptors (\<open>src/time.rs\<close>). A local that starts as
  \<open>MaybeUninit::uninit()\<close> is modelled as zeros: the bytes are only read after the kernel, or the vDSO
  function, has filled them.
\<close>

section \<open>Constants\<close>

definition CLOCK_REALTIME :: i32 where "CLOCK_REALTIME = 0"
definition CLOCK_MONOTONIC :: i32 where "CLOCK_MONOTONIC = 1"
definition CLOCK_BOOTTIME :: i32 where "CLOCK_BOOTTIME = 7"
definition CLOCK_REALTIME_COARSE :: i32 where "CLOCK_REALTIME_COARSE = 5"
definition CLOCK_MONOTONIC_COARSE :: i32 where "CLOCK_MONOTONIC_COARSE = 6"
definition TIMER_ABSTIME :: i32 where "TIMER_ABSTIME = 1"
definition TFD_NONBLOCK :: i32 where "TFD_NONBLOCK = 0x800"
definition TFD_CLOEXEC :: i32 where "TFD_CLOEXEC = 0x80000"
definition TFD_TIMER_ABSTIME :: i32 where "TFD_TIMER_ABSTIME = 1"

section \<open>Structs\<close>

record Timespec =
  tv_sec :: i64
  tv_nsec :: i64

definition Timespec_fields :: "(string \<times> cty) list" where
  "Timespec_fields =
    [(''tv_sec'', U64), (''tv_nsec'', U64)]"

definition Timespec_parts :: "Timespec \<Rightarrow> byte list list" where
  "Timespec_parts x =
    [le_bytes 8 (tv_sec x), le_bytes 8 (tv_nsec x)]"

definition Timespec_build :: "byte list list \<Rightarrow> Timespec" where
  "Timespec_build bs =
    \<lparr>tv_sec = le_word (bs ! 0), tv_nsec = le_word (bs ! 1)\<rparr>"

abbreviation "enc_Timespec \<equiv> struct_enc Timespec_fields Timespec_parts"
abbreviation "dec_Timespec \<equiv> struct_dec Timespec_fields Timespec_build"

interpretation timespec: struct_codec Timespec_fields "\<lambda>_. True" Timespec_parts Timespec_build 16
  by (unfold_locales)
    (auto simp: Timespec_fields_def Timespec_parts_def Timespec_build_def round_up_def two_fold codec_simps)

record Itimerspec =
  it_interval :: Timespec
  it_value :: Timespec

definition Itimerspec_fields :: "(string \<times> cty) list" where
  "Itimerspec_fields =
    [(''it_interval'', Struct Timespec_fields), (''it_value'', Struct Timespec_fields)]"

definition Itimerspec_parts :: "Itimerspec \<Rightarrow> byte list list" where
  "Itimerspec_parts x =
    [enc_Timespec (it_interval x), enc_Timespec (it_value x)]"

definition Itimerspec_build :: "byte list list \<Rightarrow> Itimerspec" where
  "Itimerspec_build bs =
    \<lparr>it_interval = dec_Timespec (bs ! 0), it_value = dec_Timespec (bs ! 1)\<rparr>"

abbreviation "enc_Itimerspec \<equiv> struct_enc Itimerspec_fields Itimerspec_parts"
abbreviation "dec_Itimerspec \<equiv> struct_dec Itimerspec_fields Itimerspec_build"

lemma Itimerspec_size: "size_of (Struct Itimerspec_fields) = 32"
  by (simp add: Itimerspec_fields_def Timespec_fields_def round_up_def two_fold)

interpretation itimerspec: struct_codec Itimerspec_fields "\<lambda>_. True" Itimerspec_parts Itimerspec_build 32
  by (unfold_locales; (rule Itimerspec_size)?)
    (auto simp: Itimerspec_fields_def Itimerspec_parts_def Itimerspec_build_def codec_simps
       timespec.struct_size timespec.length_enc timespec.dec_enc simp del: size_of.simps(6))

definition Timespec_default :: Timespec where
  "Timespec_default = \<lparr>tv_sec = 0, tv_nsec = 0\<rparr>"

definition Itimerspec_default :: Itimerspec where
  "Itimerspec_default = \<lparr>it_interval = Timespec_default, it_value = Timespec_default\<rparr>"

section \<open>Operations\<close>

text \<open>\<open>/\<close> and \<open>%\<close> of Rust truncate towards zero: \<open>sdiv\<close> and \<open>smod\<close>.\<close>

definition from_millis :: "i64 \<Rightarrow> Timespec" where
  "from_millis ms = \<lparr>tv_sec = word_of_int (sint ms sdiv 1000), tv_nsec = word_of_int (sint ms smod 1000) * 1000000\<rparr>"

text \<open>
  The vDSO function is code the kernel provides: a parameter, from its address, the clock and the
  machine's state to the status it returns, the time it writes and the new state. The outer state
  carries the cache of \<open>clock_gettime_fn\<close>; the outer option is whether the call returns.
\<close>

type_synonym 'k vdso_fn = "usize \<Rightarrow> i32 \<Rightarrow> 'k \<Rightarrow> i32 \<times> Timespec \<times> 'k"

definition clock_gettime_syscall :: "'k mach \<Rightarrow> i32 \<Rightarrow> ('k, Timespec) io" where
  "clock_gettime_syscall M clockid =
     call_out M ''CLOCK_GETTIME'' [Val (scast clockid), MutPtr (replicate 16 0)]
       (\<lambda>outs. dec_Timespec (out_bytes outs 1))"

definition clock_gettime ::
  "'k mach \<Rightarrow> memory \<Rightarrow> 'k vdso_fn \<Rightarrow> i32 \<Rightarrow> usize \<times> 'k \<Rightarrow> (Timespec res \<times> usize \<times> 'k) option" where
  "clock_gettime M mem vfun clockid s = (case clock_gettime_fn M mem s of
       None \<Rightarrow> None
     | Some (Ok (Some f), cache, k) \<Rightarrow> (case vfun f clockid k of (st, ts, k') \<Rightarrow>
           if st = 0 then Some (Ok ts, cache, k')
           else (case clock_gettime_syscall M clockid k' of (r, k'') \<Rightarrow> Some (r, cache, k'')))
     | Some (Ok None, cache, k) \<Rightarrow>
         (case clock_gettime_syscall M clockid k of (r, k'') \<Rightarrow> Some (r, cache, k''))
     | Some (Err e, cache, k) \<Rightarrow> Some (Err e, cache, k)
     | Some (Panic, cache, k) \<Rightarrow> Some (Panic, cache, k))"

definition clock_getres :: "'k mach \<Rightarrow> i32 \<Rightarrow> ('k, Timespec) io" where
  "clock_getres M clockid =
     call_out M ''CLOCK_GETRES'' [Val (scast clockid), MutPtr (replicate 16 0)]
       (\<lambda>outs. dec_Timespec (out_bytes outs 1))"

text \<open>An optional out parameter: null, or a pointer to the caller's value, handed back as left by the kernel.\<close>

definition rem_ptr :: "Timespec option \<Rightarrow> arg" where
  "rem_ptr r = (case r of Some t \<Rightarrow> MutPtr (enc_Timespec t) | None \<Rightarrow> Val 0)"

definition call_rem ::
  "'k mach \<Rightarrow> string \<Rightarrow> arg list \<Rightarrow> Timespec option \<Rightarrow> 'k \<Rightarrow> unit res \<times> Timespec option \<times> 'k" where
  "call_rem M s args r k =
     (case sys M s (args @ [rem_ptr r]) k of (ret, outs, k') \<Rightarrow>
        (map_res (\<lambda>_. ()) (from_ret ret),
         map_option (\<lambda>_. dec_Timespec (out_bytes outs (length args))) r, k'))"

definition nanosleep :: "'k mach \<Rightarrow> Timespec \<Rightarrow> Timespec option \<Rightarrow> 'k \<Rightarrow> unit res \<times> Timespec option \<times> 'k" where
  "nanosleep M req r = call_rem M ''NANOSLEEP'' [Ptr (enc_Timespec req)] r"

definition clock_nanosleep ::
  "'k mach \<Rightarrow> i32 \<Rightarrow> i32 \<Rightarrow> Timespec \<Rightarrow> Timespec option \<Rightarrow> 'k \<Rightarrow> unit res \<times> Timespec option \<times> 'k" where
  "clock_nanosleep M clockid flags req r =
     call_rem M ''CLOCK_NANOSLEEP'' [Val (scast clockid), Val (scast flags), Ptr (enc_Timespec req)] r"

definition timerfd_create :: "'k mach \<Rightarrow> i32 \<Rightarrow> i32 \<Rightarrow> ('k, i32) io" where
  "timerfd_create M clockid flags = call_i32 M ''TIMERFD_CREATE'' [Val (scast clockid), Val (scast flags)]"

definition timerfd_settime :: "'k mach \<Rightarrow> i32 \<Rightarrow> i32 \<Rightarrow> Itimerspec \<Rightarrow> ('k, Itimerspec) io" where
  "timerfd_settime M fd flags new_value =
     call_out M ''TIMERFD_SETTIME''
       [Val (scast fd), Val (scast flags), Ptr (enc_Itimerspec new_value), MutPtr (enc_Itimerspec Itimerspec_default)]
       (\<lambda>outs. dec_Itimerspec (out_bytes outs 3))"

definition timerfd_gettime :: "'k mach \<Rightarrow> i32 \<Rightarrow> ('k, Itimerspec) io" where
  "timerfd_gettime M fd =
     call_out M ''TIMERFD_GETTIME'' [Val (scast fd), MutPtr (enc_Itimerspec Itimerspec_default)]
       (\<lambda>outs. dec_Itimerspec (out_bytes outs 1))"

section \<open>Properties\<close>

text \<open>
  C38: \<open>from_millis\<close> is exact for every 64-bit count: the two fields stand for the same duration, no
  field overflows, the nanoseconds stay below a second, and no field has the sign opposite to the count. The
  nanoseconds are in the range the field is documented to have, 0 to 999999999, exactly when the count is not
  negative or is a whole number of seconds; other negative counts give a value outside that range.
\<close>
theorem from_millis_exact:
  "sint (tv_sec (from_millis ms)) * 1000000000 + sint (tv_nsec (from_millis ms)) = sint ms * 1000000
   \<and> \<bar>sint (tv_nsec (from_millis ms))\<bar> < 1000000000
   \<and> 0 \<le> sint (tv_sec (from_millis ms)) * sint ms \<and> 0 \<le> sint (tv_nsec (from_millis ms)) * sint ms
   \<and> (sint (tv_nsec (from_millis ms)) \<in> {0..<1000000000} \<longleftrightarrow> 0 \<le> sint ms \<or> 1000 dvd sint ms)"
proof -
  define q where "q = sint ms sdiv 1000"
  define r where "r = sint ms smod 1000"
  have eq: "sint ms = q * 1000 + r" by (simp add: q_def r_def sdiv_mult_smod_eq)
  have r: "\<bar>r\<bar> < 1000" by (simp add: r_def signed_modulo_int_def abs_mult sgn_if)
  have sgn: "0 \<le> q * sint ms \<and> 0 \<le> r * sint ms"
    by (simp add: q_def r_def signed_divide_int_def signed_modulo_int_def sgn_if zero_le_mult_iff
        pos_imp_zdiv_nonneg_iff)
  have ms: "- (2 ^ 63) \<le> sint ms \<and> sint ms < 2 ^ 63"
    using sint_range_size [of ms] by (simp add: word_size)
  have "sint (tv_sec (from_millis ms)) = q"
    unfolding from_millis_def q_def [symmetric] Timespec.select_convs
    using eq r ms by (intro sint_word_of_int_small) auto
  moreover have "sint (word_of_int (r * 1000000) :: i64) = r * 1000000"
    using r by (intro sint_word_of_int_small) auto
  then have "sint (tv_nsec (from_millis ms)) = r * 1000000"
    by (simp add: from_millis_def r_def [symmetric])
  moreover have "0 \<le> r \<longleftrightarrow> 0 \<le> sint ms \<or> 1000 dvd sint ms"
  proof -
    have "1000 dvd sint ms \<longleftrightarrow> r = 0"
      unfolding eq using r dvd_imp_le_int [of r 1000] by (auto simp: dvd_add_right_iff)
    moreover have "0 < sint ms \<longrightarrow> 0 \<le> r" "sint ms < 0 \<longrightarrow> r \<le> 0"
      using sgn by (auto simp: zero_le_mult_iff)
    ultimately show ?thesis by (cases "sint ms = 0") auto
  qed
  ultimately show ?thesis using eq r sgn by (auto simp: zero_le_mult_iff)
qed

section \<open>Reading a clock\<close>

text \<open>
  The clocks of the system: \<open>time\<close> gives what a clock shows in a state of the machine, if there is such a
  clock. \<open>clock_gettime(2)\<close> writes that, or fails with \<open>EINVAL\<close>; the function of the vDSO, code the kernel maps at one
  address, writes the same and returns 0, or declines, which has no effect.
\<close>

definition clock_contract :: "'k mach \<Rightarrow> (i32 \<Rightarrow> 'k \<Rightarrow> (i64 \<times> i64) option) \<Rightarrow> bool" where
  "clock_contract M time \<longleftrightarrow> (\<forall>c b k. length b = 16 \<longrightarrow> (\<exists>outs k'.
     sys M ''CLOCK_GETTIME'' [Val (scast c), MutPtr b] k = ((case time c k of Some _ \<Rightarrow> 0 | None \<Rightarrow> - 22), outs, k')
     \<and> (\<forall>sec nsec. time c k = Some (sec, nsec) \<longrightarrow> out_bytes outs 1 = le_bytes 8 sec @ le_bytes 8 nsec)))"

definition vdso_clock :: "'k vdso_fn \<Rightarrow> usize \<Rightarrow> (i32 \<Rightarrow> 'k \<Rightarrow> (i64 \<times> i64) option) \<Rightarrow> bool" where
  "vdso_clock vfun f time \<longleftrightarrow> (\<forall>c k st ts k'. vfun f c k = (st, ts, k') \<longrightarrow>
     (if st = 0 then time c k = Some (tv_sec ts, tv_nsec ts) else k' = k))"

definition clock_shows :: "(i32 \<Rightarrow> 'k \<Rightarrow> (i64 \<times> i64) option) \<Rightarrow> i32 \<Rightarrow> 'k \<Rightarrow> Timespec res" where
  "clock_shows time c k = (case time c k of
       Some (sec, nsec) \<Rightarrow> Ok \<lparr>tv_sec = sec, tv_nsec = nsec\<rparr> | None \<Rightarrow> Err EINVAL)"

lemma dec_Timespec_bytes:
  "dec_Timespec (le_bytes 8 sec @ le_bytes 8 nsec) = \<lparr>tv_sec = sec, tv_nsec = nsec\<rparr>"
  by (simp add: struct_dec_def get_fields_def get_field_def Timespec_fields_def Timespec_build_def
      round_up_def le_word_le_bytes_full del: le_bytes_0)

lemma clock_gettime_syscall_shows:
  assumes "clock_contract M time"
  shows "fst (clock_gettime_syscall M c k) = clock_shows time c k"
proof -
  from assms obtain outs k' where
      call: "sys M ''CLOCK_GETTIME'' [Val (scast c), MutPtr (replicate 16 0)] k
        = ((case time c k of Some _ \<Rightarrow> 0 | None \<Rightarrow> - 22), outs, k')"
      and out: "\<And>sec nsec. time c k = Some (sec, nsec) \<Longrightarrow> out_bytes outs 1 = le_bytes 8 sec @ le_bytes 8 nsec"
    unfolding clock_contract_def by (metis length_replicate)
  show ?thesis
    using call out dec_Timespec_bytes
    by (cases "time c k") (auto simp: clock_gettime_syscall_def call_out_def clock_shows_def from_ret_def ERRNO_MAX_def)
qed

lemma clock_gettime_after:
  assumes "clock_gettime_fn M mem s = Some (Ok g, cache, k)" and "clock_contract M time"
    and "\<And>f. g = Some f \<Longrightarrow> vdso_clock vfun f time"
  shows "\<exists>k'. clock_gettime M mem vfun c s = Some (clock_shows time c k, cache, k')"
proof (cases g)
  case None
  with assms(1) clock_gettime_syscall_shows [OF assms(2), of c k] show ?thesis
    by (auto simp: clock_gettime_def split: prod.splits)
next
  case (Some f)
  obtain st ts k' where v: "vfun f c k = (st, ts, k')" using prod_cases3 by blast
  with assms(3) [OF Some] have "if st = 0 then time c k = Some (tv_sec ts, tv_nsec ts) else k' = k"
    unfolding vdso_clock_def by blast
  with Some v assms(1) clock_gettime_syscall_shows [OF assms(2), of c k] show ?thesis
    by (auto simp: clock_gettime_def clock_shows_def split: prod.splits if_splits)
qed

text \<open>
  C30: \<open>clock_gettime\<close> reads the clock: in a process whose auxiliary vector names an ELF image with the
  function, the first call and every later one return what the clock asked for shows, or \<open>EINVAL\<close> if there is no such clock,
  whether the function was found, could not be found because opening or reading the vector failed, or declines the
  clock. Of code at other addresses than the one the image gives nothing is assumed.
\<close>
theorem clock_gettime_reads:
  assumes "serves_auxv a av M k" and "vdso_process a av mem found" and "found \<noteq> Some 0" and "found \<noteq> Some FAILED"
    and "clock_contract M time" and "\<forall>f. found = Some f \<longrightarrow> vdso_clock vfun f time"
  shows "\<exists>cache k1 k2. clock_gettime_fn M mem (0, k) = Some (Ok (if auxv_readable M k then found else None), cache, k1)
    \<and> clock_gettime M mem vfun c (0, k) = Some (clock_shows time c k1, cache, k2)
    \<and> (\<forall>c' k3. \<exists>k4. clock_gettime M mem vfun c' (cache, k3) = Some (clock_shows time c' k3, cache, k4))"
proof -
  let ?g = "if auxv_readable M k then found else None"
  obtain k1 where "resolve M mem k = Some (Ok ?g, k1)" using resolve_served [OF assms(1,2)] by blast
  then obtain cache where first: "clock_gettime_fn M mem (0, k) = Some (Ok ?g, cache, k1)"
    by (simp add: clock_gettime_fn_def FAILED_def)
  have "?g \<noteq> Some 0" "?g \<noteq> Some FAILED" and fn: "\<And>f. ?g = Some f \<Longrightarrow> vdso_clock vfun f time"
    using assms(3,4,6) by (auto split: if_splits)
  note later = clock_gettime_fn_cached [OF first this(1,2)]
  from first clock_gettime_after [OF first assms(5) fn] clock_gettime_after [OF later assms(5) fn]
  show ?thesis by blast
qed

text \<open>
  A machine with two clocks that stand at five seconds; the function, at 0x1500 in the small image, serves clock 1
  only, and what is at other addresses gives a wrong time.
\<close>

definition five_seconds :: "i32 \<Rightarrow> byte list \<Rightarrow> (i64 \<times> i64) option" where
  "five_seconds c k = (if c = 0 \<or> c = 1 then Some (5, 0) else None)"

definition clock_mach :: "byte list mach" where
  "clock_mach = \<lparr>m_arch = X86_64, m_kernel = \<lambda>n args k.
     if n = 257 then (3, args, auxv_bytes [(6, 4096), (33, 0x1000), (0, 0)])
     else if n = 0 then file_read args k
     else (case args of
         [Val c, MutPtr b] \<Rightarrow> if c = 0 \<or> c = 1
           then (0, [Val c, MutPtr (le_bytes 8 (5 :: i64) @ le_bytes 8 (0 :: i64))], k) else (- 22, args, k)
       | _ \<Rightarrow> (- 22, args, k))\<rparr>"

definition clock_fn :: "byte list vdso_fn" where
  "clock_fn f c k = (if f = 0x1500 then (if c = 1 then (0, \<lparr>tv_sec = 5, tv_nsec = 0\<rparr>, k) else (- 1, Timespec_default, k))
     else (0, \<lparr>tv_sec = 9999, tv_nsec = 0\<rparr>, k))"

lemma clock_nr: "nr X86_64 ''CLOCK_GETTIME'' = 228"
  using nr_x86_64_at [of 65] by (simp add: nr_x86_64_def)

lemma clock_mach_contract: "clock_contract clock_mach five_seconds"
proof -
  have c: "(scast c :: usize) = 0 \<longleftrightarrow> c = 0" "(scast c :: usize) = 1 \<longleftrightarrow> c = 1" for c :: i32
    using ucast_scast_i32 [of c] by auto
  show ?thesis
    by (auto simp: clock_contract_def clock_mach_def sys_def clock_nr five_seconds_def out_bytes_def c)
qed

theorem clock_gettime_reads_witness:
  "fst (the (clock_gettime clock_mach elf_memory clock_fn 1 (0, []))) = Ok \<lparr>tv_sec = 5, tv_nsec = 0\<rparr>
   \<and> fst (the (clock_gettime clock_mach elf_memory clock_fn 0 (0, []))) = Ok \<lparr>tv_sec = 5, tv_nsec = 0\<rparr>
   \<and> fst (the (clock_gettime clock_mach elf_memory clock_fn 7 (0, []))) = Err EINVAL"
proof -
  have served: "serves_auxv X86_64 [(6, 4096), (33, 0x1000)] clock_mach []"
    by (rule file_serves_auxv) (simp_all add: clock_mach_def sys_def fd_nrs)
  have fn: "\<forall>f. Some 0x1500 = Some f \<longrightarrow> vdso_clock clock_fn f five_seconds"
    by (simp add: vdso_clock_def clock_fn_def five_seconds_def)
  note reads = clock_gettime_reads [OF served elf_process _ _ clock_mach_contract fn]
  show ?thesis using reads [of 1] reads [of 0] reads [of 7]
    by (auto simp: FAILED_def clock_shows_def five_seconds_def)
qed

end
