(* ===== verification/Records.thy ===== *)
theory Records
  imports Layout
begin

text \<open>
  Iterators over the variable-length records a kernel packs into a buffer, as \<open>getdents64\<close> and
  \<open>inotify\<close> do: the contract such an iterator has, and what a caller's loop over it then does.
\<close>

text \<open>
  One call of \<open>next\<close> at position \<open>pos\<close> gives the record, if any, and the new position. The caller's
  loop calls it until it gives none; the loop's value is \<open>None\<close> if it never ends.
\<close>

type_synonym 'r next_fn = "byte list \<Rightarrow> nat \<Rightarrow> ('r option \<times> nat) res"

partial_function (option) drain :: "'r next_fn \<Rightarrow> byte list \<Rightarrow> nat \<Rightarrow> 'r list res option" where
  "drain nx buf pos = (case nx buf pos of
       Ok (None, _) \<Rightarrow> Some (Ok [])
     | Ok (Some r, pos') \<Rightarrow> Option.bind (drain nx buf pos') (\<lambda>rs. Some (map_res ((#) r) rs))
     | Err e \<Rightarrow> Some (Err e)
     | Panic \<Rightarrow> Some Panic)"

text \<open>
  The contract: at the end of the buffer there is no record; a record as the kernel writes it is
  decoded and skipped exactly, wherever it stands; and a call that gives a record moves forward.
\<close>

locale record_iter =
  fixes nx :: "'r next_fn" and enc :: "'w \<Rightarrow> byte list" and view :: "'w \<Rightarrow> 'r" and ok :: "'w \<Rightarrow> bool"
  assumes at_end: "length buf \<le> pos \<Longrightarrow> \<exists>pos'. nx buf pos = Ok (None, pos')"
    and at_record: "ok w \<Longrightarrow> nx (before @ enc w @ after) (length before)
      = Ok (Some (view w), length before + length (enc w))"
    and forward: "nx buf pos = Ok (Some r, pos') \<Longrightarrow> pos < pos'"
begin

lemma drain_records:
  "list_all ok ws \<Longrightarrow> drain nx (before @ concat (map enc ws)) (length before) = Some (Ok (map view ws))"
proof (induction ws arbitrary: before)
  case Nil
  then show ?case using at_end [of before "length before"] by (subst drain.simps) auto
next
  case (Cons w ws)
  then show ?case
    using at_record [of w before "concat (map enc ws)"] Cons.IH [of "before @ enc w"]
    by (subst drain.simps) simp
qed

lemma drain_all: "list_all ok ws \<Longrightarrow> drain nx (concat (map enc ws)) 0 = Some (Ok (map view ws))"
  using drain_records [of ws "[]"] by simp

lemma drain_ends: "\<exists>rs. drain nx buf pos = Some rs"
proof (induction "length buf - pos" arbitrary: pos rule: less_induct)
  case less
  show ?case
  proof (cases "nx buf pos")
    case (Ok rp)
    obtain r pos' where rp: "rp = (r, pos')" by force
    show ?thesis
    proof (cases r)
      case None
      with Ok rp show ?thesis by (subst drain.simps) simp
    next
      case (Some x)
      with Ok rp have pos': "nx buf pos = Ok (Some x, pos')" by simp
      then have "pos < length buf" using at_end [of buf pos] by (cases "length buf \<le> pos") auto
      with forward [OF pos'] have "length buf - pos' < length buf - pos" by simp
      with less obtain rs where "drain nx buf pos' = Some rs" by blast
      with pos' show ?thesis by (subst drain.simps) simp
    qed
  qed (subst drain.simps, simp)+
qed

end

end
