(* ===== verification/Fs.thy ===== *)
theory Fs
  imports Time Records
begin

text \<open>
  Files by path (\<open>src/fs.rs\<close>): \<open>statx\<close> and its struct, the \<open>*at\<close> calls and the wrappers that pass
  \<open>AT_FDCWD\<close>, and the iterator over the records of \<open>getdents64\<close>. A path is its bytes, without the
  terminating NUL.
\<close>

type_synonym path = "byte list"

section \<open>Constants\<close>

definition AT_SYMLINK_NOFOLLOW :: i32 where "AT_SYMLINK_NOFOLLOW = 0x100"
definition AT_EMPTY_PATH :: i32 where "AT_EMPTY_PATH = 0x1000"
definition AT_REMOVEDIR :: i32 where "AT_REMOVEDIR = 0x200"
definition F_OK :: i32 where "F_OK = 0"
definition X_OK :: i32 where "X_OK = 1"
definition W_OK :: i32 where "W_OK = 2"
definition R_OK :: i32 where "R_OK = 4"
definition STATX_BASIC_STATS :: u32 where "STATX_BASIC_STATS = 0x7ff"
definition S_IFMT :: u16 where "S_IFMT = 0xf000"
definition S_IFIFO :: u16 where "S_IFIFO = 0x1000"
definition S_IFCHR :: u16 where "S_IFCHR = 0x2000"
definition S_IFDIR :: u16 where "S_IFDIR = 0x4000"
definition S_IFBLK :: u16 where "S_IFBLK = 0x6000"
definition S_IFREG :: u16 where "S_IFREG = 0x8000"
definition S_IFLNK :: u16 where "S_IFLNK = 0xa000"
definition S_IFSOCK :: u16 where "S_IFSOCK = 0xc000"
definition RENAME_NOREPLACE :: u32 where "RENAME_NOREPLACE = 1"
definition RENAME_EXCHANGE :: u32 where "RENAME_EXCHANGE = 2"
definition AT_SYMLINK_FOLLOW :: i32 where "AT_SYMLINK_FOLLOW = 0x400"
definition DONT_CHANGE :: u32 where "DONT_CHANGE = 0xffffffff"
definition UTIME_NOW :: i64 where "UTIME_NOW = push_bit 30 1 - 1"
definition UTIME_OMIT :: i64 where "UTIME_OMIT = push_bit 30 1 - 2"
definition DT_UNKNOWN :: byte where "DT_UNKNOWN = 0"
definition DT_REG :: byte where "DT_REG = 8"
definition DT_DIR :: byte where "DT_DIR = 4"
definition DT_LNK :: byte where "DT_LNK = 10"

section \<open>Structs\<close>

record StatxTimestamp =
  st_tv_sec :: i64
  st_tv_nsec :: u32
  st_reserved :: i32

definition StatxTimestamp_fields :: "(string \<times> cty) list" where
  "StatxTimestamp_fields =
    [(''tv_sec'', U64), (''tv_nsec'', U32), (''reserved'', U32)]"

definition StatxTimestamp_parts :: "StatxTimestamp \<Rightarrow> byte list list" where
  "StatxTimestamp_parts x =
    [le_bytes 8 (st_tv_sec x), le_bytes 4 (st_tv_nsec x), le_bytes 4 (st_reserved x)]"

definition StatxTimestamp_build :: "byte list list \<Rightarrow> StatxTimestamp" where
  "StatxTimestamp_build bs =
    \<lparr>st_tv_sec = le_word (bs ! 0), st_tv_nsec = le_word (bs ! 1),
     st_reserved = le_word (bs ! 2)\<rparr>"

abbreviation "enc_StatxTimestamp \<equiv> struct_enc StatxTimestamp_fields StatxTimestamp_parts"
abbreviation "dec_StatxTimestamp \<equiv> struct_dec StatxTimestamp_fields StatxTimestamp_build"

interpretation statx_timestamp: struct_codec StatxTimestamp_fields "\<lambda>_. True" StatxTimestamp_parts StatxTimestamp_build 16
  by (unfold_locales)
    (auto simp: StatxTimestamp_fields_def StatxTimestamp_parts_def StatxTimestamp_build_def round_up_def two_fold codec_simps)

record Statx =
  stx_mask :: u32
  stx_blksize :: u32
  stx_attributes :: u64
  stx_nlink :: u32
  stx_uid :: u32
  stx_gid :: u32
  stx_mode :: u16
  stx_spare0 :: u16
  stx_ino :: u64
  stx_size :: u64
  stx_blocks :: u64
  stx_attributes_mask :: u64
  stx_atime :: StatxTimestamp
  stx_btime :: StatxTimestamp
  stx_ctime :: StatxTimestamp
  stx_mtime :: StatxTimestamp
  stx_rdev_major :: u32
  stx_rdev_minor :: u32
  stx_dev_major :: u32
  stx_dev_minor :: u32
  stx_mnt_id :: u64
  stx_dio_mem_align :: u32
  stx_dio_offset_align :: u32
  stx_spare3 :: "u64 list"

definition Statx_fields :: "(string \<times> cty) list" where
  "Statx_fields =
    [(''stx_mask'', U32), (''stx_blksize'', U32), (''stx_attributes'', U64), (''stx_nlink'', U32),
     (''stx_uid'', U32), (''stx_gid'', U32), (''stx_mode'', U16), (''spare0'', U16), (''stx_ino'', U64),
     (''stx_size'', U64), (''stx_blocks'', U64), (''stx_attributes_mask'', U64),
     (''stx_atime'', Struct StatxTimestamp_fields), (''stx_btime'', Struct StatxTimestamp_fields),
     (''stx_ctime'', Struct StatxTimestamp_fields), (''stx_mtime'', Struct StatxTimestamp_fields),
     (''stx_rdev_major'', U32), (''stx_rdev_minor'', U32), (''stx_dev_major'', U32),
     (''stx_dev_minor'', U32), (''stx_mnt_id'', U64), (''stx_dio_mem_align'', U32),
     (''stx_dio_offset_align'', U32), (''spare3'', Arr 12 U64)]"

definition Statx_ok :: "Statx \<Rightarrow> bool" where
  "Statx_ok x \<longleftrightarrow> length (stx_spare3 x) = 12"

definition Statx_parts :: "Statx \<Rightarrow> byte list list" where
  "Statx_parts x =
    [le_bytes 4 (stx_mask x), le_bytes 4 (stx_blksize x), le_bytes 8 (stx_attributes x),
     le_bytes 4 (stx_nlink x), le_bytes 4 (stx_uid x), le_bytes 4 (stx_gid x),
     le_bytes 2 (stx_mode x), le_bytes 2 (stx_spare0 x), le_bytes 8 (stx_ino x),
     le_bytes 8 (stx_size x), le_bytes 8 (stx_blocks x), le_bytes 8 (stx_attributes_mask x),
     enc_StatxTimestamp (stx_atime x), enc_StatxTimestamp (stx_btime x),
     enc_StatxTimestamp (stx_ctime x), enc_StatxTimestamp (stx_mtime x),
     le_bytes 4 (stx_rdev_major x), le_bytes 4 (stx_rdev_minor x),
     le_bytes 4 (stx_dev_major x), le_bytes 4 (stx_dev_minor x), le_bytes 8 (stx_mnt_id x),
     le_bytes 4 (stx_dio_mem_align x), le_bytes 4 (stx_dio_offset_align x),
     enc_array (le_bytes 8) (stx_spare3 x)]"

definition Statx_build :: "byte list list \<Rightarrow> Statx" where
  "Statx_build bs =
    \<lparr>stx_mask = le_word (bs ! 0), stx_blksize = le_word (bs ! 1),
     stx_attributes = le_word (bs ! 2), stx_nlink = le_word (bs ! 3),
     stx_uid = le_word (bs ! 4), stx_gid = le_word (bs ! 5), stx_mode = le_word (bs ! 6),
     stx_spare0 = le_word (bs ! 7), stx_ino = le_word (bs ! 8), stx_size = le_word (bs ! 9),
     stx_blocks = le_word (bs ! 10), stx_attributes_mask = le_word (bs ! 11),
     stx_atime = dec_StatxTimestamp (bs ! 12), stx_btime = dec_StatxTimestamp (bs ! 13),
     stx_ctime = dec_StatxTimestamp (bs ! 14), stx_mtime = dec_StatxTimestamp (bs ! 15),
     stx_rdev_major = le_word (bs ! 16), stx_rdev_minor = le_word (bs ! 17),
     stx_dev_major = le_word (bs ! 18), stx_dev_minor = le_word (bs ! 19),
     stx_mnt_id = le_word (bs ! 20), stx_dio_mem_align = le_word (bs ! 21),
     stx_dio_offset_align = le_word (bs ! 22), stx_spare3 = dec_array 8 le_word 12 (bs ! 23)\<rparr>"

abbreviation "enc_Statx \<equiv> struct_enc Statx_fields Statx_parts"
abbreviation "dec_Statx \<equiv> struct_dec Statx_fields Statx_build"

lemma Statx_ok_build: "fits Statx_fields bs \<Longrightarrow> Statx_ok (Statx_build bs)"
  using fits_nth [of Statx_fields bs 23]
  by (simp add: Statx_ok_def Statx_build_def Statx_fields_def)

lemma Statx_size: "size_of (Struct Statx_fields) = 256"
  by (simp add: Statx_fields_def StatxTimestamp_fields_def round_up_def two_fold)

interpretation statx_codec: struct_codec Statx_fields Statx_ok Statx_parts Statx_build 256
  by (unfold_locales; (rule Statx_size)?; (erule Statx_ok_build)?)
    (auto simp: Statx_fields_def Statx_parts_def Statx_build_def Statx_ok_def codec_simps
       statx_timestamp.struct_size statx_timestamp.length_enc statx_timestamp.dec_enc simp del: size_of.simps(6))

definition StatxTimestamp_default :: StatxTimestamp where
  "StatxTimestamp_default = \<lparr>st_tv_sec = 0, st_tv_nsec = 0, st_reserved = 0\<rparr>"

definition Statx_default :: Statx where
  "Statx_default = \<lparr>stx_mask = 0, stx_blksize = 0, stx_attributes = 0, stx_nlink = 0, stx_uid = 0, stx_gid = 0,
     stx_mode = 0, stx_spare0 = 0, stx_ino = 0, stx_size = 0, stx_blocks = 0, stx_attributes_mask = 0,
     stx_atime = StatxTimestamp_default, stx_btime = StatxTimestamp_default,
     stx_ctime = StatxTimestamp_default, stx_mtime = StatxTimestamp_default,
     stx_rdev_major = 0, stx_rdev_minor = 0, stx_dev_major = 0, stx_dev_minor = 0, stx_mnt_id = 0,
     stx_dio_mem_align = 0, stx_dio_offset_align = 0, stx_spare3 = replicate 12 0\<rparr>"

definition file_type :: "Statx \<Rightarrow> u16" where "file_type s = stx_mode s AND S_IFMT"
definition is_file :: "Statx \<Rightarrow> bool" where "is_file s \<longleftrightarrow> file_type s = S_IFREG"
definition is_dir :: "Statx \<Rightarrow> bool" where "is_dir s \<longleftrightarrow> file_type s = S_IFDIR"
definition is_symlink :: "Statx \<Rightarrow> bool" where "is_symlink s \<longleftrightarrow> file_type s = S_IFLNK"

section \<open>Access and metadata\<close>

definition faccessat :: "'k mach \<Rightarrow> i32 \<Rightarrow> path \<Rightarrow> i32 \<Rightarrow> ('k, unit) io" where
  "faccessat M dirfd path mode = call_unit M ''FACCESSAT'' [Val (scast dirfd), cstr path, Val (scast mode)]"

definition access :: "'k mach \<Rightarrow> path \<Rightarrow> i32 \<Rightarrow> ('k, unit) io" where
  "access M path mode = faccessat M AT_FDCWD path mode"

definition statx :: "'k mach \<Rightarrow> i32 \<Rightarrow> path \<Rightarrow> i32 \<Rightarrow> u32 \<Rightarrow> ('k, Statx) io" where
  "statx M dirfd path flags msk =
     call_out M ''STATX'' [Val (scast dirfd), cstr path, Val (scast flags), Val (ucast msk),
         MutPtr (enc_Statx Statx_default)]
       (\<lambda>outs. dec_Statx (out_bytes outs 4))"

definition stat :: "'k mach \<Rightarrow> path \<Rightarrow> ('k, Statx) io" where
  "stat M path = statx M AT_FDCWD path 0 STATX_BASIC_STATS"

definition lstat :: "'k mach \<Rightarrow> path \<Rightarrow> ('k, Statx) io" where
  "lstat M path = statx M AT_FDCWD path AT_SYMLINK_NOFOLLOW STATX_BASIC_STATS"

definition fstat :: "'k mach \<Rightarrow> i32 \<Rightarrow> ('k, Statx) io" where
  "fstat M fd = statx M fd [] AT_EMPTY_PATH STATX_BASIC_STATS"

section \<open>Changes to the tree\<close>

definition unlinkat :: "'k mach \<Rightarrow> i32 \<Rightarrow> path \<Rightarrow> i32 \<Rightarrow> ('k, unit) io" where
  "unlinkat M dirfd path flags = call_unit M ''UNLINKAT'' [Val (scast dirfd), cstr path, Val (scast flags)]"

definition unlink :: "'k mach \<Rightarrow> path \<Rightarrow> ('k, unit) io" where
  "unlink M path = unlinkat M AT_FDCWD path 0"

definition rmdir :: "'k mach \<Rightarrow> path \<Rightarrow> ('k, unit) io" where
  "rmdir M path = unlinkat M AT_FDCWD path AT_REMOVEDIR"

definition mkdirat :: "'k mach \<Rightarrow> i32 \<Rightarrow> path \<Rightarrow> u32 \<Rightarrow> ('k, unit) io" where
  "mkdirat M dirfd path mode = call_unit M ''MKDIRAT'' [Val (scast dirfd), cstr path, Val (ucast mode)]"

definition mkdir :: "'k mach \<Rightarrow> path \<Rightarrow> u32 \<Rightarrow> ('k, unit) io" where
  "mkdir M path mode = mkdirat M AT_FDCWD path mode"

definition renameat2 :: "'k mach \<Rightarrow> i32 \<Rightarrow> path \<Rightarrow> i32 \<Rightarrow> path \<Rightarrow> u32 \<Rightarrow> ('k, unit) io" where
  "renameat2 M olddirfd old newdirfd new flags =
     call_unit M ''RENAMEAT2'' [Val (scast olddirfd), cstr old, Val (scast newdirfd), cstr new, Val (ucast flags)]"

definition rename :: "'k mach \<Rightarrow> path \<Rightarrow> path \<Rightarrow> ('k, unit) io" where
  "rename M old new = renameat2 M AT_FDCWD old AT_FDCWD new 0"

definition symlinkat :: "'k mach \<Rightarrow> path \<Rightarrow> i32 \<Rightarrow> path \<Rightarrow> ('k, unit) io" where
  "symlinkat M target newdirfd linkpath =
     call_unit M ''SYMLINKAT'' [cstr target, Val (scast newdirfd), cstr linkpath]"

definition symlink :: "'k mach \<Rightarrow> path \<Rightarrow> path \<Rightarrow> ('k, unit) io" where
  "symlink M target linkpath = symlinkat M target AT_FDCWD linkpath"

definition linkat :: "'k mach \<Rightarrow> i32 \<Rightarrow> path \<Rightarrow> i32 \<Rightarrow> path \<Rightarrow> i32 \<Rightarrow> ('k, unit) io" where
  "linkat M olddirfd oldpath newdirfd newpath flags =
     call_unit M ''LINKAT''
       [Val (scast olddirfd), cstr oldpath, Val (scast newdirfd), cstr newpath, Val (scast flags)]"

definition link :: "'k mach \<Rightarrow> path \<Rightarrow> path \<Rightarrow> ('k, unit) io" where
  "link M oldpath newpath = linkat M AT_FDCWD oldpath AT_FDCWD newpath 0"

text \<open>The result of \<open>readlinkat\<close> is the slice \<open>&buf[..n]\<close>, which panics if \<open>n\<close> is beyond the buffer.\<close>

definition readlinkat :: "'k mach \<Rightarrow> i32 \<Rightarrow> path \<Rightarrow> byte list \<Rightarrow> ('k, byte list) io" where
  "readlinkat M dirfd path buf k =
     (case call_buf M ''READLINKAT'' [Val (scast dirfd), cstr path, MutPtr buf, len_arg buf] 2 k of
        (r, buf', k') \<Rightarrow> (res_bind r (\<lambda>n. slice buf' 0 (unat n)), k'))"

definition readlink :: "'k mach \<Rightarrow> path \<Rightarrow> byte list \<Rightarrow> ('k, byte list) io" where
  "readlink M path buf = readlinkat M AT_FDCWD path buf"

section \<open>Modes, owners, sizes, times\<close>

definition fchmodat :: "'k mach \<Rightarrow> i32 \<Rightarrow> path \<Rightarrow> u32 \<Rightarrow> ('k, unit) io" where
  "fchmodat M dirfd path mode = call_unit M ''FCHMODAT'' [Val (scast dirfd), cstr path, Val (ucast mode)]"

definition chmod :: "'k mach \<Rightarrow> path \<Rightarrow> u32 \<Rightarrow> ('k, unit) io" where
  "chmod M path mode = fchmodat M AT_FDCWD path mode"

definition truncate :: "'k mach \<Rightarrow> path \<Rightarrow> i64 \<Rightarrow> ('k, unit) io" where
  "truncate M path len = call_unit M ''TRUNCATE'' [cstr path, Val len]"

definition fchownat :: "'k mach \<Rightarrow> i32 \<Rightarrow> path \<Rightarrow> u32 \<Rightarrow> u32 \<Rightarrow> i32 \<Rightarrow> ('k, unit) io" where
  "fchownat M dirfd path uid gid flags =
     call_unit M ''FCHOWNAT'' [Val (scast dirfd), cstr path, Val (ucast uid), Val (ucast gid), Val (scast flags)]"

definition chown :: "'k mach \<Rightarrow> path \<Rightarrow> u32 \<Rightarrow> u32 \<Rightarrow> ('k, unit) io" where
  "chown M path uid gid = fchownat M AT_FDCWD path uid gid 0"

definition lchown :: "'k mach \<Rightarrow> path \<Rightarrow> u32 \<Rightarrow> u32 \<Rightarrow> ('k, unit) io" where
  "lchown M path uid gid = fchownat M AT_FDCWD path uid gid AT_SYMLINK_NOFOLLOW"

definition utimensat :: "'k mach \<Rightarrow> i32 \<Rightarrow> path \<Rightarrow> (Timespec \<times> Timespec) option \<Rightarrow> i32 \<Rightarrow> ('k, unit) io" where
  "utimensat M dirfd path tms flags =
     call_unit M ''UTIMENSAT'' [Val (scast dirfd), cstr path,
       (case tms of Some (atime, mtime) \<Rightarrow> Ptr (enc_array enc_Timespec [atime, mtime]) | None \<Rightarrow> Val 0),
       Val (scast flags)]"

definition utimens :: "'k mach \<Rightarrow> path \<Rightarrow> (Timespec \<times> Timespec) option \<Rightarrow> ('k, unit) io" where
  "utimens M path tms = utimensat M AT_FDCWD path tms 0"

section \<open>Directory records\<close>

definition getdents64 :: "'k mach \<Rightarrow> i32 \<Rightarrow> byte list \<Rightarrow> 'k \<Rightarrow> usize res \<times> byte list \<times> 'k" where
  "getdents64 M fd buf = call_buf M ''GETDENTS64'' [Val (scast fd), MutPtr buf, len_arg buf] 1"

record RawDirent =
  d_ino :: u64
  d_type :: byte
  d_name :: "byte list"

record Dirents =
  d_buf :: "byte list"
  d_pos :: nat

definition dirents :: "byte list \<Rightarrow> Dirents" where
  "dirents b = \<lparr>d_buf = b, d_pos = 0\<rparr>"

definition Dirents_next :: "Dirents \<Rightarrow> (RawDirent option \<times> Dirents) res" where
  "Dirents_next self =
     (if length (d_buf self) \<le> d_pos self then Ok (None, self)
      else
        res_bind (slice (d_buf self) (d_pos self) (length (d_buf self))) (\<lambda>rec.
        res_bind (slice rec 0 8) (\<lambda>ino.
        res_bind (slice rec 16 18) (\<lambda>rl.
        let d_reclen = unat (le_word rl :: u16) in
        res_bind (index rec 18) (\<lambda>ty.
        res_bind (slice rec 19 d_reclen) (\<lambda>name_region.
          Ok (Some \<lparr>d_ino = le_word ino, d_type = ty, d_name = takeWhile (\<lambda>b. b \<noteq> 0) name_region\<rparr>,
              self\<lparr>d_pos := d_pos self + d_reclen\<rparr>)))))))"

section \<open>The iterator on what the kernel writes\<close>

text \<open>
  A \<open>linux_dirent64\<close>: inode, offset, record length, type, name, NUL and padding. The kernel does not write the padding:
  it is whatever the buffer held before.
\<close>

record linux_dirent64 =
  k_ino :: u64
  k_off :: u64
  k_type :: byte
  k_name :: "byte list"
  k_pad :: "byte list"

definition dirent_reclen :: "linux_dirent64 \<Rightarrow> nat" where
  "dirent_reclen w = 20 + length (k_name w) + length (k_pad w)"

definition dirent_bytes :: "linux_dirent64 \<Rightarrow> byte list" where
  "dirent_bytes w = le_bytes 8 (k_ino w) @ le_bytes 8 (k_off w)
     @ le_bytes 2 (of_nat (dirent_reclen w) :: u16) @ [k_type w] @ k_name w
     @ 0 # k_pad w"

definition dirent_ok :: "linux_dirent64 \<Rightarrow> bool" where
  "dirent_ok w \<longleftrightarrow> 0 \<notin> set (k_name w) \<and> dirent_reclen w < 65536"

definition dirent_view :: "linux_dirent64 \<Rightarrow> RawDirent" where
  "dirent_view w = \<lparr>d_ino = k_ino w, d_type = k_type w, d_name = k_name w\<rparr>"

definition dirents_step :: "RawDirent next_fn" where
  "dirents_step b p = map_res (\<lambda>(r, s). (r, d_pos s)) (Dirents_next \<lparr>d_buf = b, d_pos = p\<rparr>)"

lemma length_dirent_bytes: "length (dirent_bytes w) = dirent_reclen w"
  by (simp add: dirent_bytes_def dirent_reclen_def)

lemma takeWhile_name: "0 \<notin> set n \<Longrightarrow> takeWhile (\<lambda>b. b \<noteq> 0) (n @ replicate (Suc p) (0 :: byte)) = n"
  by (subst takeWhile_append2) auto

lemma Dirents_next_record:
  assumes "dirent_ok w"
  shows "Dirents_next \<lparr>d_buf = before @ dirent_bytes w @ after, d_pos = length before\<rparr>
    = Ok (Some (dirent_view w), \<lparr>d_buf = before @ dirent_bytes w @ after,
        d_pos = length before + length (dirent_bytes w)\<rparr>)"
proof -
  let ?b = "dirent_bytes w"
  have len: "unat (of_nat (dirent_reclen w) :: u16) = dirent_reclen w" "20 \<le> dirent_reclen w"
    using assms by (simp_all add: dirent_ok_def unat_of_nat) (simp add: dirent_reclen_def)
  have fields: "take 8 ?b = le_bytes 8 (k_ino w)"
    "take 2 (drop 16 ?b) = le_bytes 2 (of_nat (dirent_reclen w) :: u16)"
    "(?b @ after) ! 18 = k_type w"
    "take (dirent_reclen w - 19) (drop 19 ?b) = k_name w @ 0 # k_pad w"
    by (simp_all add: dirent_bytes_def nth_append drop_past del: le_bytes_0)
      (simp add: dirent_reclen_def)
  show ?thesis using assms len(2)
    by (simp add: Dirents_next_def slice_def index_def Let_def fields len(1) length_dirent_bytes dirent_view_def
        takeWhile_nul dirent_ok_def le_word_le_bytes_full)
qed

interpretation dirent: record_iter dirents_step dirent_bytes dirent_view dirent_ok
proof
  show "\<exists>p'. dirents_step b p = Ok (None, p')" if "length b \<le> p" for b p
    using that by (simp add: dirents_step_def Dirents_next_def)
  show "dirents_step (before @ dirent_bytes w @ after) (length before)
      = Ok (Some (dirent_view w), length before + length (dirent_bytes w))" if "dirent_ok w" for w before after
    using that by (simp add: dirents_step_def Dirents_next_record)
  show "p < p'" if "dirents_step b p = Ok (Some r, p')" for b p r p'
    using that by (auto simp: dirents_step_def Dirents_next_def slice_def index_def Let_def res_bind_eq_Ok split: if_splits)
qed

text \<open>
  \<open>getdents64(2)\<close> on a directory of which \<open>entries\<close> are still to be read: it writes as many records as it
  likes, at least one unless there are none left, to the front of the buffer and returns their length; or it fails.
\<close>

definition getdents_contract :: "'k mach \<Rightarrow> i32 \<Rightarrow> ('k \<Rightarrow> RawDirent list) \<Rightarrow> bool" where
  "getdents_contract M fd entries \<longleftrightarrow>
     (\<forall>b k ret outs k'. sys M ''GETDENTS64'' [Val (scast fd), MutPtr b, Val (of_nat (length b))] k = (ret, outs, k') \<longrightarrow>
        (\<exists>ws. let w = concat (map dirent_bytes ws) in
           list_all dirent_ok ws \<and> length w \<le> length b \<and> ret = of_nat (length w)
           \<and> out_bytes outs 1 = w @ drop (length w) b
           \<and> entries k = map dirent_view ws @ entries k' \<and> (ws = [] \<longrightarrow> entries k = []))
        \<or> (\<exists>m. errno_ret ret m \<and> entries k' = entries k))"

text \<open>
  C25: \<open>getdents64\<close> and the iteration over what it filled read a directory: each call yields the next
  entries, in order, each with its inode, its type and its whole name, whatever the padding holds; a count of
  zero means that none are left; and a failed call takes none. Nothing panics.
\<close>
theorem dirents_decode:
  assumes "getdents_contract M fd entries" and "length buf < 2 ^ 63" and "getdents64 M fd buf k = (r, out, k')"
  shows "case r of
      Ok n \<Rightarrow> \<exists>es. drain dirents_step (take (unat n) out) 0 = Some (Ok es) \<and> entries k = es @ entries k'
        \<and> (n = 0 \<longrightarrow> entries k = []) \<and> (n \<noteq> 0 \<longrightarrow> es \<noteq> [])
    | Err _ \<Rightarrow> entries k' = entries k
    | Panic \<Rightarrow> False"
proof -
  obtain ret outs where call: "sys M ''GETDENTS64'' [Val (scast fd), MutPtr buf, Val (of_nat (length buf))] k = (ret, outs, k')"
      and r: "r = from_ret ret" "out = out_bytes outs 1"
    using assms(3) by (auto simp: getdents64_def call_buf_def split: prod.splits)
  from assms(1) [unfolded getdents_contract_def, rule_format, OF call] show ?thesis
  proof (elim disjE exE)
    fix ws
    define w where "w = concat (map dirent_bytes ws)"
    assume "let w = concat (map dirent_bytes ws) in
           list_all dirent_ok ws \<and> length w \<le> length buf \<and> ret = of_nat (length w)
           \<and> out_bytes outs 1 = w @ drop (length w) buf
           \<and> entries k = map dirent_view ws @ entries k' \<and> (ws = [] \<longrightarrow> entries k = [])"
    then have ws: "list_all dirent_ok ws" "length w \<le> length buf" "ret = of_nat (length w)" "out = w @ drop (length w) buf"
        "entries k = map dirent_view ws @ entries k'" "ws = [] \<longrightarrow> entries k = []"
      unfolding Let_def w_def [symmetric] r(2) by blast+
    have len: "length w < 2 ^ 63" using ws(2) assms(2) by simp
    have "r = Ok (of_nat (length w))" unfolding r(1) ws(3) using len by (rule from_ret_of_nat)
    moreover have n: "unat (of_nat (length w) :: usize) = length w" using len by (rule unat_of_nat_usize)
    moreover have "drain dirents_step w 0 = Some (Ok (map dirent_view ws))"
      unfolding w_def using ws(1) by (rule dirent.drain_all)
    moreover have "(of_nat (length w) :: usize) = 0 \<longleftrightarrow> ws = []"
      using n by (cases ws) (auto simp: w_def length_dirent_bytes dirent_reclen_def)
    ultimately show ?thesis using ws by auto
  next
    fix m assume "errno_ret ret m \<and> entries k' = entries k"
    then show ?thesis by (auto simp: r from_ret_errno_ret)
  qed
qed

text \<open>A directory of entries called \<open>a\<close>, read one at a time, with padding left over from earlier use of the buffer.\<close>

definition entry_a :: linux_dirent64 where
  "entry_a = \<lparr>k_ino = 7, k_off = 1, k_type = 8, k_name = [97], k_pad = [98, 0, 99]\<rparr>"

definition dir_mach :: "nat mach" where
  "dir_mach = \<lparr>m_arch = X86_64, m_kernel = \<lambda>n args k. (case args of
     [f, MutPtr b, Val l] \<Rightarrow> if k = 0 then (0, args, k) else if length b < 24 then (- 22, args, k)
       else (24, [f, MutPtr (dirent_bytes entry_a @ drop 24 b), Val l], k - 1)
   | _ \<Rightarrow> (- 9, args, k))\<rparr>"

lemma length_entry_a: "length (dirent_bytes entry_a) = 24" "dirent_ok entry_a"
  "dirent_view entry_a = \<lparr>d_ino = 7, d_type = 8, d_name = [97]\<rparr>"
  by (simp_all add: length_dirent_bytes dirent_reclen_def entry_a_def dirent_ok_def dirent_view_def)

lemma dir_mach_contract: "getdents_contract dir_mach fd (\<lambda>k. replicate k \<lparr>d_ino = 7, d_type = 8, d_name = [97]\<rparr>)"
  unfolding getdents_contract_def
proof (intro allI impI)
  fix b k ret outs k'
  let ?e = "\<lambda>k. replicate k \<lparr>d_ino = 7, d_type = 8, d_name = [97]\<rparr>"
  assume call: "sys dir_mach ''GETDENTS64'' [Val (scast fd), MutPtr b, Val (of_nat (length b))] k = (ret, outs, k')"
  have e: "errno_ret (- 22) 22" by (simp add: errno_ret_def)
  consider "k = 0" | "k \<noteq> 0" "length b < 24" | "k \<noteq> 0" "24 \<le> length b" by linarith
  then show "(\<exists>ws. let w = concat (map dirent_bytes ws) in list_all dirent_ok ws \<and> length w \<le> length b
      \<and> ret = of_nat (length w) \<and> out_bytes outs 1 = w @ drop (length w) b
      \<and> ?e k = map dirent_view ws @ ?e k' \<and> (ws = [] \<longrightarrow> ?e k = []))
    \<or> (\<exists>m. errno_ret ret m \<and> ?e k' = ?e k)"
  proof cases
    case 1
    with call show ?thesis
      by (intro disjI1 exI [of _ "[]"]) (auto simp: sys_def dir_mach_def out_bytes_def)
  next
    case 2
    with call e show ?thesis by (auto simp: sys_def dir_mach_def)
  next
    case 3
    with call show ?thesis
      by (intro disjI1 exI [of _ "[entry_a]"])
        (auto simp: sys_def dir_mach_def out_bytes_def length_entry_a gr0_conv_Suc)
  qed
qed

theorem dirents_decode_witness:
  "\<exists>out. getdents64 dir_mach 3 (replicate 64 1) 1 = (Ok 24, out, 0)
     \<and> drain dirents_step (take 24 out) 0 = Some (Ok [\<lparr>d_ino = 7, d_type = 8, d_name = [97]\<rparr>])"
proof -
  obtain out where run: "getdents64 dir_mach 3 (replicate 64 1) 1 = (Ok 24, out, 0)"
    by (simp add: getdents64_def call_buf_def sys_def dir_mach_def from_ret_def ERRNO_MAX_def)
  from dirents_decode [OF dir_mach_contract _ run] run show ?thesis by auto
qed

definition d_reclen_at :: "byte list \<Rightarrow> nat \<Rightarrow> nat" where
  "d_reclen_at b p = unat (le_word (take 2 (drop (p + 16) b)) :: u16)"

text \<open>
  C26: on arbitrary bytes the iteration always ends, and a call of \<open>next\<close> panics exactly when a
  record is cut off: fewer than 19 bytes are left, or the record length is below 19 or runs past the end.
\<close>
theorem dirents_any_bytes:
  "(\<exists>rs. drain dirents_step b p = Some rs)
   \<and> (Dirents_next \<lparr>d_buf = b, d_pos = p\<rparr> = Panic \<longleftrightarrow>
        p < length b \<and> (length b < p + 19 \<or> d_reclen_at b p < 19 \<or> length b < p + d_reclen_at b p))"
proof -
  have "Dirents_next \<lparr>d_buf = b, d_pos = p\<rparr> = Panic \<longleftrightarrow>
        p < length b \<and> (length b < p + 19 \<or> d_reclen_at b p < 19 \<or> length b < p + d_reclen_at b p)"
    by (auto simp: Dirents_next_def slice_def index_def Let_def d_reclen_at_def add.commute)
  then show ?thesis using dirent.drain_ends by blast
qed

text \<open>
  The type bits of a mode are read independently of its permission bits: of the three type tests
  the one for the kind of the file holds, and no other.
\<close>
lemma file_type_of_mode:
  assumes "kind \<in> {S_IFIFO, S_IFCHR, S_IFDIR, S_IFBLK, S_IFREG, S_IFLNK, S_IFSOCK}" and "perm AND S_IFMT = 0"
    and "stx_mode s = kind OR perm"
  shows "file_type s = kind \<and> (is_file s \<longleftrightarrow> kind = S_IFREG) \<and> (is_dir s \<longleftrightarrow> kind = S_IFDIR)
     \<and> (is_symlink s \<longleftrightarrow> kind = S_IFLNK)"
proof -
  have "kind AND S_IFMT = kind"
    using assms(1)
    by (auto simp: S_IFMT_def S_IFIFO_def S_IFCHR_def S_IFDIR_def S_IFBLK_def S_IFREG_def S_IFLNK_def S_IFSOCK_def)
  with assms(2,3) have "file_type s = kind"
    by (simp add: file_type_def bit.conj_disj_distrib2)
  then show ?thesis by (simp add: is_file_def is_dir_def is_symlink_def)
qed

lemma file_type_of_mode_dir:
  "is_dir (Statx_default\<lparr>stx_mode := 0x41ed\<rparr>) \<and> \<not> is_file (Statx_default\<lparr>stx_mode := 0x41ed\<rparr>)"
  using file_type_of_mode
    [where kind = S_IFDIR and perm = "0x1ed" and s = "Statx_default\<lparr>stx_mode := 0x41ed\<rparr>"]
  by (simp add: S_IFMT_def S_IFDIR_def S_IFREG_def)

end
