(* ===== verification/Termios.thy ===== *)
theory Termios
  imports Fs
begin

text \<open>
  Terminal attributes (\<open>src/termios.rs\<close>): the kernel's \<open>termios\<close>, raw mode, the \<open>ioctl\<close> wrappers,
  \<open>isatty\<close> and \<open>ttyname\<close> with the path it builds without an allocator.
\<close>

section \<open>Constants\<close>

definition NCCS :: nat where "NCCS = 0x13"
definition TCGETS :: usize where "TCGETS = 0x5401"
definition TCSETS :: usize where "TCSETS = 0x5402"
definition TCSETSW :: usize where "TCSETSW = 0x5403"
definition TCSETSF :: usize where "TCSETSF = 0x5404"
definition TCSBRK :: usize where "TCSBRK = 0x5409"
definition TCXONC :: usize where "TCXONC = 0x540a"
definition TCFLSH :: usize where "TCFLSH = 0x540b"
definition TIOCGPGRP :: usize where "TIOCGPGRP = 0x540f"
definition TIOCSPGRP :: usize where "TIOCSPGRP = 0x5410"
definition TCSBRKP :: usize where "TCSBRKP = 0x5425"
definition TIOCGSID :: usize where "TIOCGSID = 0x5429"
definition TCSANOW :: i32 where "TCSANOW = 0"
definition TCSADRAIN :: i32 where "TCSADRAIN = 1"
definition TCSAFLUSH :: i32 where "TCSAFLUSH = 2"
definition TCIFLUSH :: i32 where "TCIFLUSH = 0"
definition TCOFLUSH :: i32 where "TCOFLUSH = 1"
definition TCIOFLUSH :: i32 where "TCIOFLUSH = 2"
definition TCOOFF :: i32 where "TCOOFF = 0"
definition TCOON :: i32 where "TCOON = 1"
definition TCIOFF :: i32 where "TCIOFF = 2"
definition TCION :: i32 where "TCION = 3"
definition IGNBRK :: u32 where "IGNBRK = 1"
definition BRKINT :: u32 where "BRKINT = 2"
definition PARMRK :: u32 where "PARMRK = 8"
definition ISTRIP :: u32 where "ISTRIP = 0x20"
definition INLCR :: u32 where "INLCR = 0x40"
definition IGNCR :: u32 where "IGNCR = 0x80"
definition ICRNL :: u32 where "ICRNL = 0x100"
definition IXON :: u32 where "IXON = 0x400"
definition OPOST :: u32 where "OPOST = 1"
definition CSIZE :: u32 where "CSIZE = 0x30"
definition CS8 :: u32 where "CS8 = 0x30"
definition PARENB :: u32 where "PARENB = 0x100"
definition ISIG :: u32 where "ISIG = 1"
definition ICANON :: u32 where "ICANON = 2"
definition ECHO :: u32 where "ECHO = 8"
definition ECHONL :: u32 where "ECHONL = 0x40"
definition IEXTEN :: u32 where "IEXTEN = 0x8000"
definition VINTR :: nat where "VINTR = 0"
definition VQUIT :: nat where "VQUIT = 1"
definition VERASE :: nat where "VERASE = 2"
definition VKILL :: nat where "VKILL = 3"
definition VEOF :: nat where "VEOF = 4"
definition VTIME :: nat where "VTIME = 5"
definition VMIN :: nat where "VMIN = 6"
definition VSWTC :: nat where "VSWTC = 7"
definition VSTART :: nat where "VSTART = 8"
definition VSTOP :: nat where "VSTOP = 9"
definition VSUSP :: nat where "VSUSP = 0xa"
definition VEOL :: nat where "VEOL = 0xb"
definition VREPRINT :: nat where "VREPRINT = 0xc"
definition VDISCARD :: nat where "VDISCARD = 0xd"
definition VWERASE :: nat where "VWERASE = 0xe"
definition VLNEXT :: nat where "VLNEXT = 0xf"
definition VEOL2 :: nat where "VEOL2 = 0x10"

section \<open>Attributes\<close>

record Termios =
  c_iflag :: u32
  c_oflag :: u32
  c_cflag :: u32
  c_lflag :: u32
  c_line :: byte
  c_cc :: "byte list"

definition Termios_fields :: "(string \<times> cty) list" where
  "Termios_fields =
    [(''c_iflag'', U32), (''c_oflag'', U32), (''c_cflag'', U32), (''c_lflag'', U32),
     (''c_line'', U8), (''c_cc'', Arr 19 U8)]"

definition Termios_ok :: "Termios \<Rightarrow> bool" where
  "Termios_ok x \<longleftrightarrow> length (c_cc x) = 19"

definition Termios_parts :: "Termios \<Rightarrow> byte list list" where
  "Termios_parts x =
    [le_bytes 4 (c_iflag x), le_bytes 4 (c_oflag x), le_bytes 4 (c_cflag x),
     le_bytes 4 (c_lflag x), le_bytes 1 (c_line x), c_cc x]"

definition Termios_build :: "byte list list \<Rightarrow> Termios" where
  "Termios_build bs =
    \<lparr>c_iflag = le_word (bs ! 0), c_oflag = le_word (bs ! 1), c_cflag = le_word (bs ! 2),
     c_lflag = le_word (bs ! 3), c_line = le_word (bs ! 4), c_cc = bs ! 5\<rparr>"

abbreviation "enc_Termios \<equiv> struct_enc Termios_fields Termios_parts"
abbreviation "dec_Termios \<equiv> struct_dec Termios_fields Termios_build"

lemma Termios_ok_build: "fits Termios_fields bs \<Longrightarrow> Termios_ok (Termios_build bs)"
  using fits_nth [of Termios_fields bs 5]
  by (simp add: Termios_ok_def Termios_build_def Termios_fields_def)

interpretation termios_codec: struct_codec Termios_fields Termios_ok Termios_parts Termios_build 36
  by (unfold_locales; (erule Termios_ok_build)?)
    (auto simp: Termios_fields_def Termios_parts_def Termios_build_def Termios_ok_def round_up_def two_fold codec_simps)

definition Termios_default :: Termios where
  "Termios_default = \<lparr>c_iflag = 0, c_oflag = 0, c_cflag = 0, c_lflag = 0, c_line = 0, c_cc = replicate NCCS 0\<rparr>"

text \<open>The two assignments into \<open>c_cc\<close> are in range, since it has \<open>NCCS\<close> elements.\<close>

definition make_raw :: "Termios \<Rightarrow> Termios" where
  "make_raw t = t\<lparr>
     c_iflag := c_iflag t AND NOT (IGNBRK OR BRKINT OR PARMRK OR ISTRIP OR INLCR OR IGNCR OR ICRNL OR IXON),
     c_oflag := c_oflag t AND NOT OPOST,
     c_lflag := c_lflag t AND NOT (ECHO OR ECHONL OR ICANON OR ISIG OR IEXTEN),
     c_cflag := (c_cflag t AND NOT (CSIZE OR PARENB)) OR CS8,
     c_cc := (c_cc t)[VMIN := 1, VTIME := 0]\<rparr>"

text \<open>A request without a result, \<open>ioctl(..)?; Ok(())\<close>, and one that fills a local value.\<close>

definition ioctl_unit :: "'k mach \<Rightarrow> i32 \<Rightarrow> usize \<Rightarrow> arg \<Rightarrow> ('k, unit) io" where
  "ioctl_unit M fd request arg k =
     (case ioctl M fd request arg k of (r, _, k') \<Rightarrow> (map_res (\<lambda>_. ()) r, k'))"

definition ioctl_out :: "'k mach \<Rightarrow> i32 \<Rightarrow> usize \<Rightarrow> byte list \<Rightarrow> (byte list \<Rightarrow> 'a) \<Rightarrow> ('k, 'a) io" where
  "ioctl_out M fd request b dec k =
     (case ioctl M fd request (MutPtr b) k of (r, a, k') \<Rightarrow> (map_res (\<lambda>_. dec (out_bytes [a] 0)) r, k'))"

definition tcgetattr :: "'k mach \<Rightarrow> i32 \<Rightarrow> ('k, Termios) io" where
  "tcgetattr M fd = ioctl_out M fd TCGETS (enc_Termios Termios_default) dec_Termios"

definition tcsetattr_with :: "'k mach \<Rightarrow> i32 \<Rightarrow> i32 \<Rightarrow> Termios \<Rightarrow> ('k, unit) io" where
  "tcsetattr_with M fd actions t =
     ioctl_unit M fd (if actions = TCSANOW then TCSETS else if actions = TCSAFLUSH then TCSETSF else TCSETSW)
       (Ptr (enc_Termios t))"

definition tcsetattr :: "'k mach \<Rightarrow> i32 \<Rightarrow> Termios \<Rightarrow> ('k, unit) io" where
  "tcsetattr M fd t = tcsetattr_with M fd TCSADRAIN t"

definition tcflush :: "'k mach \<Rightarrow> i32 \<Rightarrow> i32 \<Rightarrow> ('k, unit) io" where
  "tcflush M fd queue = ioctl_unit M fd TCFLSH (Val (scast queue))"

definition tcdrain :: "'k mach \<Rightarrow> i32 \<Rightarrow> ('k, unit) io" where
  "tcdrain M fd = ioctl_unit M fd TCSBRK (Val 1)"

definition tcgetpgrp :: "'k mach \<Rightarrow> i32 \<Rightarrow> ('k, i32) io" where
  "tcgetpgrp M fd = ioctl_out M fd TIOCGPGRP (le_bytes 4 (0 :: i32)) le_word"

definition tcsetpgrp :: "'k mach \<Rightarrow> i32 \<Rightarrow> i32 \<Rightarrow> ('k, unit) io" where
  "tcsetpgrp M fd pgrp = ioctl_unit M fd TIOCSPGRP (Ptr (le_bytes 4 pgrp))"

definition tcflow :: "'k mach \<Rightarrow> i32 \<Rightarrow> i32 \<Rightarrow> ('k, unit) io" where
  "tcflow M fd action = ioctl_unit M fd TCXONC (Val (scast action))"

definition tcsendbreak :: "'k mach \<Rightarrow> i32 \<Rightarrow> i32 \<Rightarrow> ('k, unit) io" where
  "tcsendbreak M fd duration = ioctl_unit M fd TCSBRKP (Val (scast duration))"

definition tcgetsid :: "'k mach \<Rightarrow> i32 \<Rightarrow> ('k, i32) io" where
  "tcgetsid M fd = ioctl_out M fd TIOCGSID (le_bytes 4 (0 :: i32)) le_word"

definition isatty :: "'k mach \<Rightarrow> i32 \<Rightarrow> 'k \<Rightarrow> bool \<times> 'k" where
  "isatty M fd k = (case tcgetattr M fd k of (Ok _, k') \<Rightarrow> (True, k') | (_, k') \<Rightarrow> (False, k'))"

section \<open>The name of a terminal\<close>

definition set_at :: "'a list \<Rightarrow> nat \<Rightarrow> 'a \<Rightarrow> 'a list res" where
  "set_at xs i v = (if i < length xs then Ok (xs[i := v]) else Panic)"

text \<open>The loop that writes the digits of \<open>n\<close>, last one first, from \<open>pos\<close> on.\<close>

function digits_loop :: "byte list \<Rightarrow> nat \<Rightarrow> nat \<Rightarrow> (byte list \<times> nat) res" where
  "digits_loop out pos n =
     res_bind (set_at out pos (48 + of_nat (n mod 10))) (\<lambda>out'.
       if n div 10 = 0 then Ok (out', pos + 1) else digits_loop out' (pos + 1) (n div 10))"
  by pat_completeness auto
termination by (relation "measure (\<lambda>(out, pos, n). n)") auto

declare digits_loop.simps [simp del]

text \<open>\<open>xs[i..j].reverse()\<close> and \<open>CStr::from_bytes_with_nul(&xs[..=i]).unwrap()\<close>.\<close>

definition reverse_slice :: "'a list \<Rightarrow> nat \<Rightarrow> nat \<Rightarrow> 'a list res" where
  "reverse_slice xs i j = res_bind (slice xs i j) (\<lambda>ys. Ok (take i xs @ rev ys @ drop j xs))"

definition cstr_upto :: "byte list \<Rightarrow> nat \<Rightarrow> byte list res" where
  "cstr_upto xs i = res_bind (slice xs 0 (Suc i)) (\<lambda>ys.
     if last ys = 0 \<and> 0 \<notin> set (butlast ys) then Ok (butlast ys) else Panic)"

definition proc_fd_prefix :: "byte list" where
  "proc_fd_prefix = ascii ''/proc/self/fd/''"

definition proc_fd_path :: "i32 \<Rightarrow> byte list \<Rightarrow> byte list res" where
  "proc_fd_path fd out =
     res_bind (copy_at out 0 proc_fd_prefix) (\<lambda>out.
     let pos = length proc_fd_prefix in
     res_bind (if sint fd < 0 then map_res (\<lambda>out. (out, pos + 1)) (set_at out pos 45) else Ok (out, pos))
       (\<lambda>(out, start).
     res_bind (digits_loop out start (nat \<bar>sint fd\<bar>)) (\<lambda>(out, pos).
     res_bind (reverse_slice out start pos) (\<lambda>out.
     res_bind (set_at out pos 0) (\<lambda>out.
     cstr_upto out pos)))))"

definition ttyname :: "'k mach \<Rightarrow> i32 \<Rightarrow> byte list \<Rightarrow> ('k, byte list) io" where
  "ttyname M fd buf k = (case isatty M fd k of
       (False, k1) \<Rightarrow> (Err ENOTTY, k1)
     | (True, k1) \<Rightarrow> (case proc_fd_path fd (replicate 32 0) of
           Ok path \<Rightarrow> io_bind (readlinkat M AT_FDCWD path buf)
             (\<lambda>target. if length target = length buf then io_err ERANGE else io_return target) k1
         | Err e \<Rightarrow> (Err e, k1)
         | Panic \<Rightarrow> (Panic, k1)))"

section \<open>Raw mode\<close>

lemmas termios_flags = IGNBRK_def BRKINT_def PARMRK_def ISTRIP_def INLCR_def IGNCR_def ICRNL_def IXON_def OPOST_def
  CSIZE_def CS8_def PARENB_def ISIG_def ICANON_def ECHO_def ECHONL_def IEXTEN_def VMIN_def VTIME_def

definition iflag_raw :: "nat set" where "iflag_raw = {0, 1, 3, 5, 6, 7, 8, 10}"
definition lflag_raw :: "nat set" where "lflag_raw = {0, 1, 3, 6, 15}"

lemma bit_flags:
  "bit IGNBRK n \<longleftrightarrow> n = 0"
  "bit BRKINT n \<longleftrightarrow> n = 1"
  "bit PARMRK n \<longleftrightarrow> n = 3"
  "bit ISTRIP n \<longleftrightarrow> n = 5"
  "bit INLCR n \<longleftrightarrow> n = 6"
  "bit IGNCR n \<longleftrightarrow> n = 7"
  "bit ICRNL n \<longleftrightarrow> n = 8"
  "bit IXON n \<longleftrightarrow> n = 10"
  "bit OPOST n \<longleftrightarrow> n = 0"
  "bit CSIZE n \<longleftrightarrow> n = 4 \<or> n = 5"
  "bit CS8 n \<longleftrightarrow> n = 4 \<or> n = 5"
  "bit PARENB n \<longleftrightarrow> n = 8"
  "bit ISIG n \<longleftrightarrow> n = 0"
  "bit ICANON n \<longleftrightarrow> n = 1"
  "bit ECHO n \<longleftrightarrow> n = 3"
  "bit ECHONL n \<longleftrightarrow> n = 6"
  "bit IEXTEN n \<longleftrightarrow> n = 15"
proof -
  have below: "bit (w :: u32) n \<longleftrightarrow> n \<in> set (filter (bit w) [0..<32])" for w
    using bit_imp_le_length [of w n] by auto
  have up: "[0..<32] = [0, 1, 2, 3, 4, 5, 6, 7, 8, 9, 10, 11, 12, 13, 14, 15, 16, 17, 18, 19, 20, 21, 22, 23, 24,
      25, 26, 27, 28, 29, 30, 31]"
    by (simp add: upt_rec)
  show "bit IGNBRK n \<longleftrightarrow> n = 0"
    "bit BRKINT n \<longleftrightarrow> n = 1"
    "bit PARMRK n \<longleftrightarrow> n = 3"
    "bit ISTRIP n \<longleftrightarrow> n = 5"
    "bit INLCR n \<longleftrightarrow> n = 6"
    "bit IGNCR n \<longleftrightarrow> n = 7"
    "bit ICRNL n \<longleftrightarrow> n = 8"
    "bit IXON n \<longleftrightarrow> n = 10"
    "bit OPOST n \<longleftrightarrow> n = 0"
    "bit CSIZE n \<longleftrightarrow> n = 4 \<or> n = 5"
    "bit CS8 n \<longleftrightarrow> n = 4 \<or> n = 5"
    "bit PARENB n \<longleftrightarrow> n = 8"
    "bit ISIG n \<longleftrightarrow> n = 0"
    "bit ICANON n \<longleftrightarrow> n = 1"
    "bit ECHO n \<longleftrightarrow> n = 3"
    "bit ECHONL n \<longleftrightarrow> n = 6"
    "bit IEXTEN n \<longleftrightarrow> n = 15"
    by (subst below, simp add: termios_flags up)+
qed

text \<open>
  Raw mode, as \<open>cfmakeraw(3)\<close> describes it: exactly its flags are cleared, characters have eight bits and
  no parity, a read blocks for a single byte, and every other bit and the line discipline are as before.
\<close>

definition raw_of :: "Termios \<Rightarrow> Termios \<Rightarrow> bool" where
  "raw_of t r \<longleftrightarrow> (\<forall>n.
       (bit (c_iflag r) n \<longleftrightarrow> bit (c_iflag t) n \<and> n \<notin> iflag_raw)
     \<and> (bit (c_oflag r) n \<longleftrightarrow> bit (c_oflag t) n \<and> n \<noteq> 0)
     \<and> (bit (c_lflag r) n \<longleftrightarrow> bit (c_lflag t) n \<and> n \<notin> lflag_raw)
     \<and> (bit (c_cflag r) n \<longleftrightarrow> n \<in> {4, 5} \<or> bit (c_cflag t) n \<and> n \<noteq> 8))
     \<and> c_line r = c_line t \<and> c_cc r = (c_cc t)[6 := 1, 5 := 0]"

lemma make_raw_bits:
  "(bit (c_iflag (make_raw t)) n \<longleftrightarrow> bit (c_iflag t) n \<and> n \<notin> iflag_raw)
   \<and> (bit (c_oflag (make_raw t)) n \<longleftrightarrow> bit (c_oflag t) n \<and> n \<noteq> 0)
   \<and> (bit (c_lflag (make_raw t)) n \<longleftrightarrow> bit (c_lflag t) n \<and> n \<notin> lflag_raw)
   \<and> (bit (c_cflag (make_raw t)) n \<longleftrightarrow> n \<in> {4, 5} \<or> bit (c_cflag t) n \<and> n \<noteq> 8)"
proof -
  have small: "bit w n \<Longrightarrow> n < 32" for w :: u32 using bit_imp_le_length by fastforce
  then show ?thesis
    by (auto simp: make_raw_def bit_and_iff bit_or_iff bit_not_iff bit_flags iflag_raw_def lflag_raw_def)
qed

lemma make_raw_exact: "raw_of t (make_raw t)"
  using make_raw_bits by (simp add: raw_of_def) (simp add: make_raw_def VMIN_def VTIME_def)

lemma Termios_default_ok: "Termios_ok Termios_default"
  by (simp add: Termios_ok_def Termios_default_def NCCS_def)

lemma make_raw_ok: "Termios_ok (make_raw t) \<longleftrightarrow> Termios_ok t"
  by (simp add: make_raw_def Termios_ok_def)

lemma make_raw_idem: "make_raw (make_raw t) = make_raw t"
proof -
  have "CS8 AND NOT CSIZE AND NOT PARENB = 0"
    by (simp add: CS8_def CSIZE_def PARENB_def)
  then show ?thesis
    by (simp add: make_raw_def and.assoc bit.conj_disj_distrib2 list_update_swap VMIN_def VTIME_def)
qed

section \<open>A session in raw mode\<close>

text \<open>
  The \<open>termios\<close> of the kernel, as its bytes: four words of flags, the line discipline, 19 control characters. The
  requests that set it are \<open>TCSETS\<close>, \<open>TCSETSW\<close> and \<open>TCSETSF\<close>, for the actions \<open>TCSANOW\<close> (0), \<open>TCSADRAIN\<close> (1) and
  \<open>TCSAFLUSH\<close> (2).
\<close>

definition termios_bytes :: "u32 \<Rightarrow> u32 \<Rightarrow> u32 \<Rightarrow> u32 \<Rightarrow> byte \<Rightarrow> byte list \<Rightarrow> byte list" where
  "termios_bytes iflag oflag cflag lflag line cc =
     le_bytes 4 iflag @ le_bytes 4 oflag @ le_bytes 4 cflag @ le_bytes 4 lflag @ line # cc"

definition set_request :: "i32 \<Rightarrow> usize" where
  "set_request actions = (if actions = 0 then 0x5402 else if actions = 1 then 0x5403 else 0x5404)"

lemma enc_Termios_bytes:
  "Termios_ok t \<Longrightarrow> enc_Termios t = termios_bytes (c_iflag t) (c_oflag t) (c_cflag t) (c_lflag t) (c_line t) (c_cc t)"
  by (simp add: Termios_ok_def struct_enc_def struct_bytes_def Termios_fields_def Termios_parts_def termios_bytes_def
      round_up_def Let_def)

lemma tcgetattr_reported:
  assumes "sys M ''IOCTL'' [Val (scast fd), Val 0x5401, MutPtr (replicate 36 0)] k
      = (0, [a0, a1, MutPtr (termios_bytes iflag oflag cflag lflag line cc)], k1)" and "length cc = 19"
  shows "tcgetattr M fd k = (Ok \<lparr>c_iflag = iflag, c_oflag = oflag, c_cflag = cflag, c_lflag = lflag, c_line = line, c_cc = cc\<rparr>, k1)"
proof -
  let ?t = "\<lparr>c_iflag = iflag, c_oflag = oflag, c_cflag = cflag, c_lflag = lflag, c_line = line, c_cc = cc\<rparr>"
  have ok: "Termios_ok ?t" using assms(2) by (simp add: Termios_ok_def)
  then have "dec_Termios (termios_bytes iflag oflag cflag lflag line cc) = ?t"
    using termios_codec.dec_enc [OF ok] enc_Termios_bytes [OF ok] by simp
  moreover have "enc_Termios Termios_default = replicate 36 0"
    unfolding enc_Termios_bytes [OF Termios_default_ok] by (simp add: termios_bytes_def Termios_default_def NCCS_def numeral_eq_Suc)
  ultimately show ?thesis
    using assms(1) by (simp add: tcgetattr_def ioctl_out_def ioctl_def from_ret_def ERRNO_MAX_def out_bytes_def TCGETS_def)
qed

lemma tcsetattr_requested:
  assumes "actions \<in> {0, 1, 2}" and "Termios_ok t"
  shows "tcsetattr_with M fd actions t k = (case sys M ''IOCTL'' [Val (scast fd), Val (set_request actions),
      Ptr (termios_bytes (c_iflag t) (c_oflag t) (c_cflag t) (c_lflag t) (c_line t) (c_cc t))] k of
        (ret, _, k') \<Rightarrow> (map_res (\<lambda>_. ()) (from_ret ret), k'))"
  using assms
  by (auto simp: tcsetattr_with_def ioctl_unit_def ioctl_def set_request_def enc_Termios_bytes TCSANOW_def
      TCSAFLUSH_def TCSETS_def TCSETSW_def TCSETSF_def split: prod.splits)

text \<open>
  C29: a session in raw mode, as far as it is the crate's: \<open>tcgetattr\<close> returns the attributes the kernel reported;
  what \<open>make_raw\<close> makes of them is raw mode as \<open>cfmakeraw(3)\<close> describes it and nothing else, and making it twice is
  making it once; \<open>tcsetattr_with\<close> then asks the kernel, by the request for the action, for exactly those attributes, and later
  for exactly the ones it had reported; the result is the kernel's. No call panics. Which of the requested changes a
  terminal carries out is up to it.
\<close>
theorem raw_mode_session:
  assumes "sys M ''IOCTL'' [Val (scast fd), Val 0x5401, MutPtr (replicate 36 0)] k
      = (0, [a0, a1, MutPtr (termios_bytes iflag oflag cflag lflag line cc)], k1)" and "length cc = 19"
    and "actions \<in> {0, 1, 2}"
  shows "\<exists>saved r. tcgetattr M fd k = (Ok saved, k1) \<and> make_raw saved = r \<and> raw_of saved r \<and> make_raw r = r
    \<and> tcsetattr_with M fd actions r k2 = (case sys M ''IOCTL'' [Val (scast fd), Val (set_request actions),
          Ptr (termios_bytes (c_iflag r) (c_oflag r) (c_cflag r) (c_lflag r) (c_line r) (c_cc r))] k2 of
        (ret, _, k3) \<Rightarrow> (map_res (\<lambda>_. ()) (from_ret ret), k3))
    \<and> tcsetattr_with M fd actions saved k2 = (case sys M ''IOCTL'' [Val (scast fd), Val (set_request actions),
          Ptr (termios_bytes iflag oflag cflag lflag line cc)] k2 of
        (ret, _, k3) \<Rightarrow> (map_res (\<lambda>_. ()) (from_ret ret), k3))"
proof -
  let ?t = "\<lparr>c_iflag = iflag, c_oflag = oflag, c_cflag = cflag, c_lflag = lflag, c_line = line, c_cc = cc\<rparr>"
  have ok: "Termios_ok ?t" using assms(2) by (simp add: Termios_ok_def)
  note raw_ok = make_raw_ok [of ?t, THEN iffD2, OF ok]
  show ?thesis
    using tcgetattr_reported [OF assms(1,2)] tcsetattr_requested [OF assms(3) ok, of M fd k2]
      tcsetattr_requested [OF assms(3) raw_ok, of M fd k2]
    by (intro exI [of _ ?t] exI [of _ "make_raw ?t"]) (simp add: make_raw_exact make_raw_idem)
qed

text \<open>A terminal with echo and canonical input, which logs what it is asked to set.\<close>

definition tty_mach :: "byte list list mach" where
  "tty_mach = \<lparr>m_arch = X86_64, m_kernel = \<lambda>n args k. (case args of
       [fd, req, MutPtr b] \<Rightarrow> (0, [fd, req, MutPtr (termios_bytes 0x500 5 0xBF 0x8A3B 0 (replicate 19 3))], k)
     | [fd, req, Ptr b] \<Rightarrow> (0, args, b # k)
     | _ \<Rightarrow> (- 22, args, k))\<rparr>"

theorem raw_mode_session_witness:
  "\<exists>saved. tcgetattr tty_mach 0 [] = (Ok saved, []) \<and> raw_of saved (make_raw saved)
     \<and> tcsetattr_with tty_mach 0 TCSADRAIN saved []
       = (Ok (), [termios_bytes 0x500 5 0xBF 0x8A3B 0 (replicate 19 3)])"
proof -
  have "sys tty_mach ''IOCTL'' [Val (scast (0 :: i32)), Val 0x5401, MutPtr (replicate 36 0)] []
      = (0, [Val 0, Val 0x5401, MutPtr (termios_bytes 0x500 5 0xBF 0x8A3B 0 (replicate 19 3))], [])"
    by (simp add: sys_def tty_mach_def)
  from raw_mode_session [OF this, of 1 "[]"] show ?thesis
    by (auto simp: sys_def tty_mach_def TCSADRAIN_def from_ret_def ERRNO_MAX_def)
qed

section \<open>The path of a descriptor\<close>

lemma length_set_at: "set_at xs i v = Ok ys \<Longrightarrow> length ys = length xs"
  by (auto simp: set_at_def split: if_splits)

lemma decimal_step:
  "decimal n = (if n div 10 = 0 then [48 + of_nat (n mod 10)] else decimal (n div 10) @ [48 + of_nat (n mod 10)])"
  by (subst decimal.simps) (simp add: div_eq_0_iff)

lemma digits_loop_decimal:
  "p + length (decimal n) \<le> length out \<Longrightarrow>
   digits_loop out p n
     = Ok (take p out @ rev (decimal n) @ drop (p + length (decimal n)) out, p + length (decimal n))"
proof (induction out p n rule: digits_loop.induct)
  case (1 out p n)
  have step: "decimal n = (if n div 10 = 0 then [] else decimal (n div 10)) @ [48 + of_nat (n mod 10)]"
    by (subst decimal_step) simp
  then have "p < length out" using "1.prems" by auto
  then have set: "set_at out p (48 + of_nat (n mod 10)) = Ok (out[p := 48 + of_nat (n mod 10)])"
    by (simp add: set_at_def)
  show ?case
  proof (cases "n div 10 = 0")
    case True
    with step set \<open>p < length out\<close> show ?thesis
      by (subst digits_loop.simps) (simp add: upd_conv_take_nth_drop)
  next
    case False
    with step "1.prems" have "p + 1 + length (decimal (n div 10)) \<le> length (out[p := 48 + of_nat (n mod 10)])" by simp
    from "1.IH" [OF False this] show ?thesis
      using False step set \<open>p < length out\<close>
      by (subst digits_loop.simps) (simp add: take_Suc_conv_app_nth list_update_append)
  qed
qed

lemma digits_reversed:
  assumes "p + length (decimal n) < length out"
  shows "res_bind (digits_loop out p n) (\<lambda>(out, q). res_bind (reverse_slice out p q) (\<lambda>out. f out q))
    = f (take p out @ decimal n @ drop (p + length (decimal n)) out) (p + length (decimal n))"
  using assms by (simp add: digits_loop_decimal reverse_slice_def)

lemma cstr_upto_text:
  assumes "0 \<notin> set t" and "i = length t"
  shows "cstr_upto (t @ 0 # rest) i = Ok t"
  using assms by (simp add: cstr_upto_def butlast_append)

lemma digits_not_nul: "0 \<notin> set (decimal n)"
  using decimal_digits [of n] by (auto simp: is_digit_def)

lemma abs_i32_digits: "length (decimal (nat \<bar>sint (fd :: i32)\<bar>)) \<le> 10"
proof -
  have "nat \<bar>sint fd\<bar> < 10 ^ Suc 9"
    using sint_range_size [of fd] by (simp add: word_size) linarith
  then show ?thesis using length_decimal [of _ 9] by simp
qed

lemma proc_fd_path_exact:
  assumes "length out = 32"
  shows "proc_fd_path fd out = Ok (ascii ''/proc/self/fd/'' @ show_i32 fd)"
proof -
  let ?p = "ascii ''/proc/self/fd/''" and ?d = "decimal (nat \<bar>sint fd\<bar>)"
  have p: "length ?p = 14" "0 \<notin> set ?p" by (simp_all add: ascii_def)
  show ?thesis
  proof (cases "sint fd < 0")
    case True
    have "proc_fd_path fd out = cstr_upto ((?p @ [45] @ ?d) @ 0 # drop (16 + length ?d) out) (15 + length ?d)"
      using assms True p(1) abs_i32_digits [of fd]
      by (simp add: proc_fd_path_def proc_fd_prefix_def digits_reversed set_at_def list_update_append
          upd_conv_take_nth_drop)
    also have "\<dots> = Ok (?p @ [45] @ ?d)"
      using p digits_not_nul by (intro cstr_upto_text) simp_all
    finally show ?thesis using True by (simp add: show_i32_def ascii_def)
  next
    case False
    have "proc_fd_path fd out = cstr_upto ((?p @ ?d) @ 0 # drop (15 + length ?d) out) (14 + length ?d)"
      using assms False p(1) abs_i32_digits [of fd]
      by (simp add: proc_fd_path_def proc_fd_prefix_def digits_reversed set_at_def list_update_append
          upd_conv_take_nth_drop)
    also have "\<dots> = Ok (?p @ ?d)"
      using p digits_not_nul by (intro cstr_upto_text) simp_all
    finally show ?thesis using False by (simp add: show_i32_def)
  qed
qed

text \<open>What \<open>readlinkat\<close> on the descriptor's link does: as much of the target as fits, and no error.\<close>

definition fd_link :: "'k mach \<Rightarrow> i32 \<Rightarrow> byte list \<Rightarrow> 'k \<Rightarrow> 'k \<Rightarrow> bool" where
  "fd_link M fd target k k' \<longleftrightarrow>
     (\<forall>b. b \<noteq> [] \<longrightarrow> (\<exists>a0 a1 a3. sys M ''READLINKAT''
        [Val (scast AT_FDCWD), cstr (ascii ''/proc/self/fd/'' @ show_i32 fd), MutPtr b, len_arg b] k
      = (of_nat (min (length target) (length b)),
         [a0, a1, MutPtr (take (length b) target @ drop (length target) b), a3], k')))"

text \<open>
  C28: \<open>ttyname\<close> names the terminal of a descriptor or fails, and never panics or hands back a name cut
  short: \<open>ENOTTY\<close> when the descriptor is not a terminal, the target of \<open>/proc/self/fd/\<close> with the
  descriptor in decimal when it fits with room to spare, \<open>ERANGE\<close> otherwise.
\<close>
theorem ttyname_exact:
  assumes "isatty M fd k = (t, k1)" and "t \<Longrightarrow> fd_link M fd target k1 k2"
    and "b \<noteq> []" and "length b < 2 ^ 63"
  shows "ttyname M fd b k =
    (if \<not> t then (Err ENOTTY, k1) else if length target < length b then (Ok target, k2) else (Err ERANGE, k2))"
proof (cases t)
  case False
  with assms(1) show ?thesis by (simp add: ttyname_def)
next
  case True
  obtain a0 a1 a3 where call: "sys M ''READLINKAT''
        [Val (scast AT_FDCWD), cstr (ascii ''/proc/self/fd/'' @ show_i32 fd), MutPtr b, len_arg b] k1
      = (of_nat (min (length target) (length b)),
         [a0, a1, MutPtr (take (length b) target @ drop (length target) b), a3], k2)"
    using assms(2,3) True unfolding fd_link_def by blast
  have n: "min (length target) (length b) < 2 ^ 63" using assms(4) by simp
  have "readlinkat M AT_FDCWD (ascii ''/proc/self/fd/'' @ show_i32 fd) b k1
      = (Ok (take (length b) target), k2)"
    using call from_ret_of_nat [OF n] unat_of_nat_usize [OF n]
    by (auto simp: readlinkat_def call_buf_def out_bytes_def min_def slice_def)
  with True assms(1) show ?thesis
    by (simp add: ttyname_def proc_fd_path_exact io_bind_Ok io_err_apply io_return_apply)
qed

text \<open>A kernel on which every descriptor is a terminal called \<open>/dev/pts/7\<close>.\<close>

definition pts_kernel :: "unit mach" where
  "pts_kernel = \<lparr>m_arch = X86_64, m_kernel = \<lambda>n args k. (case args of
     [d, p, MutPtr b, l] \<Rightarrow>
       (of_nat (min 10 (length b)), [d, p, MutPtr (take (length b) (ascii ''/dev/pts/7'') @ drop 10 b), l], k)
   | _ \<Rightarrow> (0, args, k))\<rparr>"

theorem ttyname_exact_witness:
  "ttyname pts_kernel 5 (replicate 16 0) () = (Ok (ascii ''/dev/pts/7''), ())
   \<and> ttyname pts_kernel 5 (replicate 10 0) () = (Err ERANGE, ())"
proof -
  have tty: "isatty pts_kernel 5 () = (True, ())"
    by (simp add: isatty_def tcgetattr_def ioctl_out_def ioctl_def sys_def pts_kernel_def from_ret_def ERRNO_MAX_def)
  have len: "length (ascii ''/dev/pts/7'') = 10" by (simp add: ascii_def)
  have link: "fd_link pts_kernel 5 (ascii ''/dev/pts/7'') () ()"
    by (simp add: fd_link_def sys_def pts_kernel_def len)
  from ttyname_exact [OF tty link, of "replicate 16 0"] ttyname_exact [OF tty link, of "replicate 10 0"]
  show ?thesis by (simp add: len)
qed

end
