(* ===== verification/Tty.thy ===== *)
theory Tty
  imports Termios
begin

text \<open>
  Window size and pseudoterminal pairs (\<open>src/tty.rs\<close>).
\<close>

definition TIOCGWINSZ :: usize where "TIOCGWINSZ = 0x5413"
definition TIOCSPTLCK :: usize where "TIOCSPTLCK = 0x40045431"
definition TIOCGPTN :: usize where "TIOCGPTN = 0x80045430"

record Winsize =
  ws_row :: u16
  ws_col :: u16
  ws_xpixel :: u16
  ws_ypixel :: u16

definition Winsize_fields :: "(string \<times> cty) list" where
  "Winsize_fields =
    [(''ws_row'', U16), (''ws_col'', U16), (''ws_xpixel'', U16), (''ws_ypixel'', U16)]"

definition Winsize_parts :: "Winsize \<Rightarrow> byte list list" where
  "Winsize_parts x =
    [le_bytes 2 (ws_row x), le_bytes 2 (ws_col x), le_bytes 2 (ws_xpixel x),
     le_bytes 2 (ws_ypixel x)]"

definition Winsize_build :: "byte list list \<Rightarrow> Winsize" where
  "Winsize_build bs =
    \<lparr>ws_row = le_word (bs ! 0), ws_col = le_word (bs ! 1), ws_xpixel = le_word (bs ! 2),
     ws_ypixel = le_word (bs ! 3)\<rparr>"

abbreviation "enc_Winsize \<equiv> struct_enc Winsize_fields Winsize_parts"
abbreviation "dec_Winsize \<equiv> struct_dec Winsize_fields Winsize_build"

interpretation winsize: struct_codec Winsize_fields "\<lambda>_. True" Winsize_parts Winsize_build 8
  by (unfold_locales)
    (auto simp: Winsize_fields_def Winsize_parts_def Winsize_build_def round_up_def two_fold codec_simps)

definition Winsize_default :: Winsize where
  "Winsize_default = \<lparr>ws_row = 0, ws_col = 0, ws_xpixel = 0, ws_ypixel = 0\<rparr>"

definition window_size :: "'k mach \<Rightarrow> i32 \<Rightarrow> ('k, Winsize) io" where
  "window_size M fd = ioctl_out M fd TIOCGWINSZ (enc_Winsize Winsize_default) dec_Winsize"

definition pts_prefix :: "byte list" where
  "pts_prefix = ascii ''/dev/pts/''"

definition format_pts_path :: "i32 \<Rightarrow> byte list \<Rightarrow> byte list res" where
  "format_pts_path ptn b =
     res_bind (copy_at b 0 pts_prefix) (\<lambda>b.
     res_bind (digits_loop (replicate 10 0) 0 (unat ptn)) (\<lambda>(digits, len).
     res_bind (reverse_slice digits 0 len) (\<lambda>digits.
     let fin = length pts_prefix + len in
     res_bind (slice digits 0 len) (\<lambda>ds.
     res_bind (copy_at b (length pts_prefix) ds) (\<lambda>b.
     res_bind (set_at b fin 0) (\<lambda>b.
     cstr_upto b fin))))))"

definition openpty :: "'k mach \<Rightarrow> ('k, i32 \<times> i32) io" where
  "openpty M = io_bind (fd_open M (ascii ''/dev/ptmx'') O_RDWR 0) (\<lambda>master k.
     (case ioctl M master TIOCSPTLCK (Ptr (le_bytes 4 (0 :: i32))) k of
        (Err e, _, k1) \<Rightarrow> io_ignore (close M master) (io_err e) k1
      | (Panic, _, k1) \<Rightarrow> (Panic, k1)
      | (Ok _, _, k1) \<Rightarrow>
         (case ioctl M master TIOCGPTN (MutPtr (le_bytes 4 (0 :: i32))) k1 of
            (Err e, _, k2) \<Rightarrow> io_ignore (close M master) (io_err e) k2
          | (Panic, _, k2) \<Rightarrow> (Panic, k2)
          | (Ok _, a, k2) \<Rightarrow>
             (case format_pts_path (le_word (out_bytes [a] 0)) (replicate 21 0) of
                Ok path \<Rightarrow> (case fd_open M path O_RDWR 0 k2 of
                    (Ok slave, k3) \<Rightarrow> (Ok (master, slave), k3)
                  | (Err e, k3) \<Rightarrow> io_ignore (close M master) (io_err e) k3
                  | (Panic, k3) \<Rightarrow> (Panic, k3))
              | Err e \<Rightarrow> (Err e, k2)
              | Panic \<Rightarrow> (Panic, k2)))))"

section \<open>Properties\<close>

lemma unat_u32_digits: "length (decimal (unat (w :: u32))) \<le> 10"
proof -
  have "unat w < 2 ^ 32" using unsigned_less [of w, where 'a = nat] by simp
  then have "unat w < 10 ^ Suc 9" by simp
  then show ?thesis using length_decimal [of _ 9] by simp
qed

text \<open>The device path is exact for every 32-bit index, and building it never panics.\<close>

lemma format_pts_path_exact:
  assumes "length b = 21"
  shows "format_pts_path ptn b = Ok (ascii ''/dev/pts/'' @ decimal (unat ptn))"
proof -
  let ?p = "ascii ''/dev/pts/''" and ?d = "decimal (unat ptn)"
  have p: "length ?p = 9" "0 \<notin> set ?p" by (simp_all add: ascii_def)
  have d: "length ?d \<le> 10" by (rule unat_u32_digits)
  have "digits_loop (replicate 10 0) 0 (unat ptn) = Ok (rev ?d @ replicate (10 - length ?d) 0, length ?d)"
    using d by (simp add: digits_loop_decimal)
  then have "format_pts_path ptn b = cstr_upto ((?p @ ?d) @ 0 # drop (10 + length ?d) b) (9 + length ?d)"
    using assms p(1) d
    by (simp add: format_pts_path_def pts_prefix_def reverse_slice_def set_at_def list_update_append
        upd_conv_take_nth_drop)
  also have "\<dots> = Ok (?p @ ?d)"
    using p digits_not_nul by (intro cstr_upto_text) simp_all
  finally show ?thesis .
qed

lemma ioctl_opened:
  "ioctl_keeps_fds M opened \<Longrightarrow> ioctl M fd req a k = (r, a', k') \<Longrightarrow> req \<noteq> 0x5441 \<Longrightarrow> opened k' = opened k"
  unfolding ioctl_keeps_fds_def by (auto simp: ioctl_def split: prod.splits)

lemma ioctl_not_Panic: "ioctl M fd req a k = (r, a', k') \<Longrightarrow> r \<noteq> Panic"
  by (auto simp: ioctl_def split: prod.splits)

lemma fd_open_cases:
  assumes "makes_fd M opened ''OPENAT''"
  obtains (made) fd k' where "fd_open M p fl md k = (Ok fd, k')" "fd \<notin> opened k" "opened k' = insert fd (opened k)"
    | (failed) e k' where "fd_open M p fl md k = (Err e, k')" "opened k' = opened k"
  using makes_fd_i32 [OF assms, of "[Val (scast AT_FDCWD), cstr p, Val (scast fl), Val (ucast md)]" k]
  by (simp add: fd_open_def openat_def) metis

lemma openpty_accounted:
  assumes "makes_fd M opened ''OPENAT''" and "ioctl_keeps_fds M opened" and "closes_fd M opened"
    and "openpty M k = (r, k')"
  shows "case r of
      Ok (master, slave) \<Rightarrow> master \<noteq> slave \<and> {master, slave} \<inter> opened k = {}
        \<and> opened k' = insert master (insert slave (opened k))
    | Err _ \<Rightarrow> opened k' = opened k
    | Panic \<Rightarrow> False"
proof -
  have closed: "io_ignore (close M fd) (io_err e) j = (r, k') \<Longrightarrow> r = Err e \<and> opened k' = opened j - {fd}" for fd e j
    using close_opened [OF assms(3), of fd j] by (auto simp: ignore_close io_err_apply)
  from assms(1) show ?thesis
  proof (cases rule: fd_open_cases [of _ _ "ascii ''/dev/ptmx''" O_RDWR 0 k])
    case (failed e k1)
    with assms(4) show ?thesis by (auto simp: openpty_def io_bind_Err)
  next
    case (made master k1)
    obtain r1 a1 k2 where io1: "ioctl M master TIOCSPTLCK (Ptr (le_bytes 4 (0 :: i32))) k1 = (r1, a1, k2)"
      using prod_cases3 by blast
    obtain r2 a2 k3 where io2: "ioctl M master TIOCGPTN (MutPtr (le_bytes 4 (0 :: i32))) k2 = (r2, a2, k3)"
      using prod_cases3 by blast
    have kept: "opened k2 = opened k1" "opened k3 = opened k2"
      using ioctl_opened [OF assms(2) io1] ioctl_opened [OF assms(2) io2] by (simp_all add: TIOCSPTLCK_def TIOCGPTN_def)
    note np = io1 [THEN ioctl_not_Panic] io2 [THEN ioctl_not_Panic]
    let ?path = "ascii ''/dev/pts/'' @ decimal (unat (le_word (out_bytes [a2] 0) :: i32))"
    note openpty = assms(4) [unfolded openpty_def io_bind_Ok [of "fd_open M (ascii ''/dev/ptmx'') O_RDWR 0", OF made(1)] io1]
    show ?thesis
    proof (cases "\<exists>v w. r1 = Ok v \<and> r2 = Ok w")
      case False
      with openpty np io2 kept made show ?thesis
        by (cases r1; cases r2) (auto dest!: closed)
    next
      case True
      from assms(1) show ?thesis
      proof (cases rule: fd_open_cases [of _ _ ?path O_RDWR 0 k3])
        case (failed e k4)
        with True openpty io2 kept made show ?thesis
          by (auto simp: format_pts_path_exact dest!: closed)
      next
        case (made slave k4)
        with True openpty io2 kept \<open>master \<notin> opened k\<close> \<open>opened k1 = insert master (opened k)\<close> show ?thesis
          by (auto simp: format_pts_path_exact)
      qed
    qed
  qed
qed

text \<open>
  C15: \<open>openpty\<close> returns two different new descriptors and leaves exactly these two open on top of
  those open before; on every error path nothing stays open, and it never panics.
\<close>
theorem openpty_descriptors:
  assumes "makes_fd M opened ''OPENAT''" and "ioctl_keeps_fds M opened" and "closes_fd M opened"
    and "openpty M k = (r, k')"
  shows "case r of
      Ok (master, slave) \<Rightarrow> master \<noteq> slave \<and> {master, slave} \<inter> opened k = {}
        \<and> opened k' = insert master (insert slave (opened k))
    | Err _ \<Rightarrow> opened k' = opened k
    | Panic \<Rightarrow> False"
  using assms by (rule openpty_accounted)

theorem openpty_descriptors_witness: "\<exists>e k'. openpty three_fds [] = (Err e, k') \<and> set k' = {}"
proof -
  have acc: "makes_fd three_fds set ''OPENAT''" "ioctl_keeps_fds three_fds set"
    by (simp_all add: three_fds_makes three_fds_ioctl fd_nrs)
  obtain r k' where run: "openpty three_fds [] = (r, k')" by force
  have "fd_open three_fds (ascii ''/dev/ptmx'') O_RDWR 0 [] = (Ok 3, [3])"
    by (simp add: fd_open_def openat_def call_i32_def sys_def three_fds_def fd_nrs from_ret_i32_def
        from_ret_def ERRNO_MAX_def)
  moreover have "ioctl three_fds 3 req a [3] = (Err (Errno 5), a, [3])" for req a
    by (simp add: ioctl_def sys_def three_fds_def fd_nrs from_ret_def ERRNO_MAX_def)
  ultimately have "\<exists>e. r = Err e"
    using run by (auto simp: openpty_def io_bind_Ok ignore_close io_err_apply)
  with openpty_descriptors [OF acc three_fds_closes run] run show ?thesis by auto
qed

end
