(* ===== verification/Epoll.thy ===== *)
theory Epoll
  imports Fd
begin

text \<open>
  Event polling (\<open>src/epoll.rs\<close>). The kernel's \<open>epoll_event\<close> is packed on x86_64 and laid out naturally
  on aarch64; \<open>epoll_wait\<close> exists on x86_64 only and is \<open>epoll_pwait\<close> without a mask on aarch64.
\<close>

section \<open>Constants\<close>

definition EPOLL_CTL_ADD :: i32 where "EPOLL_CTL_ADD = 1"
definition EPOLL_CTL_DEL :: i32 where "EPOLL_CTL_DEL = 2"
definition EPOLL_CTL_MOD :: i32 where "EPOLL_CTL_MOD = 3"
definition EPOLLIN :: u32 where "EPOLLIN = 1"
definition EPOLLOUT :: u32 where "EPOLLOUT = 4"
definition EPOLLERR :: u32 where "EPOLLERR = 8"
definition EPOLLHUP :: u32 where "EPOLLHUP = 0x10"
definition EPOLLET :: u32 where "EPOLLET = push_bit 31 1"

section \<open>Events\<close>

record EpollEvent =
  events :: u32
  data :: u64

definition EpollEvent_fields :: "(string \<times> cty) list" where
  "EpollEvent_fields = [(''events'', U32), (''data'', U64)]"

definition EpollEvent_type :: "arch \<Rightarrow> cty" where
  "EpollEvent_type a = (case a of X86_64 \<Rightarrow> Packed EpollEvent_fields | Aarch64 \<Rightarrow> Struct EpollEvent_fields)"

definition EpollEvent_parts :: "EpollEvent \<Rightarrow> byte list list" where
  "EpollEvent_parts x = [le_bytes 4 (events x), le_bytes 8 (data x)]"

definition EpollEvent_build :: "byte list list \<Rightarrow> EpollEvent" where
  "EpollEvent_build bs = \<lparr>events = le_word (bs ! 0), data = le_word (bs ! 1)\<rparr>"

text \<open>A packed struct is its fields end to end.\<close>

definition enc_EpollEvent :: "arch \<Rightarrow> EpollEvent \<Rightarrow> byte list" where
  "enc_EpollEvent a x = (case a of
       X86_64 \<Rightarrow> concat (EpollEvent_parts x) | Aarch64 \<Rightarrow> struct_enc EpollEvent_fields EpollEvent_parts x)"

definition dec_EpollEvent :: "arch \<Rightarrow> byte list \<Rightarrow> EpollEvent" where
  "dec_EpollEvent a b = (case a of
       X86_64 \<Rightarrow> EpollEvent_build [take 4 b, take 8 (drop 4 b)]
     | Aarch64 \<Rightarrow> struct_dec EpollEvent_fields EpollEvent_build b)"

definition size_EpollEvent :: "arch \<Rightarrow> nat" where
  "size_EpollEvent a = size_of (EpollEvent_type a)"

interpretation epoll_event: struct_codec EpollEvent_fields "\<lambda>_. True" EpollEvent_parts EpollEvent_build 16
  by unfold_locales
    (auto simp: EpollEvent_fields_def EpollEvent_parts_def EpollEvent_build_def round_up_def two_fold codec_simps)

interpretation epoll_packed: codec 12 "\<lambda>_. True" "enc_EpollEvent X86_64" "dec_EpollEvent X86_64"
  by unfold_locales
    (simp_all add: enc_EpollEvent_def dec_EpollEvent_def EpollEvent_parts_def EpollEvent_build_def codec_simps)

interpretation epoll_natural: codec 16 "\<lambda>_. True" "enc_EpollEvent Aarch64" "dec_EpollEvent Aarch64"
  by unfold_locales
    (simp_all add: enc_EpollEvent_def dec_EpollEvent_def epoll_event.length_enc epoll_event.dec_enc)

definition EpollEvent_new :: "u32 \<Rightarrow> u64 \<Rightarrow> EpollEvent" where
  "EpollEvent_new ev d = \<lparr>events = ev, data = d\<rparr>"

section \<open>Operations\<close>

definition epoll_create1 :: "'k mach \<Rightarrow> i32 \<Rightarrow> ('k, i32) io" where
  "epoll_create1 M flags = call_i32 M ''EPOLL_CREATE1'' [Val (scast flags)]"

definition epoll_ctl :: "'k mach \<Rightarrow> i32 \<Rightarrow> i32 \<Rightarrow> i32 \<Rightarrow> EpollEvent option \<Rightarrow> ('k, unit) io" where
  "epoll_ctl M epfd opr fd event =
     call_unit M ''EPOLL_CTL'' [Val (scast epfd), Val (scast opr), Val (scast fd),
       (case event of Some e \<Rightarrow> Ptr (enc_EpollEvent (m_arch M) e) | None \<Rightarrow> Val 0)]"

definition epoll_wait_args :: "arch \<Rightarrow> i32 \<Rightarrow> EpollEvent list \<Rightarrow> i32 \<Rightarrow> string \<times> arg list" where
  "epoll_wait_args a epfd evs timeout_ms = (case a of
       X86_64 \<Rightarrow> (''EPOLL_WAIT'',
         [Val (scast epfd), MutPtr (enc_array (enc_EpollEvent a) evs), len_arg evs, Val (scast timeout_ms)])
     | Aarch64 \<Rightarrow> (''EPOLL_PWAIT'',
         [Val (scast epfd), MutPtr (enc_array (enc_EpollEvent a) evs), len_arg evs, Val (scast timeout_ms),
          Val 0, Val 8]))"

definition epoll_wait ::
  "'k mach \<Rightarrow> i32 \<Rightarrow> EpollEvent list \<Rightarrow> i32 \<Rightarrow> 'k \<Rightarrow> usize res \<times> EpollEvent list \<times> 'k" where
  "epoll_wait M epfd evs timeout_ms k =
     (case epoll_wait_args (m_arch M) epfd evs timeout_ms of (s, args) \<Rightarrow>
        (case sys M s args k of (ret, outs, k') \<Rightarrow>
           (from_ret ret,
            dec_array (size_EpollEvent (m_arch M)) (dec_EpollEvent (m_arch M)) (length evs) (out_bytes outs 1), k')))"

section \<open>What the kernel promises\<close>

text \<open>
  An event as the kernel writes it: 32 bits of flags and the caller's 64 bits of data, end to end on
  x86_64, with four bytes between them that it leaves to chance on aarch64.
\<close>

definition event_image :: "arch \<Rightarrow> u32 \<times> u64 \<Rightarrow> byte list \<Rightarrow> bool" where
  "event_image a e b \<longleftrightarrow> (case e of (ev, d) \<Rightarrow> (case a of
       X86_64 \<Rightarrow> b = le_bytes 4 ev @ le_bytes 8 d
     | Aarch64 \<Rightarrow> (\<exists>gap. length gap = 4 \<and> b = le_bytes 4 ev @ gap @ le_bytes 8 d)))"

definition event_size :: "arch \<Rightarrow> nat" where
  "event_size a = (case a of X86_64 \<Rightarrow> 12 | Aarch64 \<Rightarrow> 16)"

text \<open>
  \<open>epoll_wait(2)\<close>, and \<open>epoll_pwait(2)\<close> with a null mask: the instance \<open>epfd\<close> hands out at most
  \<open>room\<close> ready events within the time limit, or fails. They are written to the front of the buffer, of which the rest
  stays as it was, and their number is the result. The two calls take the buffer, the number of events that fit, and the
  time limit in this order; what an instance has ready does not depend on the architecture.
\<close>

type_synonym 'k epoll_waiter = "i32 \<Rightarrow> nat \<Rightarrow> i32 \<Rightarrow> 'k \<Rightarrow> (int + (u32 \<times> u64) list) \<times> 'k"

definition epoll_answer :: "arch \<Rightarrow> nat \<Rightarrow> byte list \<Rightarrow> int + (u32 \<times> u64) list \<Rightarrow> usize \<Rightarrow> byte list \<Rightarrow> bool" where
  "epoll_answer a room b w ret b' \<longleftrightarrow> (case w of
       Inl m \<Rightarrow> errno_ret ret m
     | Inr ready \<Rightarrow> length ready \<le> room \<and> ret = of_nat (length ready)
         \<and> (\<exists>images. list_all2 (event_image a) ready images \<and> b' = concat images @ drop (event_size a * length ready) b))"

definition epoll_contract :: "'k mach \<Rightarrow> 'k epoll_waiter \<Rightarrow> bool" where
  "epoll_contract M w \<longleftrightarrow> (\<forall>epfd room tmo k b. room < 2 ^ 59 \<longrightarrow> length b = event_size (m_arch M) * room \<longrightarrow> (\<exists>ret outs.
     (case m_arch M of
        X86_64 \<Rightarrow> sys M ''EPOLL_WAIT'' [Val (scast epfd), MutPtr b, Val (of_nat room), Val (scast tmo)] k
      | Aarch64 \<Rightarrow> sys M ''EPOLL_PWAIT'' [Val (scast epfd), MutPtr b, Val (of_nat room), Val (scast tmo), Val 0, Val 8] k)
       = (ret, outs, snd (w epfd room tmo k))
     \<and> epoll_answer (m_arch M) room b (fst (w epfd room tmo k)) ret (out_bytes outs 1)))"

section \<open>Waiting\<close>

lemma size_EpollEvent_simps [simp]: "size_EpollEvent X86_64 = 12" "size_EpollEvent Aarch64 = 16"
  by (simp_all add: size_EpollEvent_def EpollEvent_type_def EpollEvent_fields_def round_up_def)

lemma event_size_is: "event_size a = size_EpollEvent a"
  by (cases a) (simp_all add: event_size_def)

lemma dec_event_image:
  assumes "event_image a (ev, d) b"
  shows "dec_EpollEvent a b = EpollEvent_new ev d \<and> length b = event_size a"
  using assms
  by (cases a) (auto simp: event_image_def event_size_def dec_EpollEvent_def EpollEvent_new_def EpollEvent_build_def
      EpollEvent_fields_def struct_dec_def get_fields_def get_field_def round_up_def le_word_le_bytes_full
      simp del: le_bytes_0)

lemma dec_enc_events:
  "length evs = n \<Longrightarrow> dec_array (size_EpollEvent a) (dec_EpollEvent a) n (enc_array (enc_EpollEvent a) evs) = evs"
  by (cases a) (simp_all add: epoll_packed.dec_enc_array epoll_natural.dec_enc_array list_all_iff)

lemma length_enc_events: "length (enc_array (enc_EpollEvent a) evs) = event_size a * length evs"
  by (cases a) (simp_all add: event_size_def epoll_packed.length_enc_array epoll_natural.length_enc_array list_all_iff)

lemma dec_events:
  assumes "list_all2 (event_image a) ready images" and "length ready \<le> length evs"
  shows "dec_array (event_size a) (dec_EpollEvent a) (length evs)
      (concat images @ drop (event_size a * length ready) (enc_array (enc_EpollEvent a) evs))
    = map (\<lambda>(ev, d). EpollEvent_new ev d) ready @ drop (length ready) evs"
  using assms
proof (induction arbitrary: evs rule: list_all2_induct)
  case Nil
  then show ?case using dec_enc_events [of evs _ a] by (simp add: event_size_is)
next
  case (Cons e ready b images)
  then obtain x evs' where evs: "evs = x # evs'" by (cases evs) auto
  obtain ev d where e: "e = (ev, d)" by force
  have b: "dec_EpollEvent a b = EpollEvent_new ev d" "length b = event_size a"
    using dec_event_image Cons.hyps(1) unfolding e by blast+
  have "length (enc_EpollEvent a x) = event_size a"
    using length_enc_events [of a "[x]"] by (simp add: enc_array_def)
  then have "drop (event_size a * length (e # ready)) (enc_array (enc_EpollEvent a) evs)
      = drop (event_size a * length ready) (enc_array (enc_EpollEvent a) evs')"
    by (simp add: evs enc_array_def)
  with Cons.IH [of evs'] Cons.prems b e evs show ?case by simp
qed

lemma epoll_wait_answer:
  assumes "epoll_contract M w" and "length evs < 2 ^ 59" and "w epfd (length evs) tmo k = (v, k')"
  shows "case v of
      Inl m \<Rightarrow> (\<exists>b. epoll_wait M epfd evs tmo k = (Err (Errno (word_of_int m)), b, k'))
    | Inr ready \<Rightarrow> epoll_wait M epfd evs tmo k =
        (Ok (of_nat (length ready)), map (\<lambda>(ev, d). EpollEvent_new ev d) ready @ drop (length ready) evs, k')"
proof -
  let ?b = "enc_array (enc_EpollEvent (m_arch M)) evs"
  obtain ret outs where call: "sys M (fst (epoll_wait_args (m_arch M) epfd evs tmo))
      (snd (epoll_wait_args (m_arch M) epfd evs tmo)) k = (ret, outs, k')"
    and ans: "epoll_answer (m_arch M) (length evs) ?b v ret (out_bytes outs 1)"
    using assms(1) [unfolded epoll_contract_def, rule_format, OF assms(2) length_enc_events, of epfd tmo k] assms(3)
    by (cases "m_arch M") (auto simp: epoll_wait_args_def)
  then have wait: "epoll_wait M epfd evs tmo k = (from_ret ret,
      dec_array (event_size (m_arch M)) (dec_EpollEvent (m_arch M)) (length evs) (out_bytes outs 1), k')"
    by (simp add: epoll_wait_def case_prod_beta event_size_is)
  show ?thesis
  proof (cases v)
    case (Inl m)
    with ans wait show ?thesis by (simp add: epoll_answer_def from_ret_errno_ret)
  next
    case (Inr ready)
    with ans obtain images where r: "length ready \<le> length evs" "ret = of_nat (length ready)"
        and im: "list_all2 (event_image (m_arch M)) ready images"
        and out: "out_bytes outs 1 = concat images @ drop (event_size (m_arch M) * length ready) ?b"
      by (auto simp: epoll_answer_def)
    have "from_ret ret = Ok (of_nat (length ready))" unfolding r(2) using r(1) assms(2) by (intro from_ret_of_nat) simp
    with Inr wait [unfolded out dec_events [OF im r(1)]] show ?thesis by simp
  qed
qed

text \<open>
  C19: \<open>epoll_wait\<close> hands over exactly the events that are ready, with their flags and data, at the front of the
  caller's array, leaves the rest of the array alone and returns their number, or the kernel's error; and it does so alike on x86_64, where it
  is \<open>epoll_wait\<close> with packed events, and on aarch64, where it is \<open>epoll_pwait\<close> with padded ones.
\<close>
theorem epoll_wait_portable:
  assumes "m_arch M = X86_64" and "epoll_contract M w" and "m_arch N = Aarch64" and "epoll_contract N w"
    and "length evs < 2 ^ 59"
  shows "case w epfd (length evs) tmo k of
      (Inl m, k') \<Rightarrow> (\<exists>b b'. epoll_wait M epfd evs tmo k = (Err (Errno (word_of_int m)), b, k')
        \<and> epoll_wait N epfd evs tmo k = (Err (Errno (word_of_int m)), b', k'))
    | (Inr ready, k') \<Rightarrow> epoll_wait M epfd evs tmo k =
          (Ok (of_nat (length ready)), map (\<lambda>(ev, d). EpollEvent_new ev d) ready @ drop (length ready) evs, k')
        \<and> epoll_wait N epfd evs tmo k = epoll_wait M epfd evs tmo k"
proof -
  obtain v k' where v: "w epfd (length evs) tmo k = (v, k')" by force
  from epoll_wait_answer [OF assms(2,5) v] epoll_wait_answer [OF assms(4,5) v] v show ?thesis
    by (cases v) auto
qed

text \<open>An instance with one event ready, for whoever has room for it and the time to wait.\<close>

definition ready_waiter :: "nat epoll_waiter" where
  "ready_waiter epfd room tmo k =
     (if room = 0 then (Inl 22, k) else if tmo = 0 then (Inr [], k) else (Inr [(EPOLLIN, 7)], Suc k))"

definition ready_mach :: "arch \<Rightarrow> nat mach" where
  "ready_mach a = \<lparr>m_arch = a, m_kernel = \<lambda>n args k. (case args of
     e # MutPtr b # Val l # Val t # rest \<Rightarrow>
       if b = [] then (- 22, args, k)
       else if t = 0 then (0, args, k)
       else (1, e # MutPtr (le_bytes 4 EPOLLIN @ replicate (event_size a - 12) 9 @ le_bytes 8 (7 :: u64) @ drop (event_size a) b)
           # Val l # Val t # rest, Suc k)
   | _ \<Rightarrow> (- 22, args, k))\<rparr>"

lemma ready_mach_contract: "epoll_contract (ready_mach a) ready_waiter"
proof -
  have t: "(scast t :: usize) = 0 \<longleftrightarrow> t = 0" for t :: i32 using ucast_scast_i32 [of t] by auto
  have e: "errno_ret (- 22) 22" by (simp add: errno_ret_def)
  have im: "event_image a (EPOLLIN, 7) (le_bytes 4 EPOLLIN @ replicate (event_size a - 12) 9 @ le_bytes 8 (7 :: u64))"
    by (cases a) (auto simp: event_image_def event_size_def)
  have ans: "epoll_answer a room b (Inr [(EPOLLIN, 7)]) 1
      (le_bytes 4 EPOLLIN @ replicate (event_size a - 12) 9 @ le_bytes 8 (7 :: u64) @ drop (event_size a) b)" if "room \<noteq> 0" for room b
    using im that unfolding epoll_answer_def by (auto intro!: exI [of _ "[_]"])
  have "\<exists>ret outs. sys (ready_mach a) s (Val e # MutPtr b # Val l # Val (scast tmo) # rest) k = (ret, outs, snd (ready_waiter epfd room tmo k))
      \<and> epoll_answer a room b (fst (ready_waiter epfd room tmo k)) ret (out_bytes outs 1)"
    if "length b = event_size a * room" for s e l rest b room epfd tmo k
  proof (cases "room = 0")
    case True
    with that show ?thesis
      by (simp add: sys_def ready_mach_def ready_waiter_def epoll_answer_def e)
  next
    case False
    with that have "b \<noteq> []" by (cases a) (auto simp: event_size_def)
    with False ans [of room b] show ?thesis
      by (auto simp: sys_def ready_mach_def ready_waiter_def out_bytes_def t) (simp add: epoll_answer_def)
  qed
  then show ?thesis by (cases a) (auto simp: epoll_contract_def ready_mach_def)
qed

theorem epoll_wait_portable_witness:
  "fst (snd (epoll_wait (ready_mach X86_64) 3 [EpollEvent_new 0 1, EpollEvent_new 0 2] 10 0))
     = [EpollEvent_new EPOLLIN 7, EpollEvent_new 0 2]
   \<and> epoll_wait (ready_mach Aarch64) 3 [EpollEvent_new 0 1, EpollEvent_new 0 2] 10 0
     = epoll_wait (ready_mach X86_64) 3 [EpollEvent_new 0 1, EpollEvent_new 0 2] 10 0"
  using epoll_wait_portable [OF _ ready_mach_contract _ ready_mach_contract, of X86_64 Aarch64
      "[EpollEvent_new 0 1, EpollEvent_new 0 2]" 3 10 0]
  by (simp add: ready_waiter_def ready_mach_def)

end
