(* ===== verification/Inotify.thy ===== *)
theory Inotify
  imports Fs
begin

text \<open>
  File change notification (\<open>src/inotify.rs\<close>): the watch calls and the iterator over the events read
  from the descriptor.
\<close>

section \<open>Constants\<close>

definition IN_CLOEXEC :: i32 where "IN_CLOEXEC = 0x80000"
definition IN_NONBLOCK :: i32 where "IN_NONBLOCK = 0x800"

text \<open>The single-bit masks, in the order of the source.\<close>

definition IN_masks :: "(string \<times> u32) list" where
  "IN_masks =
     [(''IN_ACCESS'', 0x00000001), (''IN_MODIFY'', 0x00000002), (''IN_ATTRIB'', 0x00000004),
      (''IN_CLOSE_WRITE'', 0x00000008), (''IN_CLOSE_NOWRITE'', 0x00000010), (''IN_OPEN'', 0x00000020),
      (''IN_MOVED_FROM'', 0x00000040), (''IN_MOVED_TO'', 0x00000080), (''IN_CREATE'', 0x00000100),
      (''IN_DELETE'', 0x00000200), (''IN_DELETE_SELF'', 0x00000400), (''IN_MOVE_SELF'', 0x00000800),
      (''IN_UNMOUNT'', 0x00002000), (''IN_Q_OVERFLOW'', 0x00004000), (''IN_IGNORED'', 0x00008000),
      (''IN_ONLYDIR'', 0x01000000), (''IN_DONT_FOLLOW'', 0x02000000), (''IN_EXCL_UNLINK'', 0x04000000),
      (''IN_MASK_CREATE'', 0x10000000), (''IN_MASK_ADD'', 0x20000000), (''IN_ISDIR'', 0x40000000),
      (''IN_ONESHOT'', 0x80000000)]"

definition IN_mask :: "string \<Rightarrow> u32" where
  "IN_mask s = (case map_of IN_masks s of Some m \<Rightarrow> m | None \<Rightarrow> 0)"

definition IN_CLOSE :: u32 where "IN_CLOSE = IN_mask ''IN_CLOSE_WRITE'' OR IN_mask ''IN_CLOSE_NOWRITE''"
definition IN_MOVE :: u32 where "IN_MOVE = IN_mask ''IN_MOVED_FROM'' OR IN_mask ''IN_MOVED_TO''"

section \<open>Watches\<close>

definition inotify_init1 :: "'k mach \<Rightarrow> i32 \<Rightarrow> ('k, i32) io" where
  "inotify_init1 M flags = call_i32 M ''INOTIFY_INIT1'' [Val (scast flags)]"

definition inotify_add_watch :: "'k mach \<Rightarrow> i32 \<Rightarrow> path \<Rightarrow> u32 \<Rightarrow> ('k, i32) io" where
  "inotify_add_watch M fd path msk = call_i32 M ''INOTIFY_ADD_WATCH'' [Val (scast fd), cstr path, Val (ucast msk)]"

definition inotify_rm_watch :: "'k mach \<Rightarrow> i32 \<Rightarrow> i32 \<Rightarrow> ('k, unit) io" where
  "inotify_rm_watch M fd wd = call_unit M ''INOTIFY_RM_WATCH'' [Val (scast fd), Val (scast wd)]"

section \<open>Events\<close>

record InotifyEvent =
  wd :: i32
  ev_mask :: u32
  cookie :: u32
  ev_name :: "byte list"

definition InotifyEvent_name :: "InotifyEvent \<Rightarrow> byte list option" where
  "InotifyEvent_name self = (if ev_name self = [] then None else from_bytes_until_nul (ev_name self))"

record InotifyEvents =
  ev_buf :: "byte list"

definition inotify_events :: "byte list \<Rightarrow> InotifyEvents" where
  "inotify_events b = \<lparr>ev_buf = b\<rparr>"

definition HEADER :: nat where "HEADER = 16"

definition InotifyEvents_next :: "InotifyEvents \<Rightarrow> (InotifyEvent option \<times> InotifyEvents) res" where
  "InotifyEvents_next self =
     (if ev_buf self = [] then Ok (None, self)
      else let rec = ev_buf self in
        res_bind (slice rec 0 4) (\<lambda>w.
        res_bind (slice rec 4 8) (\<lambda>m.
        res_bind (slice rec 8 12) (\<lambda>c.
        res_bind (slice rec 12 16) (\<lambda>l.
        let len = unat (le_word l :: u32) in
        res_bind (slice rec HEADER (HEADER + len)) (\<lambda>nm.
        res_bind (slice rec (HEADER + len) (length rec)) (\<lambda>rest.
          Ok (Some \<lparr>wd = le_word w, ev_mask = le_word m, cookie = le_word c, ev_name = nm\<rparr>,
              self\<lparr>ev_buf := rest\<rparr>))))))))"

section \<open>The iterator on what the kernel writes\<close>

text \<open>A \<open>struct inotify_event\<close>: descriptor, mask, cookie, length, and the NUL-padded name, if any.\<close>

record inotify_event =
  e_wd :: i32
  e_mask :: u32
  e_cookie :: u32
  e_name :: "byte list option"
  e_pad :: nat

definition event_name_bytes :: "inotify_event \<Rightarrow> byte list" where
  "event_name_bytes w = (case e_name w of None \<Rightarrow> [] | Some n \<Rightarrow> n @ replicate (Suc (e_pad w)) 0)"

definition event_bytes :: "inotify_event \<Rightarrow> byte list" where
  "event_bytes w = le_bytes 4 (e_wd w) @ le_bytes 4 (e_mask w) @ le_bytes 4 (e_cookie w)
     @ le_bytes 4 (of_nat (length (event_name_bytes w)) :: u32) @ event_name_bytes w"

definition event_ok :: "inotify_event \<Rightarrow> bool" where
  "event_ok w \<longleftrightarrow> length (event_name_bytes w) < 2 ^ 32 \<and> (\<forall>n. e_name w = Some n \<longrightarrow> 0 \<notin> set n)"

definition event_view :: "inotify_event \<Rightarrow> InotifyEvent" where
  "event_view w = \<lparr>wd = e_wd w, ev_mask = e_mask w, cookie = e_cookie w, ev_name = event_name_bytes w\<rparr>"

definition inotify_step :: "InotifyEvent next_fn" where
  "inotify_step b p =
     map_res (\<lambda>(r, s). (r, length b - length (ev_buf s))) (InotifyEvents_next \<lparr>ev_buf = drop p b\<rparr>)"

lemma InotifyEvents_next_record:
  assumes "event_ok w"
  shows "InotifyEvents_next \<lparr>ev_buf = event_bytes w @ after\<rparr> = Ok (Some (event_view w), \<lparr>ev_buf = after\<rparr>)"
proof -
  let ?n = "event_name_bytes w"
  have len: "unat (of_nat (length ?n) :: u32) = length ?n"
    using assms by (simp add: event_ok_def unat_of_nat)
  show ?thesis
    by (simp add: InotifyEvents_next_def event_bytes_def event_view_def slice_def HEADER_def Let_def len
        le_word_le_bytes_full drop_past)
qed

interpretation event: record_iter inotify_step event_bytes event_view event_ok
proof
  show "\<exists>p'. inotify_step b p = Ok (None, p')" if "length b \<le> p" for b p
    using that by (simp add: inotify_step_def InotifyEvents_next_def)
  show "inotify_step (before @ event_bytes w @ after) (length before)
      = Ok (Some (event_view w), length before + length (event_bytes w))" if "event_ok w" for w before after
    using that by (simp add: inotify_step_def InotifyEvents_next_record)
  show "p < p'" if "inotify_step b p = Ok (Some r, p')" for b p r p'
    using that by (auto simp: inotify_step_def InotifyEvents_next_def slice_def HEADER_def Let_def res_bind_eq_Ok
        split: if_splits)
qed

text \<open>
  C27: iterating over the bytes read from an inotify descriptor yields exactly the events the kernel
  queued, in order, and \<open>name\<close> gives the file name of an event without its padding, none where the
  kernel sent none; on arbitrary bytes the iteration always ends.
\<close>
theorem inotify_events_decode:
  assumes "list_all event_ok ws"
  shows "drain inotify_step (concat (map event_bytes ws)) 0 = Some (Ok (map event_view ws))
     \<and> map (InotifyEvent_name \<circ> event_view) ws = map e_name ws
     \<and> (\<exists>rs. drain inotify_step junk p = Some rs)"
proof -
  have "InotifyEvent_name (event_view w) = e_name w" if "event_ok w" for w
    using that takeWhile_name by (auto simp: InotifyEvent_name_def from_bytes_until_nul_def event_view_def
        event_name_bytes_def event_ok_def split: option.splits)
  with assms show ?thesis using event.drain_all event.drain_ends by (simp add: list_all_iff)
qed

theorem inotify_events_decode_witness:
  "drain inotify_step (concat (map event_bytes
       [\<lparr>e_wd = 1, e_mask = 256, e_cookie = 0, e_name = Some [97], e_pad = 14\<rparr>,
        \<lparr>e_wd = 1, e_mask = 1024, e_cookie = 0, e_name = None, e_pad = 0\<rparr>])) 0
     = Some (Ok [\<lparr>wd = 1, ev_mask = 256, cookie = 0, ev_name = 97 # replicate 15 0\<rparr>,
                 \<lparr>wd = 1, ev_mask = 1024, cookie = 0, ev_name = []\<rparr>])"
  using inotify_events_decode [of "[\<lparr>e_wd = 1, e_mask = 256, e_cookie = 0, e_name = Some [97], e_pad = 14\<rparr>,
        \<lparr>e_wd = 1, e_mask = 1024, e_cookie = 0, e_name = None, e_pad = 0\<rparr>]"]
  by (simp add: event_ok_def event_view_def event_name_bytes_def)

end
