(* ===== verification/Resources.thy ===== *)
theory Resources
  imports Fd
begin

text \<open>
  Memory mappings (\<open>src/mmap.rs\<close>), resource limits (\<open>src/rlimit.rs\<close>), system information
  (\<open>src/sysinfo.rs\<close>), event counters (\<open>src/eventfd.rs\<close>) and the file mode mask (\<open>src/umask.rs\<close>).
\<close>

section \<open>Memory mappings\<close>

definition PROT_READ :: i32 where "PROT_READ = 1"
definition PROT_WRITE :: i32 where "PROT_WRITE = 2"
definition PROT_EXEC :: i32 where "PROT_EXEC = 4"
definition PROT_NONE :: i32 where "PROT_NONE = 0"
definition MAP_SHARED :: i32 where "MAP_SHARED = 1"
definition MAP_PRIVATE :: i32 where "MAP_PRIVATE = 2"
definition MAP_FIXED :: i32 where "MAP_FIXED = 0x10"
definition MAP_ANONYMOUS :: i32 where "MAP_ANONYMOUS = 0x20"
definition MADV_NORMAL :: i32 where "MADV_NORMAL = 0"
definition MADV_RANDOM :: i32 where "MADV_RANDOM = 1"
definition MADV_SEQUENTIAL :: i32 where "MADV_SEQUENTIAL = 2"
definition MADV_WILLNEED :: i32 where "MADV_WILLNEED = 3"
definition MADV_DONTNEED :: i32 where "MADV_DONTNEED = 4"
definition MADV_FREE :: i32 where "MADV_FREE = 8"
definition MS_ASYNC :: i32 where "MS_ASYNC = 1"
definition MS_INVALIDATE :: i32 where "MS_INVALIDATE = 2"
definition MS_SYNC :: i32 where "MS_SYNC = 4"

definition mmap :: "'k mach \<Rightarrow> usize \<Rightarrow> usize \<Rightarrow> i32 \<Rightarrow> i32 \<Rightarrow> i32 \<Rightarrow> i64 \<Rightarrow> ('k, usize) io" where
  "mmap M addr len prot flags fd offset =
     call_usize M ''MMAP'' [Val addr, Val len, Val (scast prot), Val (scast flags), Val (scast fd), Val offset]"

definition munmap :: "'k mach \<Rightarrow> usize \<Rightarrow> usize \<Rightarrow> ('k, unit) io" where
  "munmap M addr len = call_unit M ''MUNMAP'' [Val addr, Val len, Val 0]"

definition mprotect :: "'k mach \<Rightarrow> usize \<Rightarrow> usize \<Rightarrow> i32 \<Rightarrow> ('k, unit) io" where
  "mprotect M addr len prot = call_unit M ''MPROTECT'' [Val addr, Val len, Val (scast prot)]"

definition madvise :: "'k mach \<Rightarrow> usize \<Rightarrow> usize \<Rightarrow> i32 \<Rightarrow> ('k, unit) io" where
  "madvise M addr len advice = call_unit M ''MADVISE'' [Val addr, Val len, Val (scast advice)]"

definition mlock :: "'k mach \<Rightarrow> usize \<Rightarrow> usize \<Rightarrow> ('k, unit) io" where
  "mlock M addr len = call_unit M ''MLOCK'' [Val addr, Val len, Val 0]"

definition munlock :: "'k mach \<Rightarrow> usize \<Rightarrow> usize \<Rightarrow> ('k, unit) io" where
  "munlock M addr len = call_unit M ''MUNLOCK'' [Val addr, Val len, Val 0]"

definition msync :: "'k mach \<Rightarrow> usize \<Rightarrow> usize \<Rightarrow> i32 \<Rightarrow> ('k, unit) io" where
  "msync M addr len flags = call_unit M ''MSYNC'' [Val addr, Val len, Val (scast flags)]"

section \<open>Resource limits\<close>

definition RLIM_INFINITY :: u64 where "RLIM_INFINITY = 0xffffffffffffffff"
definition RLIMIT_CPU :: i32 where "RLIMIT_CPU = 0"
definition RLIMIT_FSIZE :: i32 where "RLIMIT_FSIZE = 1"
definition RLIMIT_DATA :: i32 where "RLIMIT_DATA = 2"
definition RLIMIT_STACK :: i32 where "RLIMIT_STACK = 3"
definition RLIMIT_CORE :: i32 where "RLIMIT_CORE = 4"
definition RLIMIT_RSS :: i32 where "RLIMIT_RSS = 5"
definition RLIMIT_NPROC :: i32 where "RLIMIT_NPROC = 6"
definition RLIMIT_NOFILE :: i32 where "RLIMIT_NOFILE = 7"
definition RLIMIT_MEMLOCK :: i32 where "RLIMIT_MEMLOCK = 8"
definition RLIMIT_AS :: i32 where "RLIMIT_AS = 9"
definition RLIMIT_LOCKS :: i32 where "RLIMIT_LOCKS = 0xa"
definition RLIMIT_SIGPENDING :: i32 where "RLIMIT_SIGPENDING = 0xb"
definition RLIMIT_MSGQUEUE :: i32 where "RLIMIT_MSGQUEUE = 0xc"
definition RLIMIT_NICE :: i32 where "RLIMIT_NICE = 0xd"
definition RLIMIT_RTPRIO :: i32 where "RLIMIT_RTPRIO = 0xe"
definition RLIMIT_RTTIME :: i32 where "RLIMIT_RTTIME = 0xf"

record Rlimit =
  lim_cur :: u64
  lim_max :: u64

definition Rlimit_fields :: "(string \<times> cty) list" where
  "Rlimit_fields =
    [(''cur'', U64), (''max'', U64)]"

definition Rlimit_parts :: "Rlimit \<Rightarrow> byte list list" where
  "Rlimit_parts x =
    [le_bytes 8 (lim_cur x), le_bytes 8 (lim_max x)]"

definition Rlimit_build :: "byte list list \<Rightarrow> Rlimit" where
  "Rlimit_build bs =
    \<lparr>lim_cur = le_word (bs ! 0), lim_max = le_word (bs ! 1)\<rparr>"

abbreviation "enc_Rlimit \<equiv> struct_enc Rlimit_fields Rlimit_parts"
abbreviation "dec_Rlimit \<equiv> struct_dec Rlimit_fields Rlimit_build"

interpretation rlimit: struct_codec Rlimit_fields "\<lambda>_. True" Rlimit_parts Rlimit_build 16
  by (unfold_locales)
    (auto simp: Rlimit_fields_def Rlimit_parts_def Rlimit_build_def round_up_def two_fold codec_simps)

text \<open>Both pointers may be null; the caller's old value is handed back as left by the kernel.\<close>

definition prlimit ::
  "'k mach \<Rightarrow> i32 \<Rightarrow> i32 \<Rightarrow> Rlimit option \<Rightarrow> Rlimit option \<Rightarrow> 'k \<Rightarrow> unit res \<times> Rlimit option \<times> 'k" where
  "prlimit M pid resource new old k =
     (case sys M ''PRLIMIT64'' [Val (scast pid), Val (scast resource),
         (case new of Some n \<Rightarrow> Ptr (enc_Rlimit n) | None \<Rightarrow> Val 0),
         (case old of Some v \<Rightarrow> MutPtr (enc_Rlimit v) | None \<Rightarrow> Val 0)] k of
        (ret, outs, k') \<Rightarrow>
          (map_res (\<lambda>_. ()) (from_ret ret), map_option (\<lambda>_. dec_Rlimit (out_bytes outs 3)) old, k'))"

definition getrlimit :: "'k mach \<Rightarrow> i32 \<Rightarrow> ('k, Rlimit) io" where
  "getrlimit M resource k = (case prlimit M 0 resource None (Some \<lparr>lim_cur = 0, lim_max = 0\<rparr>) k of
     (r, old, k') \<Rightarrow> (map_res (\<lambda>_. the old) r, k'))"

definition setrlimit :: "'k mach \<Rightarrow> i32 \<Rightarrow> Rlimit \<Rightarrow> ('k, unit) io" where
  "setrlimit M resource limit k = (case prlimit M 0 resource (Some limit) None k of (r, _, k') \<Rightarrow> (r, k'))"

section \<open>System information\<close>

definition SI_LOAD_SHIFT :: u32 where "SI_LOAD_SHIFT = 0x10"

record Sysinfo =
  si_uptime :: i64
  si_loads :: "u64 list"
  si_totalram :: u64
  si_freeram :: u64
  si_sharedram :: u64
  si_bufferram :: u64
  si_totalswap :: u64
  si_freeswap :: u64
  si_procs :: u16
  si_pad :: u16
  si_totalhigh :: u64
  si_freehigh :: u64
  si_mem_unit :: u32

definition Sysinfo_fields :: "(string \<times> cty) list" where
  "Sysinfo_fields =
    [(''uptime'', U64), (''loads'', Arr 3 U64), (''totalram'', U64), (''freeram'', U64),
     (''sharedram'', U64), (''bufferram'', U64), (''totalswap'', U64), (''freeswap'', U64),
     (''procs'', U16), (''pad'', U16), (''totalhigh'', U64), (''freehigh'', U64),
     (''mem_unit'', U32)]"

definition Sysinfo_ok :: "Sysinfo \<Rightarrow> bool" where
  "Sysinfo_ok x \<longleftrightarrow> length (si_loads x) = 3"

definition Sysinfo_parts :: "Sysinfo \<Rightarrow> byte list list" where
  "Sysinfo_parts x =
    [le_bytes 8 (si_uptime x), enc_array (le_bytes 8) (si_loads x),
     le_bytes 8 (si_totalram x), le_bytes 8 (si_freeram x), le_bytes 8 (si_sharedram x),
     le_bytes 8 (si_bufferram x), le_bytes 8 (si_totalswap x), le_bytes 8 (si_freeswap x),
     le_bytes 2 (si_procs x), le_bytes 2 (si_pad x), le_bytes 8 (si_totalhigh x),
     le_bytes 8 (si_freehigh x), le_bytes 4 (si_mem_unit x)]"

definition Sysinfo_build :: "byte list list \<Rightarrow> Sysinfo" where
  "Sysinfo_build bs =
    \<lparr>si_uptime = le_word (bs ! 0), si_loads = dec_array 8 le_word 3 (bs ! 1),
     si_totalram = le_word (bs ! 2), si_freeram = le_word (bs ! 3),
     si_sharedram = le_word (bs ! 4), si_bufferram = le_word (bs ! 5),
     si_totalswap = le_word (bs ! 6), si_freeswap = le_word (bs ! 7),
     si_procs = le_word (bs ! 8), si_pad = le_word (bs ! 9),
     si_totalhigh = le_word (bs ! 10), si_freehigh = le_word (bs ! 11),
     si_mem_unit = le_word (bs ! 12)\<rparr>"

abbreviation "enc_Sysinfo \<equiv> struct_enc Sysinfo_fields Sysinfo_parts"
abbreviation "dec_Sysinfo \<equiv> struct_dec Sysinfo_fields Sysinfo_build"

lemma Sysinfo_ok_build: "fits Sysinfo_fields bs \<Longrightarrow> Sysinfo_ok (Sysinfo_build bs)"
  using fits_nth [of Sysinfo_fields bs 1]
  by (simp add: Sysinfo_ok_def Sysinfo_build_def Sysinfo_fields_def)

interpretation sysinfo_codec: struct_codec Sysinfo_fields Sysinfo_ok Sysinfo_parts Sysinfo_build 112
  by (unfold_locales; (erule Sysinfo_ok_build)?)
    (auto simp: Sysinfo_fields_def Sysinfo_parts_def Sysinfo_build_def Sysinfo_ok_def round_up_def two_fold codec_simps)

definition Sysinfo_default :: Sysinfo where
  "Sysinfo_default = \<lparr>si_uptime = 0, si_loads = replicate 3 0, si_totalram = 0, si_freeram = 0, si_sharedram = 0,
     si_bufferram = 0, si_totalswap = 0, si_freeswap = 0, si_procs = 0, si_pad = 0, si_totalhigh = 0,
     si_freehigh = 0, si_mem_unit = 0\<rparr>"

definition sysinfo :: "'k mach \<Rightarrow> ('k, Sysinfo) io" where
  "sysinfo M = call_out M ''SYSINFO'' [MutPtr (enc_Sysinfo Sysinfo_default)] (\<lambda>outs. dec_Sysinfo (out_bytes outs 0))"

section \<open>Event counters and the mode mask\<close>

definition EFD_SEMAPHORE :: i32 where "EFD_SEMAPHORE = push_bit 0 1"
definition EFD_CLOEXEC :: i32 where "EFD_CLOEXEC = 0x80000"
definition EFD_NONBLOCK :: i32 where "EFD_NONBLOCK = 0x800"

definition eventfd :: "'k mach \<Rightarrow> u32 \<Rightarrow> i32 \<Rightarrow> ('k, i32) io" where
  "eventfd M initval flags = call_i32 M ''EVENTFD2'' [Val (ucast initval), Val (scast flags)]"

definition umask :: "'k mach \<Rightarrow> u32 \<Rightarrow> 'k \<Rightarrow> u32 \<times> 'k" where
  "umask M msk k = (case sys M ''UMASK'' [Val (ucast msk)] k of (ret, _, k') \<Rightarrow> (ucast ret, k'))"

section \<open>Properties\<close>

text \<open>
  A mapping is never mistaken for an error: an address in the user half of the address space decodes
  to itself, although the same 64-bit register also carries error codes.
\<close>

lemma mmap_user_address:
  assumes "sys M ''MMAP'' [Val addr, Val len, Val (scast prot), Val (scast flags), Val (scast fd), Val offset] k
      = (p, outs, k')" and "uint p < 2 ^ 63"
  shows "mmap M addr len prot flags fd offset k = (Ok p, k')"
proof -
  have "sint p = uint p"
    using sint_word_of_int_small [of "uint p", where 'a = 64] assms(2) uint_nonnegative [of p] by simp
  then have "0 \<le> sint p" by simp
  then show ?thesis using assms(1) by (simp add: mmap_def call_usize_def from_ret_nonneg)
qed

text \<open>The kernel's side of limits: one pair per resource, replaced by a new one within the old maximum.\<close>

definition limit_contract :: "'k mach \<Rightarrow> ('k \<Rightarrow> i32 \<Rightarrow> Rlimit) \<Rightarrow> bool" where
  "limit_contract M limits \<longleftrightarrow>
     (\<forall>res k b. \<exists>a0 a1 a2. sys M ''PRLIMIT64'' [Val 0, Val (scast res), Val 0, MutPtr b] k
          = (0, [a0, a1, a2, MutPtr (enc_Rlimit (limits k res))], k))
     \<and> (\<forall>res k l. \<exists>outs k'. if lim_cur l \<le> lim_max l \<and> lim_max l \<le> lim_max (limits k res)
          then sys M ''PRLIMIT64'' [Val 0, Val (scast res), Ptr (enc_Rlimit l), Val 0] k = (0, outs, k')
             \<and> limits k' = (limits k)(res := l)
          else sys M ''PRLIMIT64'' [Val 0, Val (scast res), Ptr (enc_Rlimit l), Val 0] k = (- 22, outs, k))"

text \<open>
  A limit that is set is the limit read back, other resources keep theirs, and a refused limit
  (soft above hard, or hard raised) is \<open>EINVAL\<close> and changes nothing.
\<close>
lemma rlimit_round_trip:
  assumes "limit_contract M limits"
  shows "\<exists>k'. (if lim_cur l \<le> lim_max l \<and> lim_max l \<le> lim_max (limits k res)
      then setrlimit M res l k = (Ok (), k') \<and> limits k' = (limits k)(res := l)
      else setrlimit M res l k = (Err EINVAL, k') \<and> k' = k)
    \<and> getrlimit M res' k' = (Ok (limits k' res'), k')"
proof -
  have get: "getrlimit M res' j = (Ok (limits j res'), j)" for j
  proof -
    obtain a0 a1 a2 where "sys M ''PRLIMIT64'' [Val 0, Val (scast res'), Val 0,
        MutPtr (enc_Rlimit \<lparr>lim_cur = 0, lim_max = 0\<rparr>)] j = (0, [a0, a1, a2, MutPtr (enc_Rlimit (limits j res'))], j)"
      using assms unfolding limit_contract_def by blast
    then show ?thesis
      by (simp add: getrlimit_def prlimit_def out_bytes_def from_ret_def ERRNO_MAX_def rlimit.dec_enc)
  qed
  obtain outs k' where "if lim_cur l \<le> lim_max l \<and> lim_max l \<le> lim_max (limits k res)
          then sys M ''PRLIMIT64'' [Val 0, Val (scast res), Ptr (enc_Rlimit l), Val 0] k = (0, outs, k')
             \<and> limits k' = (limits k)(res := l)
          else sys M ''PRLIMIT64'' [Val 0, Val (scast res), Ptr (enc_Rlimit l), Val 0] k = (- 22, outs, k)"
    using assms unfolding limit_contract_def by blast
  then show ?thesis
    using get by (intro exI [of _ "if lim_cur l \<le> lim_max l \<and> lim_max l \<le> lim_max (limits k res) then k' else k"])
      (auto simp: setrlimit_def prlimit_def from_ret_def ERRNO_MAX_def)
qed

definition limit_kernel :: "(i32 \<Rightarrow> Rlimit) mach" where
  "limit_kernel = \<lparr>m_arch = X86_64, m_kernel = \<lambda>n args k. (case args of
     [p, Val res, Val z, MutPtr b] \<Rightarrow> (0, [p, Val res, Val z, MutPtr (enc_Rlimit (k (ucast res)))], k)
   | [p, Val res, Ptr b, Val z] \<Rightarrow> (let l = dec_Rlimit b in
       if lim_cur l \<le> lim_max l \<and> lim_max l \<le> lim_max (k (ucast res)) then (0, args, k(ucast res := l))
       else (- 22, args, k))
   | _ \<Rightarrow> (- 22, args, k))\<rparr>"

lemma rlimit_round_trip_example:
  "\<exists>k'. setrlimit limit_kernel 7 \<lparr>lim_cur = 64, lim_max = 128\<rparr> (\<lambda>_. \<lparr>lim_cur = 1024, lim_max = 4096\<rparr>) = (Ok (), k')
      \<and> getrlimit limit_kernel 7 k' = (Ok \<lparr>lim_cur = 64, lim_max = 128\<rparr>, k')"
proof -
  have "limit_contract limit_kernel (\<lambda>k. k)"
    by (auto simp: limit_contract_def limit_kernel_def sys_def ucast_scast_i32 rlimit.dec_enc Let_def)
  from rlimit_round_trip [OF this, of "\<lparr>lim_cur = 64, lim_max = 128\<rparr>" "\<lambda>_. \<lparr>lim_cur = 1024, lim_max = 4096\<rparr>" 7 7]
  show ?thesis by auto
qed

end
