(* ===== verification/Vfork.thy ===== *)
theory Vfork
  imports Arch
begin

text \<open>
  The hand-written trampolines of \<open>src/arch\<close>: \<open>vfork_execve\<close> and \<open>vfork_execve_redirected\<close>, the code a
  vforked child runs. Each is modelled instruction by instruction over a small machine with
  registers, flags, memory and a kernel that may or may not return; a specification of what the
  child has to do is stated once, and the programs are compared with it.
\<close>

section \<open>The machine\<close>

text \<open>
  A system call either returns a value or does not return (a successful \<open>execve\<close>, an
  \<open>exit_group\<close>). A run ends when such a call is made, when control reaches the end of the asm
  block, or at a trapping instruction.
\<close>

type_synonym 'k vkernel = "usize \<Rightarrow> usize list \<Rightarrow> 'k \<Rightarrow> usize option \<times> 'k"

record flags =
  zf :: bool
  sf :: bool
  cf :: bool
  lt :: bool

datatype ('r, 'k) config =
    Running nat "'r \<Rightarrow> usize" flags 'k
  | Gone 'k
  | Done "'r \<Rightarrow> usize" 'k
  | Fault 'k

text \<open>\<open>cmp a, b\<close>: equality, the sign of the difference, unsigned and signed order.\<close>

definition cmp_flags :: "'a::len word \<Rightarrow> 'a word \<Rightarrow> flags" where
  "cmp_flags a b = \<lparr>zf = (a = b), sf = (sint (a - b) < 0), cf = (a < b), lt = (sint a < sint b)\<rparr>"

definition test_flags :: "usize \<Rightarrow> flags" where
  "test_flags a = \<lparr>zf = (a = 0), sf = (sint a < 0), cf = False, lt = (sint a < 0)\<rparr>"

section \<open>x86_64\<close>

datatype xinstr =
    XSyscall
  | XTest xreg
  | XJnz nat | XJz nat | XJe nat | XJs nat | XJb nat
  | XZero xreg
  | XMovsxd xreg int
  | XCmp xreg xreg
  | XMovImm xreg usize
  | XMov xreg xreg
  | XInc xreg
  | XUd2
  | XLabel nat

fun xtarget :: "xinstr list \<Rightarrow> nat \<Rightarrow> nat" where
  "xtarget [] l = 0"
| "xtarget (i # is) l = (if i = XLabel l then 0 else Suc (xtarget is l))"

text \<open>
  \<open>XMovsxd r d\<close> is \<open>movsxd r, dword ptr [r15 + 8*rcx + d]\<close>, \<open>XZero r\<close> is \<open>xor r, r\<close>. \<open>syscall\<close>
  returns in \<open>rax\<close> and overwrites \<open>rcx\<close> with the address of the next instruction (\<open>rip\<close>) and
  \<open>r11\<close> with the flags.
\<close>

definition xstep ::
  "'k vkernel \<Rightarrow> (usize \<Rightarrow> u32) \<Rightarrow> (nat \<Rightarrow> usize) \<Rightarrow> usize \<Rightarrow> xinstr list \<Rightarrow> (xreg, 'k) config \<Rightarrow> (xreg, 'k) config" where
  "xstep K mem rip rfl P c = (case c of
     Running pc r f k \<Rightarrow>
       if pc < length P then (case P ! pc of
           XSyscall \<Rightarrow> (case K (r RAX) [r RDI, r RSI, r RDX, r R10, r R8, r R9] k of
               (Some v, k') \<Rightarrow> Running (Suc pc) (r(RAX := v, RCX := rip (Suc pc), R11 := rfl)) f k'
             | (None, k') \<Rightarrow> Gone k')
         | XTest a \<Rightarrow> Running (Suc pc) r (test_flags (r a)) k
         | XJnz l \<Rightarrow> Running (if zf f then Suc pc else xtarget P l) r f k
         | XJz l \<Rightarrow> Running (if zf f then xtarget P l else Suc pc) r f k
         | XJe l \<Rightarrow> Running (if zf f then xtarget P l else Suc pc) r f k
         | XJs l \<Rightarrow> Running (if sf f then xtarget P l else Suc pc) r f k
         | XJb l \<Rightarrow> Running (if cf f then xtarget P l else Suc pc) r f k
         | XZero a \<Rightarrow> Running (Suc pc) (r(a := 0)) (test_flags 0) k
         | XMovsxd a d \<Rightarrow>
             Running (Suc pc) (r(a := scast (mem (r R15 + 8 * r RCX + word_of_int d)))) f k
         | XCmp a b \<Rightarrow> Running (Suc pc) r (cmp_flags (r a) (r b)) k
         | XMovImm a v \<Rightarrow> Running (Suc pc) (r(a := v)) f k
         | XMov a b \<Rightarrow> Running (Suc pc) (r(a := r b)) f k
         | XInc a \<Rightarrow> Running (Suc pc) (r(a := r a + 1)) ((test_flags (r a + 1))\<lparr>cf := cf f\<rparr>) k
         | XUd2 \<Rightarrow> Fault k
         | XLabel _ \<Rightarrow> Running (Suc pc) r f k)
       else Done r k
   | _ \<Rightarrow> c)"

definition x86_64_vfork_execve :: "xinstr list" where
  "x86_64_vfork_execve =
     [XSyscall,
      XTest RAX,
      XJnz 2,
      XMov RDI R12,
      XMov RSI R13,
      XMov RDX R14,
      XMovImm RAX (nr X86_64 ''EXECVE''),
      XSyscall,
      XMovImm RAX (nr X86_64 ''EXIT_GROUP''),
      XMovImm RDI 127,
      XSyscall,
      XUd2,
      XLabel 2]"

definition x86_64_vfork_execve_redirected :: "xinstr list" where
  "x86_64_vfork_execve_redirected =
     [XSyscall,
      XTest RAX,
      XJnz 3,
      XTest R9,
      XJz 2,
      XZero RCX,
      XLabel 8,
      XMovsxd RDI 0,
      XMovsxd RSI 4,
      XCmp RDI RSI,
      XJe 6,
      XMovImm RAX (nr X86_64 ''DUP2''),
      XSyscall,
      XTest RAX,
      XJs 4,
      XLabel 6,
      XInc RCX,
      XCmp RCX R9,
      XJb 8,
      XLabel 2,
      XMov RDI R12,
      XMov RSI R13,
      XMov RDX R14,
      XMovImm RAX (nr X86_64 ''EXECVE''),
      XSyscall,
      XMovImm RAX (nr X86_64 ''EXIT_GROUP''),
      XMovImm RDI 127,
      XSyscall,
      XUd2,
      XLabel 4,
      XMovImm RAX (nr X86_64 ''EXIT_GROUP''),
      XMovImm RDI 126,
      XSyscall,
      XUd2,
      XLabel 3]"

text \<open>The registers the asm operands load before the first instruction.\<close>

definition x86_64_entry ::
  "(xreg \<Rightarrow> usize) \<Rightarrow> usize \<Rightarrow> usize \<Rightarrow> usize \<Rightarrow> usize \<Rightarrow> usize \<Rightarrow> usize \<Rightarrow> xreg \<Rightarrow> usize" where
  "x86_64_entry r flgs path argv envp redirects redirects_len =
     r(RAX := nr X86_64 ''CLONE'', RDI := flgs, RSI := 0, RDX := 0, R10 := 0, R8 := 0,
       R12 := path, R13 := argv, R14 := envp, R15 := redirects, R9 := redirects_len)"

section \<open>aarch64\<close>

datatype ainstr =
    ASvc
  | ACbnz nat nat | ACbz nat nat | ABeq nat | ABlt nat
  | AMovImm nat usize
  | AMov nat nat
  | AAddLsl3 nat nat nat
  | ALdrW nat nat int
  | ACmpW nat nat
  | ACmp nat nat
  | ACmpZero nat
  | AInc nat
  | ABrk
  | ALabel nat

fun atarget :: "ainstr list \<Rightarrow> nat \<Rightarrow> nat" where
  "atarget [] l = 0"
| "atarget (i # is) l = (if i = ALabel l then 0 else Suc (atarget is l))"

text \<open>
  \<open>AAddLsl3 d n m\<close> is \<open>add xd, xn, xm, lsl #3\<close>; \<open>ALdrW t n d\<close> is \<open>ldr wt, [xn, #d]\<close>, which clears
  the upper half of \<open>xt\<close>; \<open>AInc n\<close> is \<open>add xn, xn, #1\<close>.
\<close>

definition astep ::
  "'k vkernel \<Rightarrow> (usize \<Rightarrow> u32) \<Rightarrow> ainstr list \<Rightarrow> (areg, 'k) config \<Rightarrow> (areg, 'k) config" where
  "astep K mem P c = (case c of
     Running pc r f k \<Rightarrow>
       if pc < length P then (case P ! pc of
           ASvc \<Rightarrow> (case K (r (X 8)) [r (X 0), r (X 1), r (X 2), r (X 3), r (X 4), r (X 5)] k of
               (Some v, k') \<Rightarrow> Running (Suc pc) (r(X 0 := v)) f k'
             | (None, k') \<Rightarrow> Gone k')
         | ACbnz n l \<Rightarrow> Running (if r (X n) \<noteq> 0 then atarget P l else Suc pc) r f k
         | ACbz n l \<Rightarrow> Running (if r (X n) = 0 then atarget P l else Suc pc) r f k
         | ABeq l \<Rightarrow> Running (if zf f then atarget P l else Suc pc) r f k
         | ABlt l \<Rightarrow> Running (if lt f then atarget P l else Suc pc) r f k
         | AMovImm d v \<Rightarrow> Running (Suc pc) (r(X d := v)) f k
         | AMov d n \<Rightarrow> Running (Suc pc) (r(X d := r (X n))) f k
         | AAddLsl3 d n m \<Rightarrow> Running (Suc pc) (r(X d := r (X n) + 8 * r (X m))) f k
         | ALdrW t n d \<Rightarrow> Running (Suc pc) (r(X t := ucast (mem (r (X n) + word_of_int d)))) f k
         | ACmpW n m \<Rightarrow>
             Running (Suc pc) r (cmp_flags (ucast (r (X n)) :: u32) (ucast (r (X m)))) k
         | ACmp n m \<Rightarrow> Running (Suc pc) r (cmp_flags (r (X n)) (r (X m))) k
         | ACmpZero n \<Rightarrow> Running (Suc pc) r (cmp_flags (r (X n)) 0) k
         | AInc n \<Rightarrow> Running (Suc pc) (r(X n := r (X n) + 1)) f k
         | ABrk \<Rightarrow> Fault k
         | ALabel _ \<Rightarrow> Running (Suc pc) r f k)
       else Done r k
   | _ \<Rightarrow> c)"

definition aarch64_vfork_execve :: "ainstr list" where
  "aarch64_vfork_execve =
     [ASvc,
      ACbnz 0 2,
      AMov 0 9,
      AMov 1 10,
      AMov 2 11,
      AMovImm 8 (nr Aarch64 ''EXECVE''),
      ASvc,
      AMovImm 8 (nr Aarch64 ''EXIT_GROUP''),
      AMovImm 0 127,
      ASvc,
      ABrk,
      ALabel 2]"

definition aarch64_vfork_execve_redirected :: "ainstr list" where
  "aarch64_vfork_execve_redirected =
     [ASvc,
      ACbnz 0 3,
      ACbz 13 2,
      AMovImm 14 0,
      ALabel 1,
      AAddLsl3 15 12 14,
      ALdrW 0 15 0,
      ALdrW 1 15 4,
      ACmpW 0 1,
      ABeq 6,
      AMovImm 8 (nr Aarch64 ''DUP3''),
      AMovImm 2 0,
      ASvc,
      ACmpZero 0,
      ABlt 4,
      ALabel 6,
      AInc 14,
      ACmp 14 13,
      ABlt 1,
      ALabel 2,
      AMov 0 9,
      AMov 1 10,
      AMov 2 11,
      AMovImm 8 (nr Aarch64 ''EXECVE''),
      ASvc,
      AMovImm 8 (nr Aarch64 ''EXIT_GROUP''),
      AMovImm 0 127,
      ASvc,
      ABrk,
      ALabel 4,
      AMovImm 8 (nr Aarch64 ''EXIT_GROUP''),
      AMovImm 0 126,
      ASvc,
      ABrk,
      ALabel 3]"

definition aarch64_entry ::
  "(areg \<Rightarrow> usize) \<Rightarrow> usize \<Rightarrow> usize \<Rightarrow> usize \<Rightarrow> usize \<Rightarrow> usize \<Rightarrow> usize \<Rightarrow> areg \<Rightarrow> usize" where
  "aarch64_entry r flgs path argv envp redirects redirects_len =
     r(X 8 := nr Aarch64 ''CLONE'', X 0 := flgs, X 1 := 0, X 2 := 0, X 3 := 0, X 4 := 0,
       X 9 := path, X 10 := argv, X 11 := envp, X 12 := redirects, X 13 := redirects_len)"

section \<open>What the child has to do\<close>

text \<open>
  Apply the redirections in order, skipping those onto themselves; \<open>None\<close> is a call that did not
  return, \<open>Some False\<close> a redirection that failed.
\<close>

fun apply_redirects ::
  "(i32 \<Rightarrow> i32 \<Rightarrow> 'k \<Rightarrow> usize option \<times> 'k) \<Rightarrow> (i32 \<times> i32) list \<Rightarrow> 'k \<Rightarrow> bool option \<times> 'k" where
  "apply_redirects D [] k = (Some True, k)"
| "apply_redirects D ((oldfd, newfd) # rs) k =
     (if oldfd = newfd then apply_redirects D rs k
      else case D oldfd newfd k of
        (None, k') \<Rightarrow> (None, k')
      | (Some v, k') \<Rightarrow> if sint v < 0 then (Some False, k') else apply_redirects D rs k')"

text \<open>
  Then replace the image; leave with status 126 if a redirection failed, with 127 if \<open>execve\<close> came
  back. The result is the state in which the child is gone.
\<close>

definition child_spec ::
  "(i32 \<Rightarrow> i32 \<Rightarrow> 'k \<Rightarrow> usize option \<times> 'k) \<Rightarrow> ('k \<Rightarrow> usize option \<times> 'k) \<Rightarrow> (usize \<Rightarrow> 'k \<Rightarrow> usize option \<times> 'k)
   \<Rightarrow> (i32 \<times> i32) list \<Rightarrow> 'k \<Rightarrow> 'k" where
  "child_spec D execve exit_group rs k = (case apply_redirects D rs k of
       (None, k') \<Rightarrow> k'
     | (Some False, k') \<Rightarrow> snd (exit_group 126 k')
     | (Some True, k') \<Rightarrow> (case execve k' of
           (None, k'') \<Rightarrow> k''
         | (Some _, k'') \<Rightarrow> snd (exit_group 127 k'')))"

section \<open>Running programs\<close>

fun run :: "('c \<Rightarrow> 'c) \<Rightarrow> nat \<Rightarrow> 'c \<Rightarrow> 'c" where
  "run stp 0 c = c"
| "run stp (Suc n) c = run stp n (stp c)"

lemma run_add: "run stp (m + n) c = run stp n (run stp m c)"
  by (induction m arbitrary: c) simp_all

lemma run_numeral: "run stp (numeral n) c = run stp (pred_numeral n) (stp c)"
  by (simp add: numeral_eq_Suc)

definition reaches :: "('c \<Rightarrow> 'c) \<Rightarrow> nat \<Rightarrow> 'c \<Rightarrow> 'c \<Rightarrow> bool" where
  "reaches stp n c c' \<longleftrightarrow> (\<exists>m \<le> n. run stp m c = c')"

lemma reachesI: "run stp m c = c' \<Longrightarrow> m \<le> n \<Longrightarrow> reaches stp n c c'"
  by (auto simp: reaches_def)

lemma reaches_mono: "reaches stp m c c' \<Longrightarrow> m \<le> n \<Longrightarrow> reaches stp n c c'"
  by (auto simp: reaches_def intro: order_trans)

lemma reaches_refl: "reaches stp n c c"
  by (auto simp: reaches_def intro: exI [of _ 0])

lemma reaches_trans: "reaches stp m a b \<Longrightarrow> reaches stp n b c \<Longrightarrow> reaches stp (m + n) a c"
proof -
  assume "reaches stp m a b" and "reaches stp n b c"
  then obtain i j where "i \<le> m" "j \<le> n" "run stp i a = b" "run stp j b = c"
    unfolding reaches_def by blast
  then have "run stp (i + j) a = c" and "i + j \<le> m + n" by (simp_all add: run_add)
  then show ?thesis by (rule reachesI)
qed

lemma reaches_after: "run stp m a = b \<Longrightarrow> reaches stp n b c \<Longrightarrow> reaches stp (m + n) a c"
  by (rule reaches_trans [OF reachesI [OF _ le_refl]])

lemma xstep_final [simp]:
  "xstep K mem rip rfl P (Gone k) = Gone k" "xstep K mem rip rfl P (Done r k) = Done r k"
  "xstep K mem rip rfl P (Fault k) = Fault k"
  by (simp_all add: xstep_def)

lemma astep_final [simp]:
  "astep K mem P (Gone k) = Gone k" "astep K mem P (Done r k) = Done r k"
  "astep K mem P (Fault k) = Fault k"
  by (simp_all add: astep_def)

lemma run_fixed: "stp c = c \<Longrightarrow> run stp n c = c"
  by (induction n) simp_all

lemma reaches_fixed:
  assumes "reaches stp n a c" and "stp c = c" and "n \<le> fuel"
  shows "run stp fuel a = c"
proof -
  from assms(1) obtain m where "m \<le> n" and m: "run stp m a = c" unfolding reaches_def by blast
  with assms(3) obtain d where "fuel = m + d" using le_Suc_ex le_trans by blast
  with m assms(2) show ?thesis by (simp add: run_add run_fixed)
qed

lemma x86_64_vfork_execve_code:
  "length x86_64_vfork_execve = 13"
  "x86_64_vfork_execve ! 0 = XSyscall"
  "x86_64_vfork_execve ! Suc 0 = XTest RAX"
  "x86_64_vfork_execve ! 2 = XJnz 2"
  "x86_64_vfork_execve ! 3 = XMov RDI R12"
  "x86_64_vfork_execve ! 4 = XMov RSI R13"
  "x86_64_vfork_execve ! 5 = XMov RDX R14"
  "x86_64_vfork_execve ! 6 = XMovImm RAX (nr X86_64 ''EXECVE'')"
  "x86_64_vfork_execve ! 7 = XSyscall"
  "x86_64_vfork_execve ! 8 = XMovImm RAX (nr X86_64 ''EXIT_GROUP'')"
  "x86_64_vfork_execve ! 9 = XMovImm RDI 127"
  "x86_64_vfork_execve ! 10 = XSyscall"
  "x86_64_vfork_execve ! 11 = XUd2"
  "x86_64_vfork_execve ! 12 = XLabel 2"
  "xtarget x86_64_vfork_execve 2 = 12"
  by (simp_all add: x86_64_vfork_execve_def)

lemma x86_64_vfork_execve_redirected_code:
  "length x86_64_vfork_execve_redirected = 35"
  "x86_64_vfork_execve_redirected ! 0 = XSyscall"
  "x86_64_vfork_execve_redirected ! Suc 0 = XTest RAX"
  "x86_64_vfork_execve_redirected ! 2 = XJnz 3"
  "x86_64_vfork_execve_redirected ! 3 = XTest R9"
  "x86_64_vfork_execve_redirected ! 4 = XJz 2"
  "x86_64_vfork_execve_redirected ! 5 = XZero RCX"
  "x86_64_vfork_execve_redirected ! 6 = XLabel 8"
  "x86_64_vfork_execve_redirected ! 7 = XMovsxd RDI 0"
  "x86_64_vfork_execve_redirected ! 8 = XMovsxd RSI 4"
  "x86_64_vfork_execve_redirected ! 9 = XCmp RDI RSI"
  "x86_64_vfork_execve_redirected ! 10 = XJe 6"
  "x86_64_vfork_execve_redirected ! 11 = XMovImm RAX (nr X86_64 ''DUP2'')"
  "x86_64_vfork_execve_redirected ! 12 = XSyscall"
  "x86_64_vfork_execve_redirected ! 13 = XTest RAX"
  "x86_64_vfork_execve_redirected ! 14 = XJs 4"
  "x86_64_vfork_execve_redirected ! 15 = XLabel 6"
  "x86_64_vfork_execve_redirected ! 16 = XInc RCX"
  "x86_64_vfork_execve_redirected ! 17 = XCmp RCX R9"
  "x86_64_vfork_execve_redirected ! 18 = XJb 8"
  "x86_64_vfork_execve_redirected ! 19 = XLabel 2"
  "x86_64_vfork_execve_redirected ! 20 = XMov RDI R12"
  "x86_64_vfork_execve_redirected ! 21 = XMov RSI R13"
  "x86_64_vfork_execve_redirected ! 22 = XMov RDX R14"
  "x86_64_vfork_execve_redirected ! 23 = XMovImm RAX (nr X86_64 ''EXECVE'')"
  "x86_64_vfork_execve_redirected ! 24 = XSyscall"
  "x86_64_vfork_execve_redirected ! 25 = XMovImm RAX (nr X86_64 ''EXIT_GROUP'')"
  "x86_64_vfork_execve_redirected ! 26 = XMovImm RDI 127"
  "x86_64_vfork_execve_redirected ! 27 = XSyscall"
  "x86_64_vfork_execve_redirected ! 28 = XUd2"
  "x86_64_vfork_execve_redirected ! 29 = XLabel 4"
  "x86_64_vfork_execve_redirected ! 30 = XMovImm RAX (nr X86_64 ''EXIT_GROUP'')"
  "x86_64_vfork_execve_redirected ! 31 = XMovImm RDI 126"
  "x86_64_vfork_execve_redirected ! 32 = XSyscall"
  "x86_64_vfork_execve_redirected ! 33 = XUd2"
  "x86_64_vfork_execve_redirected ! 34 = XLabel 3"
  "xtarget x86_64_vfork_execve_redirected 8 = 6"
  "xtarget x86_64_vfork_execve_redirected 6 = 15"
  "xtarget x86_64_vfork_execve_redirected 2 = 19"
  "xtarget x86_64_vfork_execve_redirected 4 = 29"
  "xtarget x86_64_vfork_execve_redirected 3 = 34"
  by (simp_all add: x86_64_vfork_execve_redirected_def)

lemma aarch64_vfork_execve_code:
  "length aarch64_vfork_execve = 12"
  "aarch64_vfork_execve ! 0 = ASvc"
  "aarch64_vfork_execve ! Suc 0 = ACbnz 0 2"
  "aarch64_vfork_execve ! 2 = AMov 0 9"
  "aarch64_vfork_execve ! 3 = AMov 1 10"
  "aarch64_vfork_execve ! 4 = AMov 2 11"
  "aarch64_vfork_execve ! 5 = AMovImm 8 (nr Aarch64 ''EXECVE'')"
  "aarch64_vfork_execve ! 6 = ASvc"
  "aarch64_vfork_execve ! 7 = AMovImm 8 (nr Aarch64 ''EXIT_GROUP'')"
  "aarch64_vfork_execve ! 8 = AMovImm 0 127"
  "aarch64_vfork_execve ! 9 = ASvc"
  "aarch64_vfork_execve ! 10 = ABrk"
  "aarch64_vfork_execve ! 11 = ALabel 2"
  "atarget aarch64_vfork_execve 2 = 11"
  by (simp_all add: aarch64_vfork_execve_def)

lemma aarch64_vfork_execve_redirected_code:
  "length aarch64_vfork_execve_redirected = 35"
  "aarch64_vfork_execve_redirected ! 0 = ASvc"
  "aarch64_vfork_execve_redirected ! Suc 0 = ACbnz 0 3"
  "aarch64_vfork_execve_redirected ! 2 = ACbz 13 2"
  "aarch64_vfork_execve_redirected ! 3 = AMovImm 14 0"
  "aarch64_vfork_execve_redirected ! 4 = ALabel 1"
  "aarch64_vfork_execve_redirected ! 5 = AAddLsl3 15 12 14"
  "aarch64_vfork_execve_redirected ! 6 = ALdrW 0 15 0"
  "aarch64_vfork_execve_redirected ! 7 = ALdrW 1 15 4"
  "aarch64_vfork_execve_redirected ! 8 = ACmpW 0 1"
  "aarch64_vfork_execve_redirected ! 9 = ABeq 6"
  "aarch64_vfork_execve_redirected ! 10 = AMovImm 8 (nr Aarch64 ''DUP3'')"
  "aarch64_vfork_execve_redirected ! 11 = AMovImm 2 0"
  "aarch64_vfork_execve_redirected ! 12 = ASvc"
  "aarch64_vfork_execve_redirected ! 13 = ACmpZero 0"
  "aarch64_vfork_execve_redirected ! 14 = ABlt 4"
  "aarch64_vfork_execve_redirected ! 15 = ALabel 6"
  "aarch64_vfork_execve_redirected ! 16 = AInc 14"
  "aarch64_vfork_execve_redirected ! 17 = ACmp 14 13"
  "aarch64_vfork_execve_redirected ! 18 = ABlt 1"
  "aarch64_vfork_execve_redirected ! 19 = ALabel 2"
  "aarch64_vfork_execve_redirected ! 20 = AMov 0 9"
  "aarch64_vfork_execve_redirected ! 21 = AMov 1 10"
  "aarch64_vfork_execve_redirected ! 22 = AMov 2 11"
  "aarch64_vfork_execve_redirected ! 23 = AMovImm 8 (nr Aarch64 ''EXECVE'')"
  "aarch64_vfork_execve_redirected ! 24 = ASvc"
  "aarch64_vfork_execve_redirected ! 25 = AMovImm 8 (nr Aarch64 ''EXIT_GROUP'')"
  "aarch64_vfork_execve_redirected ! 26 = AMovImm 0 127"
  "aarch64_vfork_execve_redirected ! 27 = ASvc"
  "aarch64_vfork_execve_redirected ! 28 = ABrk"
  "aarch64_vfork_execve_redirected ! 29 = ALabel 4"
  "aarch64_vfork_execve_redirected ! 30 = AMovImm 8 (nr Aarch64 ''EXIT_GROUP'')"
  "aarch64_vfork_execve_redirected ! 31 = AMovImm 0 126"
  "aarch64_vfork_execve_redirected ! 32 = ASvc"
  "aarch64_vfork_execve_redirected ! 33 = ABrk"
  "aarch64_vfork_execve_redirected ! 34 = ALabel 3"
  "atarget aarch64_vfork_execve_redirected (Suc 0) = 4"
  "atarget aarch64_vfork_execve_redirected 6 = 15"
  "atarget aarch64_vfork_execve_redirected 2 = 19"
  "atarget aarch64_vfork_execve_redirected 4 = 29"
  "atarget aarch64_vfork_execve_redirected 3 = 34"
  by (simp_all add: aarch64_vfork_execve_redirected_def)

text \<open>
  What the trampolines rely on of the kernel: \<open>execve\<close> looks at three arguments, \<open>exit_group\<close> at one
  and never returns, and the duplicating call at \<open>m\<close>.
\<close>

definition vfork_contract :: "'k vkernel \<Rightarrow> arch \<Rightarrow> string \<Rightarrow> nat \<Rightarrow> bool" where
  "vfork_contract K a dup_name m \<longleftrightarrow>
     reads_args K (nr a ''EXECVE'') 3 \<and> reads_args K (nr a ''EXIT_GROUP'') 1
     \<and> reads_args K (nr a dup_name) m \<and> (\<forall>args k. fst (K (nr a ''EXIT_GROUP'') args k) = None)"

definition execve_call :: "'k vkernel \<Rightarrow> arch \<Rightarrow> usize \<Rightarrow> usize \<Rightarrow> usize \<Rightarrow> 'k \<Rightarrow> usize option \<times> 'k" where
  "execve_call K a path argv envp k = K (nr a ''EXECVE'') [path, argv, envp] k"

definition exit_call :: "'k vkernel \<Rightarrow> arch \<Rightarrow> usize \<Rightarrow> 'k \<Rightarrow> usize option \<times> 'k" where
  "exit_call K a status k = K (nr a ''EXIT_GROUP'') [status] k"

lemma execve_callI:
  assumes "vfork_contract K a dup_name m"
  shows "K (nr a ''EXECVE'') [p, q, r, s, t, u] k = execve_call K a p q r k"
proof -
  have "reads_args K (nr a ''EXECVE'') 3" using assms by (simp add: vfork_contract_def)
  then show ?thesis unfolding execve_call_def by (rule reads_argsD) simp
qed

lemma exit_callI:
  assumes "vfork_contract K a dup_name m"
  shows "K (nr a ''EXIT_GROUP'') [p, q, r, s, t, u] k = exit_call K a p k"
proof -
  have "reads_args K (nr a ''EXIT_GROUP'') 1" using assms by (simp add: vfork_contract_def)
  then show ?thesis unfolding exit_call_def by (rule reads_argsD) simp
qed

lemma exit_call_gone:
  assumes "vfork_contract K a dup_name m"
  obtains k' where "exit_call K a p k = (None, k')"
proof
  have "fst (exit_call K a p k) = None"
    using assms unfolding exit_call_def vfork_contract_def by blast
  then show "exit_call K a p k = (None, snd (exit_call K a p k))" by (simp add: prod_eq_iff)
qed

section \<open>The aarch64 trampolines\<close>

lemma aarch64_tail:
  assumes "vfork_contract K Aarch64 dn m"
  shows "run (astep K mem aarch64_vfork_execve_redirected) 9 (Running 19 r f k)
    = Gone (case execve_call K Aarch64 (r (X 9)) (r (X 10)) (r (X 11)) k of
        (None, k') \<Rightarrow> k' | (Some _, k') \<Rightarrow> snd (exit_call K Aarch64 127 k'))"
proof -
  obtain v k' where e: "execve_call K Aarch64 (r (X 9)) (r (X 10)) (r (X 11)) k = (v, k')" by force
  obtain k2 where x: "exit_call K Aarch64 127 k' = (None, k2)" by (rule exit_call_gone [OF assms])
  show ?thesis
    using e x
    by (cases v) (simp_all add: run_numeral astep_def aarch64_vfork_execve_redirected_code
        execve_callI [OF assms] exit_callI [OF assms])
qed

lemma aarch64_fail:
  assumes "vfork_contract K Aarch64 dn m"
  shows "run (astep K mem aarch64_vfork_execve_redirected) 4 (Running 29 r f k)
    = Gone (snd (exit_call K Aarch64 126 k))"
proof -
  obtain k2 where x: "exit_call K Aarch64 126 k = (None, k2)" by (rule exit_call_gone [OF assms])
  then show ?thesis
    by (simp add: run_numeral astep_def aarch64_vfork_execve_redirected_code
        exit_callI [OF assms])
qed

text \<open>The redirection records lie at \<open>base\<close>, eight bytes each.\<close>

definition redirects_at :: "(usize \<Rightarrow> u32) \<Rightarrow> usize \<Rightarrow> (i32 \<times> i32) list \<Rightarrow> bool" where
  "redirects_at mem base rs \<longleftrightarrow>
     (\<forall>i < length rs. mem (base + 8 * of_nat i) = fst (rs ! i) \<and> mem (base + 8 * of_nat i + 4) = snd (rs ! i))"

definition dup3_call :: "'k vkernel \<Rightarrow> i32 \<Rightarrow> i32 \<Rightarrow> 'k \<Rightarrow> usize option \<times> 'k" where
  "dup3_call K oldfd newfd k = K (nr Aarch64 ''DUP3'') [ucast oldfd, ucast newfd, 0] k"

lemma dup3_callD:
  assumes "vfork_contract K Aarch64 ''DUP3'' 3"
  shows "K (nr Aarch64 ''DUP3'') [ucast oldfd, ucast newfd, 0, s, t, u] k = dup3_call K oldfd newfd k"
proof -
  from assms have "reads_args K (nr Aarch64 ''DUP3'') 3" by (simp add: vfork_contract_def)
  then show ?thesis unfolding dup3_call_def by (rule reads_argsD) simp
qed

text \<open>The loop invariant: what the registers hold when \<open>i\<close> redirections are done.\<close>

definition aarch64_inv ::
  "usize \<Rightarrow> usize \<Rightarrow> usize \<Rightarrow> usize \<Rightarrow> nat \<Rightarrow> nat \<Rightarrow> (areg \<Rightarrow> usize) \<Rightarrow> bool" where
  "aarch64_inv path argv envp base len i r \<longleftrightarrow>
     r (X 9) = path \<and> r (X 10) = argv \<and> r (X 11) = envp \<and> r (X 12) = base
     \<and> r (X 13) = of_nat len \<and> r (X 14) = of_nat i"

lemma less_of_nat_sint:
  "i < 2 ^ 63 \<Longrightarrow> j < 2 ^ 63 \<Longrightarrow> sint (of_nat i :: usize) < sint (of_nat j :: usize) \<longleftrightarrow> i < j"
proof -
  have "sint (of_nat n :: usize) = int n" if "n < 2 ^ 63" for n
    using that sint_word_of_int_small [of "int n", where 'a = 64] by simp
  then show "i < 2 ^ 63 \<Longrightarrow> j < 2 ^ 63 \<Longrightarrow> ?thesis" by simp
qed

lemma aarch64_body_skip:
  assumes "redirects_at mem base rs" and "i < length rs" and "length rs < 2 ^ 63"
    and "rs ! i = (fd, fd)" and "aarch64_inv path argv envp base (length rs) i r"
  shows "\<exists>r' f'. run (astep K mem aarch64_vfork_execve_redirected) 10 (Running 4 r f k)
      = Running (if Suc i < length rs then 4 else 19) r' f' k
    \<and> aarch64_inv path argv envp base (length rs) (Suc i) r'"
proof -
  have m: "mem (base + 8 * of_nat i) = fd" "mem (base + 8 * of_nat i + 4) = fd"
    using assms(1,2,4) by (auto simp: redirects_at_def)
  have c: "sint (1 + of_nat i :: usize) < sint (of_nat (length rs) :: usize) \<longleftrightarrow> Suc i < length rs"
    using less_of_nat_sint [of "Suc i" "length rs"] assms(2,3) by simp
  show ?thesis
    using assms(5) m c
    by (simp add: run_numeral astep_def aarch64_vfork_execve_redirected_code cmp_flags_def
        aarch64_inv_def add.commute)
qed

lemma aarch64_body_dup:
  assumes "vfork_contract K Aarch64 ''DUP3'' 3"
    and "redirects_at mem base rs" and "i < length rs" and "length rs < 2 ^ 63"
    and "rs ! i = (oldfd, newfd)" and "oldfd \<noteq> newfd"
    and "aarch64_inv path argv envp base (length rs) i r"
    and "dup3_call K oldfd newfd k = (Some v, k')" and "0 \<le> sint v"
  shows "\<exists>r' f'. run (astep K mem aarch64_vfork_execve_redirected) 15 (Running 4 r f k)
      = Running (if Suc i < length rs then 4 else 19) r' f' k'
    \<and> aarch64_inv path argv envp base (length rs) (Suc i) r'"
proof -
  have m: "mem (base + 8 * of_nat i) = oldfd" "mem (base + 8 * of_nat i + 4) = newfd"
    using assms(2,3,5) by (auto simp: redirects_at_def)
  have c: "sint (1 + of_nat i :: usize) < sint (of_nat (length rs) :: usize) \<longleftrightarrow> Suc i < length rs"
    using less_of_nat_sint [of "Suc i" "length rs"] assms(3,4) by simp
  show ?thesis
    using assms(6-9) m c
    by (simp add: run_numeral astep_def aarch64_vfork_execve_redirected_code cmp_flags_def
        aarch64_inv_def add.commute dup3_callD [OF assms(1)])
qed

lemma aarch64_body_failed:
  assumes "vfork_contract K Aarch64 ''DUP3'' 3"
    and "redirects_at mem base rs" and "i < length rs"
    and "rs ! i = (oldfd, newfd)" and "oldfd \<noteq> newfd"
    and "aarch64_inv path argv envp base (length rs) i r"
    and "dup3_call K oldfd newfd k = (Some v, k')" and "sint v < 0"
  shows "run (astep K mem aarch64_vfork_execve_redirected) 15 (Running 4 r f k)
    = Gone (snd (exit_call K Aarch64 126 k'))"
proof -
  have m: "mem (base + 8 * of_nat i) = oldfd" "mem (base + 8 * of_nat i + 4) = newfd"
    using assms(2,3,4) by (auto simp: redirects_at_def)
  let ?stp = "astep K mem aarch64_vfork_execve_redirected"
  have "\<exists>r' f'. run ?stp 11 (Running 4 r f k) = Running 29 r' f' k'"
    using assms(5-8) m
    by (simp add: run_numeral astep_def aarch64_vfork_execve_redirected_code cmp_flags_def
        aarch64_inv_def add.commute dup3_callD [OF assms(1)])
  then obtain r' f' where "run ?stp 11 (Running 4 r f k) = Running 29 r' f' k'" by blast
  then have "run ?stp (11 + 4) (Running 4 r f k) = Gone (snd (exit_call K Aarch64 126 k'))"
    by (simp only: run_add aarch64_fail [OF assms(1)])
  then show ?thesis by simp
qed

lemma aarch64_body_gone:
  assumes "vfork_contract K Aarch64 ''DUP3'' 3"
    and "redirects_at mem base rs" and "i < length rs"
    and "rs ! i = (oldfd, newfd)" and "oldfd \<noteq> newfd"
    and "aarch64_inv path argv envp base (length rs) i r"
    and "dup3_call K oldfd newfd k = (None, k')"
  shows "run (astep K mem aarch64_vfork_execve_redirected) 9 (Running 4 r f k) = Gone k'"
proof -
  have m: "mem (base + 8 * of_nat i) = oldfd" "mem (base + 8 * of_nat i + 4) = newfd"
    using assms(2,3,4) by (auto simp: redirects_at_def)
  show ?thesis
    using assms(5-7) m
    by (simp add: run_numeral astep_def aarch64_vfork_execve_redirected_code cmp_flags_def
        aarch64_inv_def add.commute dup3_callD [OF assms(1)])
qed

text \<open>One round of the loop, whatever follows it.\<close>

lemma aarch64_round:
  fixes K mem path argv envp base rs
  defines "stp \<equiv> astep K mem aarch64_vfork_execve_redirected"
    and "spec \<equiv> child_spec (dup3_call K) (execve_call K Aarch64 path argv envp) (exit_call K Aarch64)"
  assumes K: "vfork_contract K Aarch64 ''DUP3'' 3"
    and at: "redirects_at mem base rs" and len: "length rs < 2 ^ 63"
    and i: "i < length rs" and inv: "aarch64_inv path argv envp base (length rs) i r"
    and rest: "\<And>r' f' k'. aarch64_inv path argv envp base (length rs) (Suc i) r' \<Longrightarrow>
      reaches stp b (Running (if Suc i < length rs then 4 else 19) r' f' k') (Gone (spec (drop (Suc i) rs) k'))"
  shows "reaches stp (15 + b) (Running 4 r f k) (Gone (spec (drop i rs) k))"
proof -
  obtain oldfd newfd where pair: "rs ! i = (oldfd, newfd)" by force
  then have drop: "drop i rs = (oldfd, newfd) # drop (Suc i) rs" using i by (metis Cons_nth_drop_Suc)
  obtain v k' where call: "dup3_call K oldfd newfd k = (v, k')" by force
  consider (same) "oldfd = newfd" | (gone) "oldfd \<noteq> newfd" "v = None"
    | (failed) w where "oldfd \<noteq> newfd" "v = Some w" "sint w < 0" | (ok) w where "oldfd \<noteq> newfd" "v = Some w" "0 \<le> sint w"
    by (cases v) force+
  then show ?thesis
  proof cases
    case same
    from aarch64_body_skip [OF at i len pair [unfolded same] inv, where K = K and f = f and k = k]
    obtain r' f' where "run stp 10 (Running 4 r f k) = Running (if Suc i < length rs then 4 else 19) r' f' k"
      and "aarch64_inv path argv envp base (length rs) (Suc i) r'" unfolding stp_def by blast
    from reaches_trans [OF reachesI [OF this(1), of 15] rest [OF this(2)]]
    show ?thesis using same unfolding drop by (simp add: spec_def child_spec_def)
  next
    case gone
    with aarch64_body_gone [OF K at i pair gone(1) inv] call
    have "run stp 9 (Running 4 r f k) = Gone (spec (drop i rs) k)"
      unfolding drop by (simp add: stp_def spec_def child_spec_def)
    then show ?thesis by (rule reachesI) simp
  next
    case failed
    with aarch64_body_failed [OF K at i pair failed(1) inv] call
    have "run stp 15 (Running 4 r f k) = Gone (spec (drop i rs) k)"
      unfolding drop by (simp add: stp_def spec_def child_spec_def)
    then show ?thesis by (rule reachesI) simp
  next
    case ok
    with aarch64_body_dup [OF K at i len pair ok(1) inv] call
    obtain r' f' where "run stp 15 (Running 4 r f k) = Running (if Suc i < length rs then 4 else 19) r' f' k'"
      and "aarch64_inv path argv envp base (length rs) (Suc i) r'" unfolding stp_def by blast
    from reaches_after [OF this(1) rest [OF this(2)]]
    show ?thesis using ok call unfolding drop by (simp add: spec_def child_spec_def)
  qed
qed

lemma aarch64_loop:
  assumes "vfork_contract K Aarch64 ''DUP3'' 3"
    and "redirects_at mem base rs" and "length rs < 2 ^ 63"
    and "i < length rs" and "aarch64_inv path argv envp base (length rs) i r"
  shows "reaches (astep K mem aarch64_vfork_execve_redirected) (15 * (length rs - i) + 9) (Running 4 r f k)
    (Gone (child_spec (dup3_call K) (execve_call K Aarch64 path argv envp) (exit_call K Aarch64)
       (drop i rs) k))"
  using assms(4,5)
proof (induction "length rs - i" arbitrary: i r f k)
  case 0
  then show ?case by simp
next
  case (Suc d)
  let ?stp = "astep K mem aarch64_vfork_execve_redirected"
  let ?spec = "child_spec (dup3_call K) (execve_call K Aarch64 path argv envp) (exit_call K Aarch64)"
  have rest: "reaches ?stp (15 * (length rs - Suc i) + 9)
      (Running (if Suc i < length rs then 4 else 19) r' f' k') (Gone (?spec (drop (Suc i) rs) k'))"
    if inv: "aarch64_inv path argv envp base (length rs) (Suc i) r'" for r' f' k'
  proof (cases "Suc i < length rs")
    case True
    with Suc.hyps(1) [of "Suc i" r' f' k'] Suc.hyps(2) inv show ?thesis by simp
  next
    case False
    then have nil: "drop (Suc i) rs = []" by simp
    have "run ?stp 9 (Running 19 r' f' k') = Gone (?spec [] k')"
      using aarch64_tail [OF assms(1)] inv by (simp add: child_spec_def aarch64_inv_def)
    with False show ?thesis unfolding nil by (intro reachesI [of _ 9]) simp_all
  qed
  have "15 * (length rs - i) + 9 = 15 + (15 * (length rs - Suc i) + 9)"
    using Suc.prems by simp
  then show ?case using aarch64_round [OF assms(1-3) Suc.prems rest] by (simp only:)
qed

text \<open>
  The clone of the trampolines, called with \<open>flgs\<close> and four zeroes, returns \<open>v\<close>: 0 in the child, the
  child's pid or an error in the parent.
\<close>

definition clone_returns :: "'k vkernel \<Rightarrow> arch \<Rightarrow> usize \<Rightarrow> usize \<Rightarrow> 'k \<Rightarrow> 'k \<Rightarrow> bool" where
  "clone_returns K a flgs v k k' \<longleftrightarrow> (\<forall>z. K (nr a ''CLONE'') [flgs, 0, 0, 0, 0, z] k = (Some v, k'))"

lemma of_nat_length_0: "length rs < 2 ^ 63 \<Longrightarrow> (of_nat (length rs) :: usize) = 0 \<longleftrightarrow> rs = []"
  by (auto simp: word_unat_eq_iff unat_of_nat)

lemma aarch64_entry_loop:
  assumes "clone_returns K Aarch64 flgs 0 k k1" and "length rs < 2 ^ 63" and "rs \<noteq> []"
  shows "\<exists>r'. run (astep K mem aarch64_vfork_execve_redirected) 4
      (Running 0 (aarch64_entry r flgs path argv envp base (of_nat (length rs))) f k) = Running 4 r' f k1
    \<and> aarch64_inv path argv envp base (length rs) 0 r'"
  using assms of_nat_length_0 [OF assms(2)]
  by (simp add: clone_returns_def run_numeral astep_def aarch64_inv_def two_fold
      aarch64_vfork_execve_redirected_code aarch64_entry_def)

lemma aarch64_entry_none:
  assumes "clone_returns K Aarch64 flgs 0 k k1"
  shows "\<exists>r'. run (astep K mem aarch64_vfork_execve_redirected) 3
      (Running 0 (aarch64_entry r flgs path argv envp base 0) f k) = Running 19 r' f k1
    \<and> r' (X 9) = path \<and> r' (X 10) = argv \<and> r' (X 11) = envp"
  using assms
  by (simp add: clone_returns_def run_numeral astep_def two_fold
      aarch64_vfork_execve_redirected_code aarch64_entry_def)

lemma aarch64_child:
  assumes "vfork_contract K Aarch64 ''DUP3'' 3" and "clone_returns K Aarch64 flgs 0 k k1"
    and "redirects_at mem base rs" and "length rs < 2 ^ 63"
  shows "reaches (astep K mem aarch64_vfork_execve_redirected) (4 + (15 * length rs + 9))
      (Running 0 (aarch64_entry r flgs path argv envp base (of_nat (length rs))) f k)
      (Gone (child_spec (dup3_call K) (execve_call K Aarch64 path argv envp) (exit_call K Aarch64) rs k1))"
proof -
  let ?stp = "astep K mem aarch64_vfork_execve_redirected"
  let ?start = "Running 0 (aarch64_entry r flgs path argv envp base (of_nat (length rs))) f k"
  let ?final = "Gone (child_spec (dup3_call K) (execve_call K Aarch64 path argv envp) (exit_call K Aarch64) rs k1)"
  show ?thesis
  proof (cases "rs = []")
    case True
    then have zero: "(of_nat (length rs) :: usize) = 0" by simp
    obtain r' where start: "run ?stp 3 ?start = Running 19 r' f k1"
        and regs: "r' (X 9) = path" "r' (X 10) = argv" "r' (X 11) = envp"
      using aarch64_entry_none [OF assms(2)] unfolding zero by blast
    have "run ?stp (3 + 9) ?start = ?final"
      unfolding run_add start aarch64_tail [OF assms(1)] regs using True by (simp add: child_spec_def)
    then show ?thesis by (rule reachesI) simp
  next
    case False
    from aarch64_entry_loop [OF assms(2,4) False] obtain r'
      where start: "run ?stp 4 ?start = Running 4 r' f k1"
        and inv: "aarch64_inv path argv envp base (length rs) 0 r'"
      by blast
    have "reaches ?stp (15 * length rs + 9) (Running 4 r' f k1) ?final"
      using aarch64_loop [OF assms(1,3,4) _ inv, of f k1] False by simp
    with start show ?thesis by (rule reaches_after)
  qed
qed

text \<open>
  C1: on aarch64 the child of \<open>vfork_execve_redirected\<close> does exactly what is specified: it applies
  the redirections in order, skipping those onto themselves, leaves with status 126 at the first
  that fails, otherwise executes the program, and leaves with status 127 if that fails. It always
  gets there, within 15 instructions a redirection and 20 more.
\<close>
theorem aarch64_vfork_redirects:
  assumes "vfork_contract K Aarch64 ''DUP3'' 3" and "clone_returns K Aarch64 flgs 0 k k1"
    and "redirects_at mem base rs" and "length rs < 2 ^ 63" and "15 * length rs + 20 \<le> fuel"
  shows "run (astep K mem aarch64_vfork_execve_redirected) fuel
      (Running 0 (aarch64_entry r flgs path argv envp base (of_nat (length rs))) f k)
    = Gone (child_spec (dup3_call K) (execve_call K Aarch64 path argv envp) (exit_call K Aarch64) rs k1)"
  by (rule reaches_fixed [OF aarch64_child [OF assms(1-4)]]) (use assms(5) in simp_all)

section \<open>The x86_64 trampolines\<close>

definition dup2_call :: "'k vkernel \<Rightarrow> i32 \<Rightarrow> i32 \<Rightarrow> 'k \<Rightarrow> usize option \<times> 'k" where
  "dup2_call K oldfd newfd k = K (nr X86_64 ''DUP2'') [scast oldfd, scast newfd] k"

lemma dup2_callD:
  assumes "vfork_contract K X86_64 ''DUP2'' 2"
  shows "K (nr X86_64 ''DUP2'') [scast oldfd, scast newfd, r, s, t, u] k = dup2_call K oldfd newfd k"
proof -
  from assms have "reads_args K (nr X86_64 ''DUP2'') 2" by (simp add: vfork_contract_def)
  then show ?thesis unfolding dup2_call_def by (rule reads_argsD) simp
qed

lemma x86_64_tail:
  assumes "vfork_contract K X86_64 dn m"
  shows "run (xstep K mem rip rfl x86_64_vfork_execve_redirected) 9 (Running 19 r f k)
    = Gone (case execve_call K X86_64 (r R12) (r R13) (r R14) k of
        (None, k') \<Rightarrow> k' | (Some _, k') \<Rightarrow> snd (exit_call K X86_64 127 k'))"
proof -
  obtain v k' where e: "execve_call K X86_64 (r R12) (r R13) (r R14) k = (v, k')" by force
  obtain k2 where x: "exit_call K X86_64 127 k' = (None, k2)" by (rule exit_call_gone [OF assms])
  show ?thesis
    using e x
    by (cases v) (simp_all add: run_numeral xstep_def x86_64_vfork_execve_redirected_code
        execve_callI [OF assms] exit_callI [OF assms])
qed

definition x86_64_inv ::
  "usize \<Rightarrow> usize \<Rightarrow> usize \<Rightarrow> usize \<Rightarrow> nat \<Rightarrow> nat \<Rightarrow> (xreg \<Rightarrow> usize) \<Rightarrow> bool" where
  "x86_64_inv path argv envp base len i r \<longleftrightarrow>
     r R12 = path \<and> r R13 = argv \<and> r R14 = envp \<and> r R15 = base
     \<and> r R9 = of_nat len \<and> r RCX = of_nat i"

lemma less_of_nat_usize:
  "i < 2 ^ 63 \<Longrightarrow> j < 2 ^ 63 \<Longrightarrow> (of_nat i :: usize) < of_nat j \<longleftrightarrow> i < j"
  by (simp add: word_less_nat_alt unat_of_nat)

lemma x86_64_body_skip:
  assumes "redirects_at mem base rs" and "i < length rs" and "length rs < 2 ^ 63"
    and "rs ! i = (fd, fd)" and "x86_64_inv path argv envp base (length rs) i r"
  shows "\<exists>r' f'. run (xstep K mem rip rfl x86_64_vfork_execve_redirected) 9 (Running 6 r f k)
      = Running (if Suc i < length rs then 6 else 19) r' f' k
    \<and> x86_64_inv path argv envp base (length rs) (Suc i) r'"
proof -
  have m: "mem (base + 8 * of_nat i) = fd" "mem (base + 8 * of_nat i + 4) = fd"
    using assms(1,2,4) by (auto simp: redirects_at_def)
  have c: "(1 + of_nat i :: usize) < of_nat (length rs) \<longleftrightarrow> Suc i < length rs"
    using less_of_nat_usize [of "Suc i" "length rs"] assms(2,3) by simp
  show ?thesis
    using assms(5) m c
    by (simp add: run_numeral xstep_def x86_64_vfork_execve_redirected_code cmp_flags_def
        x86_64_inv_def add.commute)
qed

text \<open>
  After a duplicating call \<open>rcx\<close> is no longer the loop counter but the return address, so the loop
  test compares an address with the number of redirections, and control goes on to \<open>execve\<close>.
\<close>

lemma x86_64_body_dup:
  assumes "vfork_contract K X86_64 ''DUP2'' 2"
    and "redirects_at mem base rs" and "i < length rs"
    and "\<not> rip 13 + 1 < of_nat (length rs)"
    and "rs ! i = (oldfd, newfd)" and "oldfd \<noteq> newfd"
    and "x86_64_inv path argv envp base (length rs) i r"
    and "dup2_call K oldfd newfd k = (Some v, k')" and "0 \<le> sint v"
  shows "\<exists>r' f'. run (xstep K mem rip rfl x86_64_vfork_execve_redirected) 13 (Running 6 r f k)
      = Running 19 r' f' k' \<and> r' R12 = path \<and> r' R13 = argv \<and> r' R14 = envp"
proof -
  have m: "mem (base + 8 * of_nat i) = oldfd" "mem (base + 8 * of_nat i + 4) = newfd"
    using assms(2,3,5) by (auto simp: redirects_at_def)
  show ?thesis
    using assms(4,6-9) m
    by (simp add: run_numeral xstep_def x86_64_vfork_execve_redirected_code cmp_flags_def test_flags_def
        x86_64_inv_def add.commute dup2_callD [OF assms(1)])
qed

lemma x86_64_body_failed:
  assumes "vfork_contract K X86_64 ''DUP2'' 2"
    and "redirects_at mem base rs" and "i < length rs"
    and "rs ! i = (oldfd, newfd)" and "oldfd \<noteq> newfd"
    and "x86_64_inv path argv envp base (length rs) i r"
    and "dup2_call K oldfd newfd k = (Some v, k')" and "sint v < 0"
  shows "run (xstep K mem rip rfl x86_64_vfork_execve_redirected) 13 (Running 6 r f k)
    = Gone (snd (exit_call K X86_64 126 k'))"
proof -
  have m: "mem (base + 8 * of_nat i) = oldfd" "mem (base + 8 * of_nat i + 4) = newfd"
    using assms(2,3,4) by (auto simp: redirects_at_def)
  obtain k2 where "exit_call K X86_64 126 k' = (None, k2)" by (rule exit_call_gone [OF assms(1)])
  then show ?thesis
    using assms(5-8) m
    by (simp add: run_numeral xstep_def x86_64_vfork_execve_redirected_code cmp_flags_def test_flags_def
        x86_64_inv_def add.commute dup2_callD [OF assms(1)] exit_callI [OF assms(1)])
qed

lemma x86_64_body_gone:
  assumes "vfork_contract K X86_64 ''DUP2'' 2"
    and "redirects_at mem base rs" and "i < length rs"
    and "rs ! i = (oldfd, newfd)" and "oldfd \<noteq> newfd"
    and "x86_64_inv path argv envp base (length rs) i r"
    and "dup2_call K oldfd newfd k = (None, k')"
  shows "run (xstep K mem rip rfl x86_64_vfork_execve_redirected) 7 (Running 6 r f k) = Gone k'"
proof -
  have m: "mem (base + 8 * of_nat i) = oldfd" "mem (base + 8 * of_nat i + 4) = newfd"
    using assms(2,3,4) by (auto simp: redirects_at_def)
  show ?thesis
    using assms(5-7) m
    by (simp add: run_numeral xstep_def x86_64_vfork_execve_redirected_code cmp_flags_def
        x86_64_inv_def add.commute dup2_callD [OF assms(1)])
qed

text \<open>The redirections the x86_64 loop gets to: the first that is not onto itself.\<close>

definition first_effective :: "(i32 \<times> i32) list \<Rightarrow> (i32 \<times> i32) list" where
  "first_effective rs = take 1 (dropWhile (\<lambda>(oldfd, newfd). oldfd = newfd) rs)"

text \<open>A round that makes its \<open>dup2\<close> is the last one.\<close>

lemma x86_64_last_round:
  fixes K mem rip rfl path argv envp
  defines "stp \<equiv> xstep K mem rip rfl x86_64_vfork_execve_redirected"
    and "spec \<equiv> child_spec (dup2_call K) (execve_call K X86_64 path argv envp) (exit_call K X86_64)"
  assumes K: "vfork_contract K X86_64 ''DUP2'' 2"
    and at: "redirects_at mem base rs" and rip: "\<not> rip 13 + 1 < of_nat (length rs)"
    and i: "i < length rs" and inv: "x86_64_inv path argv envp base (length rs) i r"
    and pair: "rs ! i = (oldfd, newfd)" and ne: "oldfd \<noteq> newfd"
  shows "reaches stp 22 (Running 6 r f k) (Gone (spec [(oldfd, newfd)] k))"
proof -
  obtain v k' where call: "dup2_call K oldfd newfd k = (v, k')" by force
  consider (gone) "v = None" | (failed) w where "v = Some w" "sint w < 0" | (ok) w where "v = Some w" "0 \<le> sint w"
    by (cases v) force+
  then show ?thesis
  proof cases
    case gone
    with x86_64_body_gone [OF K at i pair ne inv] call ne
    have "run stp 7 (Running 6 r f k) = Gone (spec [(oldfd, newfd)] k)"
      by (simp add: stp_def spec_def child_spec_def)
    then show ?thesis by (rule reachesI) simp
  next
    case failed
    with x86_64_body_failed [OF K at i pair ne inv] call ne
    have "run stp 13 (Running 6 r f k) = Gone (spec [(oldfd, newfd)] k)"
      by (simp add: stp_def spec_def child_spec_def)
    then show ?thesis by (rule reachesI) simp
  next
    case ok
    with x86_64_body_dup [where rip = rip, OF K at i rip pair ne inv] call
    obtain r' f' where dup: "run stp 13 (Running 6 r f k) = Running 19 r' f' k'"
      and regs: "r' R12 = path" "r' R13 = argv" "r' R14 = envp" unfolding stp_def by blast
    have "run stp 9 (Running 19 r' f' k') = Gone (spec [(oldfd, newfd)] k)"
      unfolding stp_def x86_64_tail [OF K] regs using ok call ne by (simp add: spec_def child_spec_def)
    then have "run stp (13 + 9) (Running 6 r f k) = Gone (spec [(oldfd, newfd)] k)"
      by (simp only: run_add dup)
    then show ?thesis by (rule reachesI) simp
  qed
qed

lemma x86_64_loop:
  assumes "vfork_contract K X86_64 ''DUP2'' 2"
    and "redirects_at mem base rs" and "length rs < 2 ^ 63" and "\<not> rip 13 + 1 < of_nat (length rs)"
    and "i < length rs" and "x86_64_inv path argv envp base (length rs) i r"
  shows "reaches (xstep K mem rip rfl x86_64_vfork_execve_redirected) (9 * (length rs - i) + 22) (Running 6 r f k)
    (Gone (child_spec (dup2_call K) (execve_call K X86_64 path argv envp) (exit_call K X86_64)
       (first_effective (drop i rs)) k))"
  using assms(5,6)
proof (induction "length rs - i" arbitrary: i r f k)
  case 0
  then show ?case by simp
next
  case (Suc d)
  let ?stp = "xstep K mem rip rfl x86_64_vfork_execve_redirected"
  let ?spec = "child_spec (dup2_call K) (execve_call K X86_64 path argv envp) (exit_call K X86_64)"
  obtain oldfd newfd where pair: "rs ! i = (oldfd, newfd)" by force
  then have drop: "drop i rs = (oldfd, newfd) # drop (Suc i) rs"
    using Suc.prems(1) by (metis Cons_nth_drop_Suc)
  show ?case
  proof (cases "oldfd = newfd")
    case True
    obtain r' f' where skip: "run ?stp 9 (Running 6 r f k) = Running (if Suc i < length rs then 6 else 19) r' f' k"
      and inv: "x86_64_inv path argv envp base (length rs) (Suc i) r'"
      using x86_64_body_skip [OF assms(2) Suc.prems(1) assms(3) pair [unfolded True] Suc.prems(2),
          where K = K and f = f and k = k and rip = rip and rfl = rfl] by blast
    have "reaches ?stp (9 * (length rs - Suc i) + 22) (Running (if Suc i < length rs then 6 else 19) r' f' k)
        (Gone (?spec (first_effective (drop (Suc i) rs)) k))"
    proof (cases "Suc i < length rs")
      case True
      with Suc.hyps(1) [of "Suc i" r' f' k] Suc.hyps(2) inv show ?thesis by simp
    next
      case False
      with x86_64_tail [OF assms(1)] inv show ?thesis
        by (intro reachesI [of _ 9]) (simp_all add: x86_64_inv_def child_spec_def first_effective_def)
    qed
    moreover have "9 * (length rs - i) + 22 = 9 + (9 * (length rs - Suc i) + 22)"
      using Suc.prems(1) by simp
    moreover have "first_effective (drop i rs) = first_effective (drop (Suc i) rs)"
      using True unfolding drop by (simp add: first_effective_def)
    ultimately show ?thesis using reaches_after [OF skip] by (simp only:)
  next
    case False
    then have first: "first_effective (drop i rs) = [(oldfd, newfd)]" unfolding drop by (simp add: first_effective_def)
    show ?thesis unfolding first
      by (rule reaches_mono [OF x86_64_last_round [where rip = rip, OF assms(1,2,4) Suc.prems pair False]]) simp
  qed
qed

lemma x86_64_entry_loop:
  assumes "clone_returns K X86_64 flgs 0 k k1" and "length rs < 2 ^ 63" and "rs \<noteq> []"
  shows "\<exists>r' f'. run (xstep K mem rip rfl x86_64_vfork_execve_redirected) 6
      (Running 0 (x86_64_entry r flgs path argv envp base (of_nat (length rs))) f k) = Running 6 r' f' k1
    \<and> x86_64_inv path argv envp base (length rs) 0 r'"
  using assms of_nat_length_0 [OF assms(2)]
  by (simp add: clone_returns_def run_numeral xstep_def x86_64_inv_def two_fold test_flags_def
      x86_64_vfork_execve_redirected_code x86_64_entry_def)

lemma x86_64_entry_none:
  assumes "clone_returns K X86_64 flgs 0 k k1"
  shows "\<exists>r' f'. run (xstep K mem rip rfl x86_64_vfork_execve_redirected) 5
      (Running 0 (x86_64_entry r flgs path argv envp base 0) f k) = Running 19 r' f' k1
    \<and> r' R12 = path \<and> r' R13 = argv \<and> r' R14 = envp"
  using assms
  by (simp add: clone_returns_def run_numeral xstep_def two_fold test_flags_def
      x86_64_vfork_execve_redirected_code x86_64_entry_def)

lemma x86_64_child:
  assumes "vfork_contract K X86_64 ''DUP2'' 2" and "clone_returns K X86_64 flgs 0 k k1"
    and "redirects_at mem base rs" and "length rs < 2 ^ 63" and "\<not> rip 13 + 1 < of_nat (length rs)"
  shows "reaches (xstep K mem rip rfl x86_64_vfork_execve_redirected) (6 + (9 * length rs + 22))
      (Running 0 (x86_64_entry r flgs path argv envp base (of_nat (length rs))) f k)
      (Gone (child_spec (dup2_call K) (execve_call K X86_64 path argv envp) (exit_call K X86_64)
        (first_effective rs) k1))"
proof (cases "rs = []")
  case True
  let ?stp = "xstep K mem rip rfl x86_64_vfork_execve_redirected"
  let ?start = "Running 0 (x86_64_entry r flgs path argv envp base (of_nat (length rs))) f k"
  let ?final = "Gone (child_spec (dup2_call K) (execve_call K X86_64 path argv envp) (exit_call K X86_64)
      (first_effective rs) k1)"
  from True have zero: "(of_nat (length rs) :: usize) = 0" by simp
  obtain r' f' where start: "run ?stp 5 ?start = Running 19 r' f' k1"
      and regs: "r' R12 = path" "r' R13 = argv" "r' R14 = envp"
    using x86_64_entry_none [OF assms(2)] unfolding zero by blast
  have "run ?stp (5 + 9) ?start = ?final"
    unfolding run_add start x86_64_tail [OF assms(1)] regs
    using True by (simp add: child_spec_def first_effective_def)
  then show ?thesis by (rule reachesI) simp
next
  case False
  let ?stp = "xstep K mem rip rfl x86_64_vfork_execve_redirected"
  let ?start = "Running 0 (x86_64_entry r flgs path argv envp base (of_nat (length rs))) f k"
  let ?final = "Gone (child_spec (dup2_call K) (execve_call K X86_64 path argv envp) (exit_call K X86_64)
      (first_effective rs) k1)"
  from x86_64_entry_loop [OF assms(2,4) False] obtain r' f'
    where start: "run ?stp 6 ?start = Running 6 r' f' k1"
      and inv: "x86_64_inv path argv envp base (length rs) 0 r'"
    by blast
  have "reaches ?stp (9 * length rs + 22) (Running 6 r' f' k1) ?final"
    using x86_64_loop [where rip = rip, OF assms(1,3-5) _ inv, of rfl f' k1] False by simp
  with start show ?thesis by (rule reaches_after)
qed

lemma apply_first_effective:
  "length (filter (\<lambda>(oldfd, newfd). oldfd \<noteq> newfd) rs) \<le> 1 \<Longrightarrow>
   apply_redirects D (first_effective rs) k = apply_redirects D rs k"
proof (induction rs arbitrary: k)
  case (Cons p rs)
  obtain oldfd newfd where p: "p = (oldfd, newfd)" by force
  show ?case
  proof (cases "oldfd = newfd")
    case True
    with Cons show ?thesis by (simp add: p first_effective_def)
  next
    case False
    with Cons.prems have "filter (\<lambda>(oldfd, newfd). oldfd \<noteq> newfd) rs = []" by (simp add: p)
    then have "apply_redirects D rs k' = (Some True, k')" for k'
      by (induction rs) (auto split: if_splits prod.splits)
    then show ?thesis using False by (simp add: p first_effective_def split: prod.splits option.splits)
  qed
qed (simp add: first_effective_def)

text \<open>
  C2: on x86_64 the child of \<open>vfork_execve_redirected\<close> applies the first redirection that is not onto
  itself and no other: \<open>syscall\<close> leaves the return address in \<open>rcx\<close>, which the program uses as its
  loop counter, so the loop ends after the first duplication whatever follows in the list (as long
  as the address of the code exceeds the number of redirections). Otherwise the child behaves as
  specified, and always gets there; with at most one redirection that is not onto itself it does
  exactly what is specified.
\<close>
theorem x86_64_vfork_redirects:
  assumes "vfork_contract K X86_64 ''DUP2'' 2" and "clone_returns K X86_64 flgs 0 k k1"
    and "redirects_at mem base rs" and "length rs < 2 ^ 63" and "\<not> rip 13 + 1 < of_nat (length rs)"
    and "9 * length rs + 28 \<le> fuel"
  shows "run (xstep K mem rip rfl x86_64_vfork_execve_redirected) fuel
      (Running 0 (x86_64_entry r flgs path argv envp base (of_nat (length rs))) f k)
    = Gone (child_spec (dup2_call K) (execve_call K X86_64 path argv envp) (exit_call K X86_64)
        (first_effective rs) k1)
   \<and> (length (filter (\<lambda>(oldfd, newfd). oldfd \<noteq> newfd) rs) \<le> 1 \<longrightarrow>
      child_spec (dup2_call K) (execve_call K X86_64 path argv envp) (exit_call K X86_64) (first_effective rs) k1
      = child_spec (dup2_call K) (execve_call K X86_64 path argv envp) (exit_call K X86_64) rs k1)"
  using reaches_fixed [OF x86_64_child [where rip = rip, OF assms(1-5)], where fuel = fuel] assms(6)
  by (simp add: child_spec_def apply_first_effective)

section \<open>The plain trampolines and the parent\<close>

definition gone_after_exec :: "'k vkernel \<Rightarrow> arch \<Rightarrow> usize \<Rightarrow> usize \<Rightarrow> usize \<Rightarrow> 'k \<Rightarrow> 'k" where
  "gone_after_exec K a path argv envp k = (case execve_call K a path argv envp k of
       (None, k') \<Rightarrow> k' | (Some _, k') \<Rightarrow> snd (exit_call K a 127 k'))"

lemma x86_64_plain_child:
  assumes "vfork_contract K X86_64 dn m" and "clone_returns K X86_64 flgs 0 k k1"
  shows "run (xstep K mem rip rfl x86_64_vfork_execve) 11
      (Running 0 (x86_64_entry r flgs path argv envp q l) f k) = Gone (gone_after_exec K X86_64 path argv envp k1)"
proof -
  obtain v k' where e: "execve_call K X86_64 path argv envp k1 = (v, k')" by force
  obtain k2 where x: "exit_call K X86_64 127 k' = (None, k2)" by (rule exit_call_gone [OF assms(1)])
  show ?thesis
    using e x assms(2)
    by (cases v) (simp_all add: run_numeral xstep_def x86_64_vfork_execve_code two_fold x86_64_entry_def
        clone_returns_def test_flags_def gone_after_exec_def execve_callI [OF assms(1)] exit_callI [OF assms(1)])
qed

lemma aarch64_plain_child:
  assumes "vfork_contract K Aarch64 dn m" and "clone_returns K Aarch64 flgs 0 k k1"
  shows "run (astep K mem aarch64_vfork_execve) 10
      (Running 0 (aarch64_entry r flgs path argv envp q l) f k) = Gone (gone_after_exec K Aarch64 path argv envp k1)"
proof -
  obtain v k' where e: "execve_call K Aarch64 path argv envp k1 = (v, k')" by force
  obtain k2 where x: "exit_call K Aarch64 127 k' = (None, k2)" by (rule exit_call_gone [OF assms(1)])
  show ?thesis
    using e x assms(2)
    by (cases v) (simp_all add: run_numeral astep_def aarch64_vfork_execve_code two_fold aarch64_entry_def
        clone_returns_def gone_after_exec_def execve_callI [OF assms(1)] exit_callI [OF assms(1)])
qed

text \<open>
  C35: the child of \<open>vfork_execve\<close>, on both architectures, executes the program with the path and the
  vectors it was given and leaves with status 127 if that fails; no other call is made, and it
  never runs on past the trampoline.
\<close>
theorem vfork_execve_child:
  assumes "vfork_contract K X86_64 dn m" and "clone_returns K X86_64 flgs 0 k k1"
    and "vfork_contract L Aarch64 dn' m'" and "clone_returns L Aarch64 flgs 0 k k1" and "11 \<le> fuel"
  shows "run (xstep K mem rip rfl x86_64_vfork_execve) fuel
      (Running 0 (x86_64_entry r flgs path argv envp q l) f k) = Gone (gone_after_exec K X86_64 path argv envp k1)
   \<and> run (astep L mem aarch64_vfork_execve) fuel
      (Running 0 (aarch64_entry r' flgs path argv envp q l) f k) = Gone (gone_after_exec L Aarch64 path argv envp k1)"
proof -
  note x = reachesI [OF x86_64_plain_child [OF assms(1,2)] le_refl]
    and a = reachesI [OF aarch64_plain_child [OF assms(3,4)] le_refl]
  show ?thesis
    using reaches_fixed [OF x] reaches_fixed [OF a] assms(5) by simp
qed

lemma trampolines_run:
  assumes "clone_returns K X86_64 flgs v k k1" and "clone_returns L Aarch64 flgs v k k1" and "v \<noteq> 0"
  shows "run (xstep K mem rip rfl x86_64_vfork_execve) 5 (Running 0 (x86_64_entry r flgs path argv envp q l) f k)
      = Done ((x86_64_entry r flgs path argv envp q l)(RAX := v, RCX := rip 1, R11 := rfl)) k1"
    and "run (xstep K mem rip rfl x86_64_vfork_execve_redirected) 5 (Running 0 (x86_64_entry r flgs path argv envp q l) f k)
      = Done ((x86_64_entry r flgs path argv envp q l)(RAX := v, RCX := rip 1, R11 := rfl)) k1"
    and "run (astep L mem aarch64_vfork_execve) 5 (Running 0 (aarch64_entry r' flgs path argv envp q l) f k)
      = Done ((aarch64_entry r' flgs path argv envp q l)(X 0 := v)) k1"
    and "run (astep L mem aarch64_vfork_execve_redirected) 5 (Running 0 (aarch64_entry r' flgs path argv envp q l) f k)
      = Done ((aarch64_entry r' flgs path argv envp q l)(X 0 := v)) k1"
  using assms
  by (simp_all add: run_numeral xstep_def astep_def two_fold clone_returns_def test_flags_def
      x86_64_vfork_execve_code x86_64_vfork_execve_redirected_code x86_64_entry_def
      aarch64_vfork_execve_code aarch64_vfork_execve_redirected_code aarch64_entry_def)

lemma trampolines_parent:
  assumes "clone_returns K X86_64 flgs v k k1" and "clone_returns L Aarch64 flgs v k k1" and "v \<noteq> 0"
  shows "(\<exists>r1. run (xstep K mem rip rfl x86_64_vfork_execve) 5
        (Running 0 (x86_64_entry r flgs path argv envp q l) f k) = Done r1 k1 \<and> r1 RAX = v)
   \<and> (\<exists>r2. run (xstep K mem rip rfl x86_64_vfork_execve_redirected) 5
        (Running 0 (x86_64_entry r flgs path argv envp q l) f k) = Done r2 k1 \<and> r2 RAX = v)
   \<and> (\<exists>r3. run (astep L mem aarch64_vfork_execve) 5
        (Running 0 (aarch64_entry r' flgs path argv envp q l) f k) = Done r3 k1 \<and> r3 (X 0) = v)
   \<and> (\<exists>r4. run (astep L mem aarch64_vfork_execve_redirected) 5
        (Running 0 (aarch64_entry r' flgs path argv envp q l) f k) = Done r4 k1 \<and> r4 (X 0) = v)"
  by (simp add: trampolines_run [OF assms])

text \<open>
  C32: in the parent every trampoline ends after \<open>clone\<close> with its result, the child's pid or the error, in
  the result register, having made no other call, and every register the assembly does not declare as
  an output keeps its value: on x86_64 only \<open>rax\<close>, \<open>rcx\<close> and \<open>r11\<close> change, on aarch64 only \<open>x0\<close>.
\<close>
theorem vfork_parent_registers:
  assumes "clone_returns K X86_64 flgs v k k1" and "clone_returns L Aarch64 flgs v k k1" and "v \<noteq> 0" and "5 \<le> fuel"
    and "P \<in> {x86_64_vfork_execve, x86_64_vfork_execve_redirected}"
    and "Q \<in> {aarch64_vfork_execve, aarch64_vfork_execve_redirected}"
  shows "run (xstep K mem rip rfl P) fuel (Running 0 (x86_64_entry r flgs path argv envp q l) f k)
      = Done ((x86_64_entry r flgs path argv envp q l)(RAX := v, RCX := rip 1, R11 := rfl)) k1
   \<and> run (astep L mem Q) fuel (Running 0 (aarch64_entry r' flgs path argv envp q l) f k)
      = Done ((aarch64_entry r' flgs path argv envp q l)(X 0 := v)) k1"
proof
  note runs = trampolines_run [OF assms(1-3), THEN reachesI, OF le_refl]
  show "run (xstep K mem rip rfl P) fuel (Running 0 (x86_64_entry r flgs path argv envp q l) f k)
      = Done ((x86_64_entry r flgs path argv envp q l)(RAX := v, RCX := rip 1, R11 := rfl)) k1"
    using assms(5) reaches_fixed [OF runs(1) xstep_final(2) assms(4)] reaches_fixed [OF runs(2) xstep_final(2) assms(4)]
    by blast
  show "run (astep L mem Q) fuel (Running 0 (aarch64_entry r' flgs path argv envp q l) f k)
      = Done ((aarch64_entry r' flgs path argv envp q l)(X 0 := v)) k1"
    using assms(6) reaches_fixed [OF runs(3) astep_final(2) assms(4)] reaches_fixed [OF runs(4) astep_final(2) assms(4)]
    by blast
qed

section \<open>A concrete child\<close>

text \<open>
  A kernel that logs the calls of the child: \<open>clone\<close> returns \<open>c\<close>, a duplication succeeds, \<open>execve\<close>
  replaces the image.
\<close>

definition log_kernel :: "arch \<Rightarrow> usize \<Rightarrow> (usize \<times> usize list) list vkernel" where
  "log_kernel a c n args k =
     (if n = nr a ''CLONE'' then (Some c, k)
      else if n = nr a ''EXIT_GROUP'' then (None, k @ [(n, take 1 args)])
      else if n = nr a ''EXECVE'' then (None, k @ [(n, take 3 args)])
      else (Some 0, k @ [(n, take (case a of X86_64 \<Rightarrow> 2 | Aarch64 \<Rightarrow> 3) args)]))"

lemma vfork_nrs:
  "nr X86_64 ''CLONE'' = 56" "nr X86_64 ''EXIT_GROUP'' = 231" "nr X86_64 ''EXECVE'' = 59" "nr X86_64 ''DUP2'' = 33"
  "nr Aarch64 ''CLONE'' = 220" "nr Aarch64 ''EXIT_GROUP'' = 94" "nr Aarch64 ''EXECVE'' = 221" "nr Aarch64 ''DUP3'' = 24"
proof -
  show "nr X86_64 ''CLONE'' = 56" using nr_x86_64_at [of 27] by (simp add: nr_x86_64_def)
  show "nr X86_64 ''EXIT_GROUP'' = 231" using nr_x86_64_at [of 69] by (simp add: nr_x86_64_def)
  show "nr X86_64 ''EXECVE'' = 59" using nr_x86_64_at [of 28] by (simp add: nr_x86_64_def)
  show "nr X86_64 ''DUP2'' = 33" using nr_x86_64_at [of 25] by (simp add: nr_x86_64_def)
  show "nr Aarch64 ''CLONE'' = 220" using nr_aarch64_at [of 66] by (simp add: nr_aarch64_def)
  show "nr Aarch64 ''EXIT_GROUP'' = 94" using nr_aarch64_at [of 23] by (simp add: nr_aarch64_def)
  show "nr Aarch64 ''EXECVE'' = 221" using nr_aarch64_at [of 67] by (simp add: nr_aarch64_def)
  show "nr Aarch64 ''DUP3'' = 24" using nr_aarch64_at [of 2] by (simp add: nr_aarch64_def)
qed

lemma log_contract_x86: "vfork_contract (log_kernel X86_64 c) X86_64 ''DUP2'' 2"
  by (simp add: vfork_contract_def reads_args_def log_kernel_def vfork_nrs)

lemma log_contract_aarch64: "vfork_contract (log_kernel Aarch64 c) Aarch64 ''DUP3'' 3"
  by (simp add: vfork_contract_def reads_args_def log_kernel_def vfork_nrs)

lemma log_clone: "clone_returns (log_kernel a c) a flgs c k k"
  by (simp add: clone_returns_def log_kernel_def)

definition no_flags :: flags where
  "no_flags = \<lparr>zf = False, sf = False, cf = False, lt = False\<rparr>"

definition two_redirects :: "usize \<Rightarrow> u32" where
  "two_redirects p = (if p = 0x1000 then 3 else if p = 0x1004 then 0 else if p = 0x1008 then 4 else 1)"

lemma two_redirects_at: "redirects_at two_redirects 0x1000 [(3, 0), (4, 1)]"
  by (simp add: redirects_at_def two_redirects_def less_Suc_eq)

text \<open>Both redirections are applied.\<close>
theorem aarch64_vfork_redirects_witness:
  "run (astep (log_kernel Aarch64 0) two_redirects aarch64_vfork_execve_redirected) 50
      (Running 0 (aarch64_entry (\<lambda>_. 0) 0x4111 7 8 9 0x1000 2) no_flags [])
    = Gone [(24, [3, 0, 0]), (24, [4, 1, 0]), (221, [7, 8, 9])]"
  using aarch64_vfork_redirects [OF log_contract_aarch64 log_clone two_redirects_at, where fuel = 50 and r = "\<lambda>_. 0" and flgs = "0x4111" and path = 7 and argv = 8 and envp = 9 and f = no_flags and k = "[]"]
  by (simp add: child_spec_def dup3_call_def execve_call_def log_kernel_def vfork_nrs)

text \<open>
  The second redirection is lost, although the specification asks for it.
\<close>
theorem x86_64_vfork_redirects_witness:
  "run (xstep (log_kernel X86_64 0) two_redirects (\<lambda>_. 0x400000) 0x246 x86_64_vfork_execve_redirected) 46
      (Running 0 (x86_64_entry (\<lambda>_. 0) 0x4111 7 8 9 0x1000 2) no_flags [])
    = Gone [(33, [3, 0]), (59, [7, 8, 9])]
   \<and> child_spec (dup2_call (log_kernel X86_64 0)) (execve_call (log_kernel X86_64 0) X86_64 7 8 9)
       (exit_call (log_kernel X86_64 0) X86_64) [(3, 0), (4, 1)] []
    = [(33, [3, 0]), (33, [4, 1]), (59, [7, 8, 9])]"
  using x86_64_vfork_redirects [where rip = "\<lambda>_. 0x400000", OF log_contract_x86 log_clone two_redirects_at,
      where fuel = 46 and rfl = "0x246" and r = "\<lambda>_. 0" and flgs = "0x4111" and path = 7 and argv = 8
        and envp = 9 and f = no_flags and k = "[]"]
  by (simp add: child_spec_def dup2_call_def execve_call_def log_kernel_def vfork_nrs first_effective_def)

theorem vfork_execve_child_witness:
  "run (xstep (log_kernel X86_64 0) two_redirects (\<lambda>_. 0x400000) 0x246 x86_64_vfork_execve) 11
      (Running 0 (x86_64_entry (\<lambda>_. 0) 0x4111 7 8 9 0 0) no_flags []) = Gone [(59, [7, 8, 9])]
   \<and> run (astep (log_kernel Aarch64 0) two_redirects aarch64_vfork_execve) 11
      (Running 0 (aarch64_entry (\<lambda>_. 0) 0x4111 7 8 9 0 0) no_flags []) = Gone [(221, [7, 8, 9])]"
  using vfork_execve_child [OF log_contract_x86 log_clone log_contract_aarch64 log_clone, where fuel = 11
        and mem = two_redirects and rip = "\<lambda>_. 0x400000" and rfl = "0x246" and r = "\<lambda>_. 0" and r' = "\<lambda>_. 0"
        and flgs = "0x4111" and path = 7 and argv = 8 and envp = 9 and q = 0 and l = 0 and f = no_flags and k = "[]"]
  by (simp add: gone_after_exec_def execve_call_def log_kernel_def vfork_nrs)

theorem vfork_parent_registers_witness:
  "\<exists>r1. run (xstep (log_kernel X86_64 42) two_redirects (\<lambda>_. 0x400000) 0x246 x86_64_vfork_execve_redirected) 5
      (Running 0 (x86_64_entry (\<lambda>_. 0) 0x4111 7 8 9 0x1000 2) no_flags []) = Done r1 []
    \<and> r1 RAX = 42 \<and> r1 R12 = 7 \<and> r1 RDI = 0x4111 \<and> r1 R15 = 0x1000"
  using vfork_parent_registers [OF log_clone log_clone, of 42 5 x86_64_vfork_execve_redirected aarch64_vfork_execve]
  by (simp add: x86_64_entry_def)

end
