(* ===== verification/Process.thy ===== *)
theory Process
  imports Fd Vfork
begin

text \<open>
  Processes (\<open>src/process.rs\<close>): identity and privilege, priority, \<open>prctl\<close>, \<open>uname\<close>, groups and
  sessions, signalling, the memory of other processes, creation (\<open>fork\<close>, \<open>clone3\<close>, \<open>execve\<close>, the typed
  wrappers of the vfork trampolines) and the working directory. Arithmetic wraps, as in a release build.
\<close>

section \<open>Identity\<close>

text \<open>These calls never fail; the result is truncated as the source's \<open>as\<close> casts do.\<close>

definition call_raw :: "'k mach \<Rightarrow> string \<Rightarrow> 'k \<Rightarrow> u32 \<times> 'k" where
  "call_raw M s k = (case sys M s [] k of (ret, _, k') \<Rightarrow> (ucast ret, k'))"

definition getpid :: "'k mach \<Rightarrow> 'k \<Rightarrow> i32 \<times> 'k" where
  "getpid M = call_raw M ''GETPID''"

definition getppid :: "'k mach \<Rightarrow> 'k \<Rightarrow> i32 \<times> 'k" where
  "getppid M = call_raw M ''GETPPID''"

definition gettid :: "'k mach \<Rightarrow> 'k \<Rightarrow> i32 \<times> 'k" where
  "gettid M = call_raw M ''GETTID''"

definition getuid :: "'k mach \<Rightarrow> 'k \<Rightarrow> u32 \<times> 'k" where
  "getuid M = call_raw M ''GETUID''"

definition geteuid :: "'k mach \<Rightarrow> 'k \<Rightarrow> u32 \<times> 'k" where
  "geteuid M = call_raw M ''GETEUID''"

definition getgid :: "'k mach \<Rightarrow> 'k \<Rightarrow> u32 \<times> 'k" where
  "getgid M = call_raw M ''GETGID''"

definition getegid :: "'k mach \<Rightarrow> 'k \<Rightarrow> u32 \<times> 'k" where
  "getegid M = call_raw M ''GETEGID''"

definition ngroups :: "'k mach \<Rightarrow> ('k, usize) io" where
  "ngroups M = call_usize M ''GETGROUPS'' [Val 0, Val 0]"

definition getgroups :: "'k mach \<Rightarrow> u32 list \<Rightarrow> ('k, u32 list) io" where
  "getgroups M buf k =
     (case call_buf M ''GETGROUPS'' [len_arg buf, MutPtr (enc_array (le_bytes 4) buf)] 1 k of
        (r, bytes, k') \<Rightarrow>
          (res_bind r (\<lambda>n. slice (dec_array 4 le_word (length buf) bytes) 0 (unat n)), k'))"

section \<open>Privilege\<close>

definition KEEP_ID :: u32 where "KEEP_ID = 0xffffffff"

definition setuid :: "'k mach \<Rightarrow> u32 \<Rightarrow> ('k, unit) io" where
  "setuid M uid = call_unit M ''SETUID'' [Val (ucast uid)]"

definition setgid :: "'k mach \<Rightarrow> u32 \<Rightarrow> ('k, unit) io" where
  "setgid M gid = call_unit M ''SETGID'' [Val (ucast gid)]"

text \<open>Three 4-byte out parameters, zero before the call.\<close>

definition three_ids :: "'k mach \<Rightarrow> string \<Rightarrow> ('k, u32 \<times> u32 \<times> u32) io" where
  "three_ids M s = call_out M s [MutPtr (le_bytes 4 (0 :: u32)), MutPtr (le_bytes 4 (0 :: u32)), MutPtr (le_bytes 4 (0 :: u32))]
     (\<lambda>outs. (le_word (out_bytes outs 0), le_word (out_bytes outs 1), le_word (out_bytes outs 2)))"

definition getresuid :: "'k mach \<Rightarrow> ('k, u32 \<times> u32 \<times> u32) io" where
  "getresuid M = three_ids M ''GETRESUID''"

definition getresgid :: "'k mach \<Rightarrow> ('k, u32 \<times> u32 \<times> u32) io" where
  "getresgid M = three_ids M ''GETRESGID''"

definition setresuid :: "'k mach \<Rightarrow> u32 \<Rightarrow> u32 \<Rightarrow> u32 \<Rightarrow> ('k, unit) io" where
  "setresuid M ruid euid suid = call_unit M ''SETRESUID'' [Val (ucast ruid), Val (ucast euid), Val (ucast suid)]"

definition setresgid :: "'k mach \<Rightarrow> u32 \<Rightarrow> u32 \<Rightarrow> u32 \<Rightarrow> ('k, unit) io" where
  "setresgid M rgid egid sgid = call_unit M ''SETRESGID'' [Val (ucast rgid), Val (ucast egid), Val (ucast sgid)]"

definition seteuid :: "'k mach \<Rightarrow> u32 \<Rightarrow> ('k, unit) io" where
  "seteuid M euid = setresuid M KEEP_ID euid KEEP_ID"

definition setegid :: "'k mach \<Rightarrow> u32 \<Rightarrow> ('k, unit) io" where
  "setegid M egid = setresgid M KEEP_ID egid KEEP_ID"

definition setgroups :: "'k mach \<Rightarrow> u32 list \<Rightarrow> ('k, unit) io" where
  "setgroups M gids = call_unit M ''SETGROUPS'' [len_arg gids, Ptr (enc_array (le_bytes 4) gids)]"

section \<open>Priority\<close>

definition PRIO_PROCESS :: i32 where "PRIO_PROCESS = 0"
definition PRIO_PGRP :: i32 where "PRIO_PGRP = 1"
definition PRIO_USER :: i32 where "PRIO_USER = 2"

definition getpriority :: "'k mach \<Rightarrow> i32 \<Rightarrow> i32 \<Rightarrow> ('k, i32) io" where
  "getpriority M which who k =
     (case sys M ''GETPRIORITY'' [Val (scast which), Val (scast who)] k of
        (ret, _, k') \<Rightarrow> (map_res (\<lambda>raw. 20 - ucast raw) (from_ret ret), k'))"

definition setpriority :: "'k mach \<Rightarrow> i32 \<Rightarrow> i32 \<Rightarrow> i32 \<Rightarrow> ('k, unit) io" where
  "setpriority M which who prio =
     call_unit M ''SETPRIORITY'' [Val (scast which), Val (scast who), Val (scast prio)]"

definition nice :: "'k mach \<Rightarrow> i32 \<Rightarrow> ('k, i32) io" where
  "nice M inc =
     io_bind (getpriority M PRIO_PROCESS 0) (\<lambda>current.
     let target = current + inc in
     io_bind (setpriority M PRIO_PROCESS 0 target) (\<lambda>_.
     getpriority M PRIO_PROCESS 0))"

section \<open>Process attributes\<close>

definition PR_SET_PDEATHSIG :: i32 where "PR_SET_PDEATHSIG = 1"
definition PR_GET_PDEATHSIG :: i32 where "PR_GET_PDEATHSIG = 2"

text \<open>The second argument may be a pointer; the call hands back what it then points to.\<close>

definition prctl ::
  "'k mach \<Rightarrow> i32 \<Rightarrow> arg \<Rightarrow> usize \<Rightarrow> usize \<Rightarrow> usize \<Rightarrow> 'k \<Rightarrow> i32 res \<times> arg \<times> 'k" where
  "prctl M opt arg2 arg3 arg4 arg5 k =
     (case sys M ''PRCTL'' [Val (scast opt), arg2, Val arg3, Val arg4, Val arg5] k of
        (ret, outs, k') \<Rightarrow> (from_ret_i32 ret, (if 1 < length outs then outs ! 1 else arg2), k'))"

definition set_pdeathsig :: "'k mach \<Rightarrow> i32 \<Rightarrow> ('k, unit) io" where
  "set_pdeathsig M sig k = (case prctl M PR_SET_PDEATHSIG (Val (scast sig)) 0 0 0 k of
     (r, _, k') \<Rightarrow> (map_res (\<lambda>_. ()) r, k'))"

definition get_pdeathsig :: "'k mach \<Rightarrow> ('k, i32) io" where
  "get_pdeathsig M k = (case prctl M PR_GET_PDEATHSIG (MutPtr (le_bytes 4 (0 :: i32))) 0 0 0 k of
     (r, a, k') \<Rightarrow> (map_res (\<lambda>_. le_word (out_bytes [a] 0)) r, k'))"

record Utsname =
  u_sysname :: "byte list"
  u_nodename :: "byte list"
  u_release :: "byte list"
  u_version :: "byte list"
  u_machine :: "byte list"
  u_domainname :: "byte list"

definition Utsname_fields :: "(string \<times> cty) list" where
  "Utsname_fields =
    [(''sysname'', Arr 65 U8), (''nodename'', Arr 65 U8), (''release'', Arr 65 U8),
     (''version'', Arr 65 U8), (''machine'', Arr 65 U8), (''domainname'', Arr 65 U8)]"

definition Utsname_ok :: "Utsname \<Rightarrow> bool" where
  "Utsname_ok x \<longleftrightarrow> length (u_sysname x) = 65 \<and> length (u_nodename x) = 65 \<and> length (u_release x) = 65 \<and> length (u_version x) = 65 \<and> length (u_machine x) = 65 \<and> length (u_domainname x) = 65"

definition Utsname_parts :: "Utsname \<Rightarrow> byte list list" where
  "Utsname_parts x =
    [u_sysname x, u_nodename x, u_release x, u_version x, u_machine x, u_domainname x]"

definition Utsname_build :: "byte list list \<Rightarrow> Utsname" where
  "Utsname_build bs =
    \<lparr>u_sysname = bs ! 0, u_nodename = bs ! 1, u_release = bs ! 2, u_version = bs ! 3,
     u_machine = bs ! 4, u_domainname = bs ! 5\<rparr>"

abbreviation "enc_Utsname \<equiv> struct_enc Utsname_fields Utsname_parts"
abbreviation "dec_Utsname \<equiv> struct_dec Utsname_fields Utsname_build"

lemma Utsname_ok_build: "fits Utsname_fields bs \<Longrightarrow> Utsname_ok (Utsname_build bs)"
  using fits_nth [of Utsname_fields bs 0] fits_nth [of Utsname_fields bs 1] fits_nth [of Utsname_fields bs 2] fits_nth [of Utsname_fields bs 3] fits_nth [of Utsname_fields bs 4] fits_nth [of Utsname_fields bs 5]
  by (simp add: Utsname_ok_def Utsname_build_def Utsname_fields_def)

interpretation utsname: struct_codec Utsname_fields Utsname_ok Utsname_parts Utsname_build 390
  by (unfold_locales; (erule Utsname_ok_build)?)
    (auto simp: Utsname_fields_def Utsname_parts_def Utsname_build_def Utsname_ok_def round_up_def two_fold codec_simps)

definition Utsname_default :: Utsname where
  "Utsname_default = \<lparr>u_sysname = replicate 65 0, u_nodename = replicate 65 0, u_release = replicate 65 0,
     u_version = replicate 65 0, u_machine = replicate 65 0, u_domainname = replicate 65 0\<rparr>"

text \<open>\<open>Utsname::field\<close>: the text of a field; \<open>expect\<close> panics if the field has no NUL.\<close>

definition field :: "byte list \<Rightarrow> byte list res" where
  "field bytes = (case from_bytes_until_nul bytes of Some s \<Rightarrow> Ok s | None \<Rightarrow> Panic)"

definition sysname :: "Utsname \<Rightarrow> byte list res" where "sysname self = field (u_sysname self)"
definition nodename :: "Utsname \<Rightarrow> byte list res" where "nodename self = field (u_nodename self)"
definition release :: "Utsname \<Rightarrow> byte list res" where "release self = field (u_release self)"
definition version :: "Utsname \<Rightarrow> byte list res" where "version self = field (u_version self)"
definition machine :: "Utsname \<Rightarrow> byte list res" where "machine self = field (u_machine self)"
definition domainname :: "Utsname \<Rightarrow> byte list res" where "domainname self = field (u_domainname self)"

definition uname :: "'k mach \<Rightarrow> ('k, Utsname) io" where
  "uname M = call_out M ''UNAME'' [MutPtr (enc_Utsname Utsname_default)] (\<lambda>outs. dec_Utsname (out_bytes outs 0))"

section \<open>Groups, signals, handles\<close>

definition setpgid :: "'k mach \<Rightarrow> i32 \<Rightarrow> i32 \<Rightarrow> ('k, unit) io" where
  "setpgid M pid pgid = call_unit M ''SETPGID'' [Val (scast pid), Val (scast pgid)]"

definition kill :: "'k mach \<Rightarrow> i32 \<Rightarrow> i32 \<Rightarrow> ('k, unit) io" where
  "kill M pid sig = call_unit M ''KILL'' [Val (scast pid), Val (scast sig)]"

definition killpg :: "'k mach \<Rightarrow> i32 \<Rightarrow> i32 \<Rightarrow> ('k, unit) io" where
  "killpg M pgrp sig = kill M (- pgrp) sig"

definition pidfd_open :: "'k mach \<Rightarrow> i32 \<Rightarrow> u32 \<Rightarrow> ('k, i32) io" where
  "pidfd_open M pid flags = call_i32 M ''PIDFD_OPEN'' [Val (scast pid), Val (ucast flags)]"

definition pidfd_send_signal :: "'k mach \<Rightarrow> i32 \<Rightarrow> i32 \<Rightarrow> ('k, unit) io" where
  "pidfd_send_signal M pidfd sig =
     call_unit M ''PIDFD_SEND_SIGNAL'' [Val (scast pidfd), Val (scast sig), Val 0, Val 0]"

definition setsid :: "'k mach \<Rightarrow> ('k, i32) io" where
  "setsid M = call_i32 M ''SETSID'' []"

definition getpgid :: "'k mach \<Rightarrow> i32 \<Rightarrow> ('k, i32) io" where
  "getpgid M pid = call_i32 M ''GETPGID'' [Val (scast pid)]"

definition getsid :: "'k mach \<Rightarrow> i32 \<Rightarrow> ('k, i32) io" where
  "getsid M pid = call_i32 M ''GETSID'' [Val (scast pid)]"

definition getpgrp :: "'k mach \<Rightarrow> ('k, i32) io" where
  "getpgrp M = getpgid M 0"

section \<open>Memory of another process\<close>

record RemoteIoVec =
  rv_base :: u64
  rv_len :: u64

definition RemoteIoVec_fields :: "(string \<times> cty) list" where
  "RemoteIoVec_fields =
    [(''base'', U64), (''len'', U64)]"

definition RemoteIoVec_parts :: "RemoteIoVec \<Rightarrow> byte list list" where
  "RemoteIoVec_parts x =
    [le_bytes 8 (rv_base x), le_bytes 8 (rv_len x)]"

definition RemoteIoVec_build :: "byte list list \<Rightarrow> RemoteIoVec" where
  "RemoteIoVec_build bs =
    \<lparr>rv_base = le_word (bs ! 0), rv_len = le_word (bs ! 1)\<rparr>"

abbreviation "enc_RemoteIoVec \<equiv> struct_enc RemoteIoVec_fields RemoteIoVec_parts"
abbreviation "dec_RemoteIoVec \<equiv> struct_dec RemoteIoVec_fields RemoteIoVec_build"

interpretation remote_iovec: struct_codec RemoteIoVec_fields "\<lambda>_. True" RemoteIoVec_parts RemoteIoVec_build 16
  by (unfold_locales)
    (auto simp: RemoteIoVec_fields_def RemoteIoVec_parts_def RemoteIoVec_build_def round_up_def two_fold codec_simps)

definition RemoteIoVec_new :: "usize \<Rightarrow> usize \<Rightarrow> RemoteIoVec" where
  "RemoteIoVec_new base len = \<lparr>rv_base = base, rv_len = len\<rparr>"

definition process_vm_readv ::
  "'k mach \<Rightarrow> i32 \<Rightarrow> byte list list \<Rightarrow> RemoteIoVec list \<Rightarrow> 'k \<Rightarrow> usize res \<times> byte list list \<times> 'k" where
  "process_vm_readv M pid loc remote =
     call_iov M ''PROCESS_VM_READV''
       [Val (scast pid), IovMut loc, len_arg loc, Ptr (enc_array enc_RemoteIoVec remote), len_arg remote, Val 0] 1"

definition process_vm_writev :: "'k mach \<Rightarrow> i32 \<Rightarrow> byte list list \<Rightarrow> RemoteIoVec list \<Rightarrow> ('k, usize) io" where
  "process_vm_writev M pid loc remote =
     call_usize M ''PROCESS_VM_WRITEV''
       [Val (scast pid), Iov loc, len_arg loc, Ptr (enc_array enc_RemoteIoVec remote), len_arg remote, Val 0]"

section \<open>Creation and replacement\<close>

text \<open>\<open>exit_group\<close> does not return; its model is the state after the call.\<close>

definition exit_group :: "'k mach \<Rightarrow> i32 \<Rightarrow> 'k \<Rightarrow> 'k" where
  "exit_group M status k = snd (snd (sys M ''EXIT_GROUP'' [Val (scast status)] k))"

definition SIGCHLD :: usize where "SIGCHLD = 17"
definition CLONE_PIDFD :: u64 where "CLONE_PIDFD = 0x1000"
definition CLONE_VM :: usize where "CLONE_VM = 0x100"
definition CLONE_VFORK :: usize where "CLONE_VFORK = 0x4000"

definition fork :: "'k mach \<Rightarrow> ('k, i32) io" where
  "fork M = call_i32 M ''CLONE'' [Val SIGCHLD, Val 0, Val 0, Val 0, Val 0]"

record Clone3Args =
  c3_flags :: u64
  c3_pidfd :: u64
  c3_child_tid :: u64
  c3_parent_tid :: u64
  c3_exit_signal :: u64
  c3_stack :: u64
  c3_stack_size :: u64
  c3_tls :: u64
  c3_set_tid :: u64
  c3_set_tid_size :: u64
  c3_cgroup :: u64

definition Clone3Args_fields :: "(string \<times> cty) list" where
  "Clone3Args_fields =
    [(''flags'', U64), (''pidfd'', U64), (''child_tid'', U64), (''parent_tid'', U64),
     (''exit_signal'', U64), (''stack'', U64), (''stack_size'', U64), (''tls'', U64),
     (''set_tid'', U64), (''set_tid_size'', U64), (''cgroup'', U64)]"

definition Clone3Args_parts :: "Clone3Args \<Rightarrow> byte list list" where
  "Clone3Args_parts x =
    [le_bytes 8 (c3_flags x), le_bytes 8 (c3_pidfd x), le_bytes 8 (c3_child_tid x),
     le_bytes 8 (c3_parent_tid x), le_bytes 8 (c3_exit_signal x), le_bytes 8 (c3_stack x),
     le_bytes 8 (c3_stack_size x), le_bytes 8 (c3_tls x), le_bytes 8 (c3_set_tid x),
     le_bytes 8 (c3_set_tid_size x), le_bytes 8 (c3_cgroup x)]"

definition Clone3Args_build :: "byte list list \<Rightarrow> Clone3Args" where
  "Clone3Args_build bs =
    \<lparr>c3_flags = le_word (bs ! 0), c3_pidfd = le_word (bs ! 1),
     c3_child_tid = le_word (bs ! 2), c3_parent_tid = le_word (bs ! 3),
     c3_exit_signal = le_word (bs ! 4), c3_stack = le_word (bs ! 5),
     c3_stack_size = le_word (bs ! 6), c3_tls = le_word (bs ! 7),
     c3_set_tid = le_word (bs ! 8), c3_set_tid_size = le_word (bs ! 9),
     c3_cgroup = le_word (bs ! 10)\<rparr>"

abbreviation "enc_Clone3Args \<equiv> struct_enc Clone3Args_fields Clone3Args_parts"
abbreviation "dec_Clone3Args \<equiv> struct_dec Clone3Args_fields Clone3Args_build"

interpretation clone3_args: struct_codec Clone3Args_fields "\<lambda>_. True" Clone3Args_parts Clone3Args_build 88
  by (unfold_locales)
    (auto simp: Clone3Args_fields_def Clone3Args_parts_def Clone3Args_build_def round_up_def two_fold codec_simps)

definition Clone3Args_default :: Clone3Args where
  "Clone3Args_default = \<lparr>c3_flags = 0, c3_pidfd = 0, c3_child_tid = 0, c3_parent_tid = 0, c3_exit_signal = 0,
     c3_stack = 0, c3_stack_size = 0, c3_tls = 0, c3_set_tid = 0, c3_set_tid_size = 0, c3_cgroup = 0\<rparr>"

definition fork_with_pidfd :: "'k mach \<Rightarrow> ('k, i32 \<times> i32) io" where
  "fork_with_pidfd M =
     call_i32_out M ''CLONE3''
       [MutPtr (enc_Clone3Args (Clone3Args_default\<lparr>c3_flags := CLONE_PIDFD, c3_exit_signal := SIGCHLD\<rparr>)), Val 88]
       (\<lambda>pid outs. if pid = 0 then (0, - 1) else (pid, ucast (c3_pidfd (dec_Clone3Args (out_bytes outs 0)))))"

definition errno_of :: "usize res \<Rightarrow> Errno" where
  "errno_of r = (case r of Err e \<Rightarrow> e | _ \<Rightarrow> Errno 0)"

definition execve :: "'k mach \<Rightarrow> byte list \<Rightarrow> usize \<Rightarrow> usize \<Rightarrow> 'k \<Rightarrow> Errno \<times> 'k" where
  "execve M path argv envp k =
     (case call_usize M ''EXECVE'' [cstr path, Val argv, Val envp] k of (r, k') \<Rightarrow> (errno_of r, k'))"

definition execveat :: "'k mach \<Rightarrow> i32 \<Rightarrow> byte list \<Rightarrow> usize \<Rightarrow> usize \<Rightarrow> i32 \<Rightarrow> 'k \<Rightarrow> Errno \<times> 'k" where
  "execveat M dirfd path argv envp flags k =
     (case call_usize M ''EXECVEAT''
         [Val (scast dirfd), cstr path, Val argv, Val envp, Val (scast flags)] k of (r, k') \<Rightarrow> (errno_of r, k'))"

text \<open>
  The typed wrappers run the trampolines of \<open>src/arch\<close>. The host is the machine they run on: the
  kernel, memory, the registers and flags at the call. \<open>None\<close> is a run that does not come to the end
  of the trampoline within \<open>fuel\<close> instructions; in the parent five are enough.
\<close>

record 'k vhost =
  v_arch :: arch
  v_kernel :: "'k vkernel"
  v_mem :: "usize \<Rightarrow> u32"
  v_rip :: "nat \<Rightarrow> usize"
  v_rfl :: usize
  v_xregs :: "xreg \<Rightarrow> usize"
  v_aregs :: "areg \<Rightarrow> usize"
  v_flags :: flags

definition trampoline_ret :: "'r \<Rightarrow> ('r, 'k) config \<Rightarrow> (usize \<times> 'k) option" where
  "trampoline_ret reg c = (case c of Done r k \<Rightarrow> Some (r reg, k) | _ \<Rightarrow> None)"

definition run_trampoline ::
  "'k vhost \<Rightarrow> nat \<Rightarrow> xinstr list \<Rightarrow> ainstr list \<Rightarrow> usize \<Rightarrow> usize \<Rightarrow> usize \<Rightarrow> usize \<Rightarrow> usize \<Rightarrow> usize \<Rightarrow> 'k
   \<Rightarrow> (usize \<times> 'k) option" where
  "run_trampoline H fuel P Q flgs path argv envp redirects redirects_len k = (case v_arch H of
       X86_64 \<Rightarrow> trampoline_ret RAX (run (xstep (v_kernel H) (v_mem H) (v_rip H) (v_rfl H) P) fuel
         (Running 0 (x86_64_entry (v_xregs H) flgs path argv envp redirects redirects_len) (v_flags H) k))
     | Aarch64 \<Rightarrow> trampoline_ret (X 0) (run (astep (v_kernel H) (v_mem H) Q) fuel
         (Running 0 (aarch64_entry (v_aregs H) flgs path argv envp redirects redirects_len) (v_flags H) k)))"

definition VFORK_FLAGS :: usize where
  "VFORK_FLAGS = CLONE_VFORK OR CLONE_VM OR SIGCHLD"

definition vfork_exec :: "'k vhost \<Rightarrow> nat \<Rightarrow> usize \<Rightarrow> usize \<Rightarrow> usize \<Rightarrow> 'k \<Rightarrow> (i32 res \<times> 'k) option" where
  "vfork_exec H fuel path argv envp k =
     map_option (\<lambda>(ret, k'). (from_ret_i32 ret, k'))
       (run_trampoline H fuel x86_64_vfork_execve aarch64_vfork_execve VFORK_FLAGS path argv envp 0 0 k)"

record Redirect =
  r_oldfd :: i32
  r_newfd :: i32

definition Redirect_fields :: "(string \<times> cty) list" where
  "Redirect_fields =
    [(''oldfd'', U32), (''newfd'', U32)]"

definition Redirect_parts :: "Redirect \<Rightarrow> byte list list" where
  "Redirect_parts x =
    [le_bytes 4 (r_oldfd x), le_bytes 4 (r_newfd x)]"

definition Redirect_build :: "byte list list \<Rightarrow> Redirect" where
  "Redirect_build bs =
    \<lparr>r_oldfd = le_word (bs ! 0), r_newfd = le_word (bs ! 1)\<rparr>"

abbreviation "enc_Redirect \<equiv> struct_enc Redirect_fields Redirect_parts"
abbreviation "dec_Redirect \<equiv> struct_dec Redirect_fields Redirect_build"

interpretation redirect: struct_codec Redirect_fields "\<lambda>_. True" Redirect_parts Redirect_build 8
  by (unfold_locales)
    (auto simp: Redirect_fields_def Redirect_parts_def Redirect_build_def round_up_def two_fold codec_simps)

text \<open>The slice of redirections is its address and its length.\<close>

definition vfork_exec_redirected ::
  "'k vhost \<Rightarrow> nat \<Rightarrow> usize \<Rightarrow> usize \<Rightarrow> usize \<Rightarrow> usize \<Rightarrow> usize \<Rightarrow> 'k \<Rightarrow> (i32 res \<times> 'k) option" where
  "vfork_exec_redirected H fuel path argv envp redirects redirects_len k =
     map_option (\<lambda>(ret, k'). (from_ret_i32 ret, k'))
       (run_trampoline H fuel x86_64_vfork_execve_redirected aarch64_vfork_execve_redirected
          VFORK_FLAGS path argv envp redirects redirects_len k)"

section \<open>Argument vectors\<close>

text \<open>
  \<open>CStrArray\<close>: the strings, owned with their NUL, and the pointers to them followed by a null one. A
  pointer into \<open>owned\<close> is the index of its string. \<open>CString::new\<close> refuses an interior NUL, with its
  position and the bytes.
\<close>

record CStrArray =
  owned :: "byte list list"
  ptrs :: "nat option list"

definition CString_new :: "byte list \<Rightarrow> (nat \<times> byte list) + byte list" where
  "CString_new bs = (if 0 \<in> set bs then Inl (length (takeWhile (\<lambda>b. b \<noteq> 0) bs), bs) else Inr (bs @ [0]))"

fun collect_results :: "('e + 'a) list \<Rightarrow> 'e + 'a list" where
  "collect_results [] = Inr []"
| "collect_results (Inl e # rs) = Inl e"
| "collect_results (Inr x # rs) = (case collect_results rs of Inl e \<Rightarrow> Inl e | Inr xs \<Rightarrow> Inr (x # xs))"

definition CStrArray_new :: "byte list list \<Rightarrow> (nat \<times> byte list) + CStrArray" where
  "CStrArray_new strings = (case collect_results (map CString_new strings) of
       Inl e \<Rightarrow> Inl e
     | Inr os \<Rightarrow> Inr \<lparr>owned = os, ptrs = map Some [0..<length os] @ [None]\<rparr>)"

definition CStrArray_as_ptr :: "CStrArray \<Rightarrow> nat option list" where
  "CStrArray_as_ptr self = ptrs self"

section \<open>Working directory\<close>

definition chdir :: "'k mach \<Rightarrow> byte list \<Rightarrow> ('k, unit) io" where
  "chdir M path = call_unit M ''CHDIR'' [cstr path]"

definition fchdir :: "'k mach \<Rightarrow> i32 \<Rightarrow> ('k, unit) io" where
  "fchdir M fd = call_unit M ''FCHDIR'' [Val (scast fd)]"

definition getcwd :: "'k mach \<Rightarrow> byte list \<Rightarrow> ('k, byte list) io" where
  "getcwd M buf k =
     (case call_buf M ''GETCWD'' [MutPtr buf, len_arg buf] 0 k of
        (r, buf', k') \<Rightarrow> (res_bind r (\<lambda>len. slice buf' 0 (unat len - 1)), k'))"

section \<open>Properties\<close>

lemma xstep_Done [simp]: "run (xstep K mem rip rfl P) n (Done r k) = Done r k"
  by (induction n) (simp_all add: xstep_def)

lemma astep_Done [simp]: "run (astep K mem P) n (Done r k) = Done r k"
  by (induction n) (simp_all add: astep_def)

lemma run_more: "run stp 5 c = c' \<Longrightarrow> 5 \<le> n \<Longrightarrow> run stp n c = run stp (n - 5) c'"
  using run_add [of stp 5 "n - 5" c] by simp

lemma trampoline_ends:
  assumes "\<exists>r. run stp 5 c = Done r k1 \<and> r reg = v" and "\<And>r n. run stp n (Done r k1) = Done r k1" and "5 \<le> fuel"
  shows "trampoline_ret reg (run stp fuel c) = Some (v, k1)"
proof -
  obtain r where r: "run stp 5 c = Done r k1" "r reg = v" using assms(1) by blast
  from run_more [OF r(1) assms(3)] assms(2) have "run stp fuel c = Done r k1" by simp
  with r(2) show ?thesis by (simp add: trampoline_ret_def)
qed

text \<open>
  C34: what \<open>vfork_exec\<close> and \<open>vfork_exec_redirected\<close> return in the parent is decided by \<open>clone\<close> alone: its
  error, or \<open>Ok\<close> of the child's pid. Nothing that happens to the child afterwards, a failed
  \<open>execve\<close> included, makes the result an error.
\<close>
theorem vfork_exec_parent:
  assumes "clone_returns (v_kernel H) (v_arch H) VFORK_FLAGS v k k1" and "v \<noteq> 0" and "5 \<le> fuel"
  shows "vfork_exec H fuel path argv envp k = Some (from_ret_i32 v, k1)
    \<and> vfork_exec_redirected H fuel path argv envp redirects redirects_len k = Some (from_ret_i32 v, k1)"
proof -
  have any: "\<exists>K'. clone_returns K' a VFORK_FLAGS v k k1" for a
    by (rule exI [of _ "\<lambda>_ _ _. (Some v, k1)"]) (simp add: clone_returns_def)
  show ?thesis
  proof (cases "v_arch H")
    case X86_64
    obtain L where "clone_returns L Aarch64 VFORK_FLAGS v k k1" using any by blast
    note par = trampolines_parent [OF assms(1) [unfolded X86_64] this assms(2)]
    note end1 = trampoline_ends [OF par [THEN conjunct1] xstep_Done assms(3)]
    note end2 = trampoline_ends [OF par [THEN conjunct2, THEN conjunct1] xstep_Done assms(3)]
    show ?thesis
      by (simp add: vfork_exec_def vfork_exec_redirected_def run_trampoline_def X86_64 end1 end2)
  next
    case Aarch64
    obtain L where "clone_returns L X86_64 VFORK_FLAGS v k k1" using any by blast
    note par = trampolines_parent [OF this assms(1) [unfolded Aarch64] assms(2)]
    note end1 = trampoline_ends [OF par [THEN conjunct2, THEN conjunct2, THEN conjunct1] astep_Done assms(3)]
    note end2 = trampoline_ends [OF par [THEN conjunct2, THEN conjunct2, THEN conjunct2] astep_Done assms(3)]
    show ?thesis
      by (simp add: vfork_exec_def vfork_exec_redirected_def run_trampoline_def Aarch64 end1 end2)
  qed
qed

definition log_host :: "(usize \<times> usize list) list vhost" where
  "log_host = \<lparr>v_arch = X86_64, v_kernel = log_kernel X86_64 42, v_mem = two_redirects, v_rip = (\<lambda>_. 0x400000),
     v_rfl = 0x246, v_xregs = (\<lambda>_. 0), v_aregs = (\<lambda>_. 0), v_flags = no_flags\<rparr>"

theorem vfork_exec_parent_witness: "vfork_exec log_host 5 7 8 9 [] = Some (Ok 42, [])"
proof -
  have "clone_returns (v_kernel log_host) (v_arch log_host) VFORK_FLAGS 42 [] []"
    using log_clone [of X86_64 42] by (simp add: log_host_def)
  from vfork_exec_parent [OF this, of 5 7 8 9] show ?thesis
    by (simp add: from_ret_i32_def from_ret_def ERRNO_MAX_def)
qed

text \<open>
  The kernel's side of priorities: it reports 20 minus the nice value, which stays between -20 and 19,
  and clamps what it is asked to set.
\<close>

definition clamp_nice :: "int \<Rightarrow> int" where
  "clamp_nice n = max (- 20) (min 19 n)"

definition prio_contract :: "'k mach \<Rightarrow> ('k \<Rightarrow> int) \<Rightarrow> bool" where
  "prio_contract M \<nu> \<longleftrightarrow>
     (\<forall>k. - 20 \<le> \<nu> k \<and> \<nu> k \<le> 19
        \<and> (\<exists>outs. sys M ''GETPRIORITY'' [Val 0, Val 0] k = (word_of_int (20 - \<nu> k), outs, k)))
     \<and> (\<forall>prio k. \<exists>outs k'. sys M ''SETPRIORITY'' [Val 0, Val 0, Val (scast (prio :: i32))] k = (0, outs, k')
        \<and> \<nu> k' = clamp_nice (sint prio))"

lemma getpriority_contract:
  assumes "prio_contract M \<nu>"
  shows "getpriority M PRIO_PROCESS 0 k = (Ok (word_of_int (\<nu> k)), k)"
proof -
  obtain outs where call: "sys M ''GETPRIORITY'' [Val 0, Val 0] k = (word_of_int (20 - \<nu> k), outs, k)"
    and range: "- 20 \<le> \<nu> k" "\<nu> k \<le> 19"
    using assms unfolding prio_contract_def by blast
  have s: "sint (word_of_int (20 - \<nu> k) :: usize) = 20 - \<nu> k"
    using range by (intro sint_word_of_int_small) auto
  then have "from_ret (word_of_int (20 - \<nu> k)) = Ok (word_of_int (20 - \<nu> k))"
    using range by (simp add: from_ret_Ok_iff)
  moreover have "(ucast (word_of_int m :: usize) :: i32) = word_of_int m" for m
    by (rule bit_word_eqI) (simp add: bit_simps)
  then have "(ucast (word_of_int (20 - \<nu> k) :: usize) :: i32) = word_of_int (20 - \<nu> k)" .
  ultimately show ?thesis using call by (simp add: getpriority_def PRIO_PROCESS_def)
qed

text \<open>
  C36: \<open>nice\<close> sets the clamped sum and returns the value then in force, except that a sum beyond 32
  bits wraps: a huge increment gives the most favourable priority, a huge decrement the least.
\<close>
theorem nice_exact:
  assumes "prio_contract M \<nu>"
  shows "\<exists>k'. nice M inc k = (Ok (word_of_int (\<nu> k')), k')
    \<and> \<nu> k' = (if 2 ^ 31 \<le> \<nu> k + sint inc then - 20
              else if \<nu> k + sint inc < - (2 ^ 31) then 19
              else clamp_nice (\<nu> k + sint inc))"
proof -
  let ?t = "word_of_int (\<nu> k) + inc :: i32"
  obtain outs k' where set: "sys M ''SETPRIORITY'' [Val 0, Val 0, Val (scast ?t)] k = (0, outs, k')"
    and \<nu>: "\<nu> k' = clamp_nice (sint ?t)"
    using assms unfolding prio_contract_def by blast
  have range: "- 20 \<le> \<nu> k" "\<nu> k \<le> 19" using assms unfolding prio_contract_def by blast+
  have inc: "- (2 ^ 31) \<le> sint inc" "sint inc < 2 ^ 31" using sint_range_size [of inc] by (simp_all add: word_size)
  have small: "sint (word_of_int m :: i32) = m" if "- (2 ^ 31) \<le> m" "m < 2 ^ 31" for m
    using that by (intro sint_word_of_int_small) simp_all
  have eq: "?t = word_of_int (\<nu> k + sint inc)" "?t = word_of_int (\<nu> k + sint inc - 2 ^ 32)"
    "?t = word_of_int (\<nu> k + sint inc + 2 ^ 32)"
    by simp_all
  have over: "sint ?t = \<nu> k + sint inc - 2 ^ 32" if "2 ^ 31 \<le> \<nu> k + sint inc"
    unfolding eq(2) by (rule small) (use that range inc in auto)
  have under: "sint ?t = \<nu> k + sint inc + 2 ^ 32" if "\<nu> k + sint inc < - (2 ^ 31)"
    unfolding eq(3) by (rule small) (use that range inc in auto)
  have within: "sint ?t = \<nu> k + sint inc" if "\<not> 2 ^ 31 \<le> \<nu> k + sint inc" "\<not> \<nu> k + sint inc < - (2 ^ 31)"
    unfolding eq(1) by (rule small) (use that range inc in auto)
  have "nice M inc k = (Ok (word_of_int (\<nu> k')), k')"
  proof -
    have "setpriority M PRIO_PROCESS 0 ?t k = (Ok (), k')"
      using set by (simp add: setpriority_def call_unit_def PRIO_PROCESS_def from_ret_def ERRNO_MAX_def)
    then show ?thesis by (simp add: nice_def getpriority_contract [OF assms] io_bind_Ok Let_def)
  qed
  moreover have "\<nu> k' = (if 2 ^ 31 \<le> \<nu> k + sint inc then - 20
      else if \<nu> k + sint inc < - (2 ^ 31) then 19 else clamp_nice (\<nu> k + sint inc))"
    unfolding \<nu> clamp_nice_def using over under within range inc by auto
  ultimately show ?thesis by blast
qed

text \<open>A privileged process at nice value 5.\<close>

definition nice_kernel :: "int mach" where
  "nice_kernel = \<lparr>m_arch = X86_64, m_kernel = \<lambda>n args k.
     (if n = 140 then (word_of_int (20 - clamp_nice k), args, k)
      else case args of [_, _, Val v] \<Rightarrow> (0, args, clamp_nice (sint (ucast v :: i32))) | _ \<Rightarrow> (- 22, args, k))\<rparr>"

lemma nice_kernel_prio: "prio_contract nice_kernel clamp_nice"
proof -
  have "nr X86_64 ''GETPRIORITY'' = 140" "nr X86_64 ''SETPRIORITY'' = 141"
    using nr_x86_64_at [of 51] nr_x86_64_at [of 52]
    by (simp_all add: nr_x86_64_def)
  then show ?thesis
    by (auto simp: prio_contract_def nice_kernel_def sys_def clamp_nice_def ucast_scast_i32)
qed

theorem nice_exact_witness:
  "(\<exists>k'. nice nice_kernel 3 5 = (Ok 8, k')) \<and> (\<exists>k'. nice nice_kernel 0x7fffffff 5 = (Ok (- 20), k'))"
proof -
  have "clamp_nice 5 = 5" "clamp_nice 8 = 8" by (simp_all add: clamp_nice_def)
  with nice_exact [OF nice_kernel_prio, of 3 5] nice_exact [OF nice_kernel_prio, of "0x7fffffff" 5]
  show ?thesis by auto
qed

text \<open>
  What \<open>clone3\<close> does with \<open>CLONE_PIDFD\<close>, as its manual page has it. The argument struct, which lies at
  \<open>at\<close>, is only read; its field \<open>pidfd\<close> is the address at which the descriptor of the child is stored
  in the memory of the parent, and the call fails where that address cannot be stored to.
  \<open>ints k p\<close> is the int at a user address, none where nothing is mapped.
\<close>

definition clone3_contract ::
  "'k mach \<Rightarrow> usize \<Rightarrow> ('k \<Rightarrow> usize \<Rightarrow> i32 option) \<Rightarrow> ('k \<Rightarrow> i32 set) \<Rightarrow> bool" where
  "clone3_contract M at ints fds \<longleftrightarrow> (\<forall>a k. \<exists>ret outs k'.
     sys M ''CLONE3'' [MutPtr (enc_Clone3Args a), Val 88] k = (ret, outs, k')
     \<and> (unat (c3_pidfd a) + 4 \<le> unat at \<or> unat at + 88 \<le> unat (c3_pidfd a)
         \<longrightarrow> out_bytes outs 0 = enc_Clone3Args a)
     \<and> (case from_ret_i32 ret of
          Ok pid \<Rightarrow> c3_flags a AND CLONE_PIDFD \<noteq> 0 \<longrightarrow> ints k (c3_pidfd a) \<noteq> None
            \<and> (pid \<noteq> 0 \<longrightarrow> (\<exists>fd. fd \<notin> fds k \<and> fds k' = insert fd (fds k) \<and> ints k' (c3_pidfd a) = Some fd))
        | _ \<Rightarrow> fds k' = fds k))"

lemma clone3_args_round_trip: "dec_Clone3Args (enc_Clone3Args a) = a"
  using clone3_args.dec_enc by simp

text \<open>
  C33: \<open>fork_with_pidfd\<close> hands \<open>clone3\<close> a null address for the descriptor. Where page zero is not mapped
  it fails whatever else holds, and no child is made; where it is mapped, the descriptor is stored
  there and the parent is given 0 in its place, so that the new descriptor is lost.
\<close>
theorem fork_with_pidfd_null:
  assumes "clone3_contract M at ints fds" and "4 \<le> unat at"
  shows "(ints k 0 = None \<longrightarrow> (\<exists>e k'. fork_with_pidfd M k = (Err e, k') \<and> fds k' = fds k))
    \<and> (\<forall>pid fd k'. fork_with_pidfd M k = (Ok (pid, fd), k') \<longrightarrow> pid \<noteq> 0 \<longrightarrow>
         fd = 0 \<and> (\<exists>new. new \<notin> fds k \<and> fds k' = insert new (fds k) \<and> ints k' 0 = Some new))"
proof -
  define a where "a = Clone3Args_default\<lparr>c3_flags := CLONE_PIDFD, c3_exit_signal := SIGCHLD\<rparr>"
  have a: "c3_pidfd a = 0" "c3_flags a AND CLONE_PIDFD \<noteq> 0"
    by (simp_all add: a_def Clone3Args_default_def CLONE_PIDFD_def)
  obtain ret outs k' where call: "sys M ''CLONE3'' [MutPtr (enc_Clone3Args a), Val 88] k = (ret, outs, k')"
    and outs: "out_bytes outs 0 = enc_Clone3Args a"
    and res: "case from_ret_i32 ret of
          Ok pid \<Rightarrow> ints k 0 \<noteq> None
            \<and> (pid \<noteq> 0 \<longrightarrow> (\<exists>fd. fd \<notin> fds k \<and> fds k' = insert fd (fds k) \<and> ints k' 0 = Some fd))
        | _ \<Rightarrow> fds k' = fds k"
    using assms(1) [unfolded clone3_contract_def, rule_format, of a k] assms(2)
    by (simp add: a cong: res.case_cong) blast
  have "fork_with_pidfd M k =
      (map_res (\<lambda>pid. if pid = 0 then (0, - 1) else (pid, 0)) (from_ret_i32 ret), k')"
    using call outs a(1)
    by (simp add: fork_with_pidfd_def call_i32_out_def clone3_args_round_trip cong: if_cong flip: a_def)
  then show ?thesis using res by (cases "from_ret_i32 ret") auto
qed

text \<open>A kernel that honours the contract: one child, page zero not mapped.\<close>

definition pidfd_mach :: "usize option mach" where
  "pidfd_mach = \<lparr>m_arch = X86_64, m_kernel = \<lambda>n args k. (case args of
       [MutPtr b, _] \<Rightarrow>
         (let a = dec_Clone3Args b in
          if k \<noteq> None then (- 11, args, k)
          else if c3_flags a AND CLONE_PIDFD = 0 then (42, args, k)
          else if unat (c3_pidfd a) < 4096 then (- 14, args, k)
          else (42, args, Some (c3_pidfd a)))
     | _ \<Rightarrow> (- 22, args, k))\<rparr>"

definition pidfd_ints :: "usize option \<Rightarrow> usize \<Rightarrow> i32 option" where
  "pidfd_ints k p = (if unat p < 4096 then None else Some (if k = Some p then 3 else 0))"

definition pidfd_fds :: "usize option \<Rightarrow> i32 set" where
  "pidfd_fds k = (if k = None then {0, 1, 2} else {0, 1, 2, 3})"

lemma pidfd_mach_clone3: "clone3_contract pidfd_mach 0x7000 pidfd_ints pidfd_fds"
proof -
  have ret: "from_ret_i32 (- 11) = Err (Errno 11)" "from_ret_i32 (- 14) = Err (Errno 14)" "from_ret_i32 42 = Ok 42"
    by (simp_all add: from_ret_i32_def from_ret_def ERRNO_MAX_def)
  show ?thesis
    unfolding clone3_contract_def
    by (auto simp: pidfd_mach_def sys_def Let_def clone3_args_round_trip out_bytes_def ret pidfd_ints_def pidfd_fds_def)
qed

theorem fork_with_pidfd_null_witness:
  "\<exists>e k'. fork_with_pidfd pidfd_mach None = (Err e, k') \<and> pidfd_fds k' = {0, 1, 2}"
  using fork_with_pidfd_null [OF pidfd_mach_clone3, of None] by (auto simp: pidfd_ints_def pidfd_fds_def)

text \<open>
  What a program started with an argument vector reads: the strings, each up to its NUL, up to the null pointer. A vector
  without a null pointer, a string without a NUL and a pointer to nothing are read beyond their end, and then there is no value.
\<close>

fun read_argv :: "byte list list \<Rightarrow> nat option list \<Rightarrow> byte list list option" where
  "read_argv os [] = None"
| "read_argv os (None # ps) = Some []"
| "read_argv os (Some i # ps) = (if i < length os \<and> 0 \<in> set (os ! i)
     then map_option ((#) (takeWhile (\<lambda>b. b \<noteq> 0) (os ! i))) (read_argv os ps) else None)"

lemma collect_CString:
  "collect_results (map CString_new strings) = (case find (\<lambda>s. 0 \<in> set s) strings of
     Some s \<Rightarrow> Inl (length (takeWhile (\<lambda>b. b \<noteq> 0) s), s) | None \<Rightarrow> Inr (map (\<lambda>s. s @ [0]) strings))"
  by (induction strings) (auto simp: CString_new_def split: option.splits)

lemma read_argv_all:
  "\<forall>i \<in> set is. i < length os \<and> 0 \<in> set (os ! i) \<Longrightarrow>
   read_argv os (map Some is @ [None]) = Some (map (\<lambda>i. takeWhile (\<lambda>b. b \<noteq> 0) (os ! i)) is)"
  by (induction "is") simp_all

text \<open>
  C39: an argument vector built by \<open>CStrArray::new\<close> is read back as the strings it was built from, its
  pointers followed by a null one, its strings by a NUL, and
  building fails exactly when a string has an interior NUL, with the first such string and the
  position of its first NUL.
\<close>
theorem CStrArray_round_trip:
  "case find (\<lambda>s. 0 \<in> set s) strings of
     None \<Rightarrow> (\<exists>a. CStrArray_new strings = Inr a \<and> read_argv (owned a) (CStrArray_as_ptr a) = Some strings)
   | Some s \<Rightarrow> CStrArray_new strings = Inl (length (takeWhile (\<lambda>b. b \<noteq> 0) s), s)"
proof (cases "find (\<lambda>s. 0 \<in> set s) strings")
  case None
  then have no: "0 \<notin> set s" if "s \<in> set strings" for s using that by (auto simp: find_None_iff)
  have "map (\<lambda>i. takeWhile (\<lambda>b. b \<noteq> 0) (map (\<lambda>s. s @ [0]) strings ! i)) [0..<length strings] = strings"
    by (rule nth_equalityI) (simp_all add: takeWhile_nul no)
  with None show ?thesis
    by (simp add: CStrArray_new_def collect_CString CStrArray_as_ptr_def read_argv_all)
next
  case (Some s)
  then show ?thesis by (simp add: CStrArray_new_def collect_CString)
qed

end
