(* ===== verification/Signal.thy ===== *)
theory Signal
  imports Process
begin

text \<open>
  Signals (\<open>src/signal.rs\<close>): masks, handlers and the x86_64 return trampoline, \<open>signalfd\<close> and
  \<open>sigqueue\<close>. A handler is its address, \<open>SIG_DFL\<close> or \<open>SIG_IGN\<close>.
\<close>

section \<open>Constants\<close>

definition SIG_DFL :: usize where "SIG_DFL = 0"
definition SIG_IGN :: usize where "SIG_IGN = 1"

text \<open>The standard signals, numbered from 1.\<close>

definition signal_numbers :: "(string \<times> i32) list" where
  "signal_numbers =
     [(''SIGHUP'', 1), (''SIGINT'', 2), (''SIGQUIT'', 3), (''SIGILL'', 4), (''SIGTRAP'', 5),
      (''SIGABRT'', 6), (''SIGBUS'', 7), (''SIGFPE'', 8), (''SIGKILL'', 9),
      (''SIGUSR1'', 10), (''SIGSEGV'', 11), (''SIGUSR2'', 12), (''SIGPIPE'', 13),
      (''SIGALRM'', 14), (''SIGTERM'', 15), (''SIGSTKFLT'', 16), (''SIGCHLD'', 17),
      (''SIGCONT'', 18), (''SIGSTOP'', 19), (''SIGTSTP'', 20), (''SIGTTIN'', 21),
      (''SIGTTOU'', 22), (''SIGURG'', 23), (''SIGXCPU'', 24), (''SIGXFSZ'', 25),
      (''SIGVTALRM'', 26), (''SIGPROF'', 27), (''SIGWINCH'', 28), (''SIGIO'', 29),
      (''SIGPWR'', 30), (''SIGSYS'', 31)]"

definition SA_flags :: "(string \<times> u64) list" where
  "SA_flags = [(''SA_NOCLDSTOP'', 0x00000001), (''SA_NOCLDWAIT'', 0x00000002), (''SA_SIGINFO'', 0x00000004),
     (''SA_RESTART'', 0x10000000), (''SA_NODEFER'', 0x40000000), (''SA_RESETHAND'', 0x80000000)]"

definition SA_RESTART :: u64 where "SA_RESTART = 0x10000000"
definition SA_RESTORER :: u64 where "SA_RESTORER = 0x04000000"
definition SIGSETSIZE :: usize where "SIGSETSIZE = 8"
definition SIG_BLOCK :: i32 where "SIG_BLOCK = 0"
definition SIG_UNBLOCK :: i32 where "SIG_UNBLOCK = 1"
definition SIG_SETMASK :: i32 where "SIG_SETMASK = 2"
definition SFD_NONBLOCK :: i32 where "SFD_NONBLOCK = 0x800"
definition SFD_CLOEXEC :: i32 where "SFD_CLOEXEC = 0x80000"
definition SI_QUEUE :: i32 where "SI_QUEUE = - 1"

section \<open>Masks\<close>

text \<open>\<open>1u64 << (sig - 1) as u64\<close>; the shift amount is taken modulo 64, as in a release build.\<close>

definition sigmask :: "i32 \<Rightarrow> u64" where
  "sigmask sig = push_bit (unat (scast (sig - 1) :: u64) mod 64) 1"

definition sigprocmask :: "'k mach \<Rightarrow> i32 \<Rightarrow> u64 \<Rightarrow> ('k, u64) io" where
  "sigprocmask M how set_mask =
     call_out M ''RT_SIGPROCMASK''
       [Val (scast how), Ptr (le_bytes 8 set_mask), MutPtr (le_bytes 8 (0 :: u64)), Val SIGSETSIZE]
       (\<lambda>outs. le_word (out_bytes outs 2))"

definition sigpending :: "'k mach \<Rightarrow> ('k, u64) io" where
  "sigpending M = call_out M ''RT_SIGPENDING'' [MutPtr (le_bytes 8 (0 :: u64)), Val SIGSETSIZE]
     (\<lambda>outs. le_word (out_bytes outs 0))"

definition sigsuspend :: "'k mach \<Rightarrow> u64 \<Rightarrow> 'k \<Rightarrow> Errno \<times> 'k" where
  "sigsuspend M mask_set k =
     (case call_usize M ''RT_SIGSUSPEND'' [Ptr (le_bytes 8 mask_set), Val SIGSETSIZE] k of
        (r, k') \<Rightarrow> (errno_of r, k'))"

section \<open>Handlers\<close>

record KernelSigaction =
  sa_handler :: u64
  sa_flags :: u64
  sa_restorer :: u64
  sa_mask :: u64

definition KernelSigaction_fields :: "(string \<times> cty) list" where
  "KernelSigaction_fields =
    [(''sa_handler'', U64), (''sa_flags'', U64), (''sa_restorer'', U64), (''sa_mask'', U64)]"

definition KernelSigaction_parts :: "KernelSigaction \<Rightarrow> byte list list" where
  "KernelSigaction_parts x =
    [le_bytes 8 (sa_handler x), le_bytes 8 (sa_flags x), le_bytes 8 (sa_restorer x),
     le_bytes 8 (sa_mask x)]"

definition KernelSigaction_build :: "byte list list \<Rightarrow> KernelSigaction" where
  "KernelSigaction_build bs =
    \<lparr>sa_handler = le_word (bs ! 0), sa_flags = le_word (bs ! 1),
     sa_restorer = le_word (bs ! 2), sa_mask = le_word (bs ! 3)\<rparr>"

abbreviation "enc_KernelSigaction \<equiv> struct_enc KernelSigaction_fields KernelSigaction_parts"
abbreviation "dec_KernelSigaction \<equiv> struct_dec KernelSigaction_fields KernelSigaction_build"

interpretation ksigaction: struct_codec KernelSigaction_fields "\<lambda>_. True" KernelSigaction_parts KernelSigaction_build 32
  by (unfold_locales)
    (auto simp: KernelSigaction_fields_def KernelSigaction_parts_def KernelSigaction_build_def round_up_def two_fold codec_simps)

text \<open>The naked function a handler returns to on x86_64, as a program of the machine of the trampolines.\<close>

definition sigreturn_trampoline :: "xinstr list" where
  "sigreturn_trampoline = [XMovImm RAX (nr X86_64 ''RT_SIGRETURN''), XSyscall]"

text \<open>\<open>tramp\<close> is the address at which the linker places that function.\<close>

definition install :: "'k mach \<Rightarrow> usize \<Rightarrow> i32 \<Rightarrow> usize \<Rightarrow> u64 \<Rightarrow> ('k, usize) io" where
  "install M tramp sig handler flgs =
     (let (fl, restorer) = (case m_arch M of X86_64 \<Rightarrow> (flgs OR SA_RESTORER, tramp) | Aarch64 \<Rightarrow> (flgs, 0));
          new = \<lparr>sa_handler = handler, sa_flags = fl, sa_restorer = restorer, sa_mask = 0\<rparr>;
          old = \<lparr>sa_handler = 0, sa_flags = 0, sa_restorer = 0, sa_mask = 0\<rparr>
      in call_out M ''RT_SIGACTION''
           [Val (scast sig), Ptr (enc_KernelSigaction new), MutPtr (enc_KernelSigaction old), Val SIGSETSIZE]
           (\<lambda>outs. sa_handler (dec_KernelSigaction (out_bytes outs 2))))"

definition signal :: "'k mach \<Rightarrow> usize \<Rightarrow> i32 \<Rightarrow> usize \<Rightarrow> ('k, usize) io" where
  "signal M tramp sig handler = install M tramp sig handler SA_RESTART"

definition sigaction :: "'k mach \<Rightarrow> usize \<Rightarrow> i32 \<Rightarrow> usize \<Rightarrow> u64 \<Rightarrow> ('k, usize) io" where
  "sigaction M tramp sig handler flgs = install M tramp sig handler flgs"

section \<open>Signals by descriptor\<close>

record SignalfdSiginfo =
  ssi_signo :: u32
  ssi_errno :: i32
  ssi_code :: i32
  ssi_pid :: u32
  ssi_uid :: u32
  ssi_fd :: i32
  ssi_tid :: u32
  ssi_band :: u32
  ssi_overrun :: u32
  ssi_trapno :: u32
  ssi_status :: i32
  ssi_int :: i32
  ssi_ptr :: u64
  ssi_utime :: u64
  ssi_stime :: u64
  ssi_addr :: u64
  ssi_addr_lsb :: u16
  ssi_pad2 :: u16
  ssi_syscall :: i32
  ssi_call_addr :: u64
  ssi_arch :: u32
  ssi_pad :: "byte list"

definition SignalfdSiginfo_fields :: "(string \<times> cty) list" where
  "SignalfdSiginfo_fields =
    [(''ssi_signo'', U32), (''ssi_errno'', U32), (''ssi_code'', U32), (''ssi_pid'', U32),
     (''ssi_uid'', U32), (''ssi_fd'', U32), (''ssi_tid'', U32), (''ssi_band'', U32),
     (''ssi_overrun'', U32), (''ssi_trapno'', U32), (''ssi_status'', U32),
     (''ssi_int'', U32), (''ssi_ptr'', U64), (''ssi_utime'', U64), (''ssi_stime'', U64),
     (''ssi_addr'', U64), (''ssi_addr_lsb'', U16), (''ssi_pad2'', U16),
     (''ssi_syscall'', U32), (''ssi_call_addr'', U64), (''ssi_arch'', U32),
     (''ssi_pad'', Arr 28 U8)]"

definition SignalfdSiginfo_ok :: "SignalfdSiginfo \<Rightarrow> bool" where
  "SignalfdSiginfo_ok x \<longleftrightarrow> length (ssi_pad x) = 28"

definition SignalfdSiginfo_parts :: "SignalfdSiginfo \<Rightarrow> byte list list" where
  "SignalfdSiginfo_parts x =
    [le_bytes 4 (ssi_signo x), le_bytes 4 (ssi_errno x), le_bytes 4 (ssi_code x),
     le_bytes 4 (ssi_pid x), le_bytes 4 (ssi_uid x), le_bytes 4 (ssi_fd x),
     le_bytes 4 (ssi_tid x), le_bytes 4 (ssi_band x), le_bytes 4 (ssi_overrun x),
     le_bytes 4 (ssi_trapno x), le_bytes 4 (ssi_status x), le_bytes 4 (ssi_int x),
     le_bytes 8 (ssi_ptr x), le_bytes 8 (ssi_utime x), le_bytes 8 (ssi_stime x),
     le_bytes 8 (ssi_addr x), le_bytes 2 (ssi_addr_lsb x), le_bytes 2 (ssi_pad2 x),
     le_bytes 4 (ssi_syscall x), le_bytes 8 (ssi_call_addr x), le_bytes 4 (ssi_arch x),
     ssi_pad x]"

definition SignalfdSiginfo_build :: "byte list list \<Rightarrow> SignalfdSiginfo" where
  "SignalfdSiginfo_build bs =
    \<lparr>ssi_signo = le_word (bs ! 0), ssi_errno = le_word (bs ! 1), ssi_code = le_word (bs ! 2),
     ssi_pid = le_word (bs ! 3), ssi_uid = le_word (bs ! 4), ssi_fd = le_word (bs ! 5),
     ssi_tid = le_word (bs ! 6), ssi_band = le_word (bs ! 7), ssi_overrun = le_word (bs ! 8),
     ssi_trapno = le_word (bs ! 9), ssi_status = le_word (bs ! 10),
     ssi_int = le_word (bs ! 11), ssi_ptr = le_word (bs ! 12), ssi_utime = le_word (bs ! 13),
     ssi_stime = le_word (bs ! 14), ssi_addr = le_word (bs ! 15),
     ssi_addr_lsb = le_word (bs ! 16), ssi_pad2 = le_word (bs ! 17),
     ssi_syscall = le_word (bs ! 18), ssi_call_addr = le_word (bs ! 19),
     ssi_arch = le_word (bs ! 20), ssi_pad = bs ! 21\<rparr>"

abbreviation "enc_SignalfdSiginfo \<equiv> struct_enc SignalfdSiginfo_fields SignalfdSiginfo_parts"
abbreviation "dec_SignalfdSiginfo \<equiv> struct_dec SignalfdSiginfo_fields SignalfdSiginfo_build"

lemma SignalfdSiginfo_ok_build: "fits SignalfdSiginfo_fields bs \<Longrightarrow> SignalfdSiginfo_ok (SignalfdSiginfo_build bs)"
  using fits_nth [of SignalfdSiginfo_fields bs 21]
  by (simp add: SignalfdSiginfo_ok_def SignalfdSiginfo_build_def SignalfdSiginfo_fields_def)

interpretation signalfd_siginfo: struct_codec SignalfdSiginfo_fields SignalfdSiginfo_ok SignalfdSiginfo_parts SignalfdSiginfo_build 128
  by (unfold_locales; (erule SignalfdSiginfo_ok_build)?)
    (auto simp: SignalfdSiginfo_fields_def SignalfdSiginfo_parts_def SignalfdSiginfo_build_def SignalfdSiginfo_ok_def round_up_def two_fold codec_simps)

definition signalfd :: "'k mach \<Rightarrow> i32 \<Rightarrow> u64 \<Rightarrow> i32 \<Rightarrow> ('k, i32) io" where
  "signalfd M fd mask_set flgs =
     call_i32 M ''SIGNALFD4'' [Val (scast fd), Ptr (le_bytes 8 mask_set), Val SIGSETSIZE, Val (scast flgs)]"

section \<open>Queued signals\<close>

record SigqueueInfo =
  sq_signo :: i32
  sq_errno :: i32
  sq_code :: i32
  sq_pad0 :: i32
  sq_pid :: i32
  sq_uid :: u32
  sq_value :: u64
  sq_pad :: "byte list"

definition SigqueueInfo_fields :: "(string \<times> cty) list" where
  "SigqueueInfo_fields =
    [(''si_signo'', U32), (''si_errno'', U32), (''si_code'', U32), (''pad0'', U32), (''si_pid'', U32),
     (''si_uid'', U32), (''si_value'', U64), (''pad'', Arr 96 U8)]"

definition SigqueueInfo_ok :: "SigqueueInfo \<Rightarrow> bool" where
  "SigqueueInfo_ok x \<longleftrightarrow> length (sq_pad x) = 96"

definition SigqueueInfo_parts :: "SigqueueInfo \<Rightarrow> byte list list" where
  "SigqueueInfo_parts x =
    [le_bytes 4 (sq_signo x), le_bytes 4 (sq_errno x), le_bytes 4 (sq_code x),
     le_bytes 4 (sq_pad0 x), le_bytes 4 (sq_pid x), le_bytes 4 (sq_uid x),
     le_bytes 8 (sq_value x), sq_pad x]"

definition SigqueueInfo_build :: "byte list list \<Rightarrow> SigqueueInfo" where
  "SigqueueInfo_build bs =
    \<lparr>sq_signo = le_word (bs ! 0), sq_errno = le_word (bs ! 1), sq_code = le_word (bs ! 2),
     sq_pad0 = le_word (bs ! 3), sq_pid = le_word (bs ! 4), sq_uid = le_word (bs ! 5),
     sq_value = le_word (bs ! 6), sq_pad = bs ! 7\<rparr>"

abbreviation "enc_SigqueueInfo \<equiv> struct_enc SigqueueInfo_fields SigqueueInfo_parts"
abbreviation "dec_SigqueueInfo \<equiv> struct_dec SigqueueInfo_fields SigqueueInfo_build"

lemma SigqueueInfo_ok_build: "fits SigqueueInfo_fields bs \<Longrightarrow> SigqueueInfo_ok (SigqueueInfo_build bs)"
  using fits_nth [of SigqueueInfo_fields bs 7]
  by (simp add: SigqueueInfo_ok_def SigqueueInfo_build_def SigqueueInfo_fields_def)

interpretation sigqueue_info: struct_codec SigqueueInfo_fields SigqueueInfo_ok SigqueueInfo_parts SigqueueInfo_build 128
  by (unfold_locales; (erule SigqueueInfo_ok_build)?)
    (auto simp: SigqueueInfo_fields_def SigqueueInfo_parts_def SigqueueInfo_build_def SigqueueInfo_ok_def round_up_def two_fold codec_simps)

definition sigqueue :: "'k mach \<Rightarrow> i32 \<Rightarrow> i32 \<Rightarrow> usize \<Rightarrow> ('k, unit) io" where
  "sigqueue M pid sig val k = (case getpid M k of (me, k1) \<Rightarrow> (case getuid M k1 of (uid, k2) \<Rightarrow>
     call_unit M ''RT_SIGQUEUEINFO''
       [Val (scast pid), Val (scast sig),
        Ptr (enc_SigqueueInfo \<lparr>sq_signo = sig, sq_errno = 0, sq_code = SI_QUEUE, sq_pad0 = 0, sq_pid = me,
          sq_uid = uid, sq_value = val, sq_pad = replicate 96 0\<rparr>)] k2))"

section \<open>Blocking and restoring\<close>

lemma bit_sigmask:
  assumes "1 \<le> sint sig" and "sint sig \<le> 64"
  shows "bit (sigmask sig) n \<longleftrightarrow> Suc n = nat (sint sig)"
proof -
  have "sint (sig - 1) = sint sig - 1"
    using assms sint_word_of_int_small [of "sint sig - 1", where 'a = 32] by simp
  then have "(scast (sig - 1) :: u64) = word_of_int (sint sig - 1)"
    by (metis scast_eq)
  then have "uint (scast (sig - 1) :: u64) = sint sig - 1"
    using assms by (simp add: uint_word_of_int take_bit_int_eq_self del: of_int_diff)
  then have "unat (scast (sig - 1) :: u64) mod 64 = nat (sint sig) - 1"
    using assms by (simp add: unat_eq_nat_uint nat_diff_distrib)
  with assms show ?thesis by (auto simp: sigmask_def bit_exp_iff)
qed

text \<open>
  The kernel's side of masks: the mask of the thread, from which the kernel keeps \<open>SIGKILL\<close> and
  \<open>SIGSTOP\<close> out.
\<close>

definition unblockable :: u64 where
  "unblockable = sigmask 9 OR sigmask 19"

definition new_mask :: "i32 \<Rightarrow> u64 \<Rightarrow> u64 \<Rightarrow> u64" where
  "new_mask how s old =
     (if how = SIG_BLOCK then old OR s else if how = SIG_UNBLOCK then old AND NOT s else s) AND NOT unblockable"

definition mask_contract :: "'k mach \<Rightarrow> ('k \<Rightarrow> u64) \<Rightarrow> bool" where
  "mask_contract M blocked \<longleftrightarrow>
     (\<forall>k. blocked k AND unblockable = 0)
     \<and> (\<forall>how s b k. how \<in> {SIG_BLOCK, SIG_UNBLOCK, SIG_SETMASK} \<longrightarrow>
          (\<exists>a0 a1 k'. sys M ''RT_SIGPROCMASK'' [Val (scast how), Ptr (le_bytes 8 s), MutPtr b, Val 8] k
              = (0, [a0, a1, MutPtr (le_bytes 8 (blocked k)), Val 8], k')
            \<and> blocked k' = new_mask how s (blocked k)))"

lemma sigprocmask_contract:
  assumes "mask_contract M blocked" and "how \<in> {SIG_BLOCK, SIG_UNBLOCK, SIG_SETMASK}"
  shows "\<exists>k'. sigprocmask M how s k = (Ok (blocked k), k') \<and> blocked k' = new_mask how s (blocked k)"
proof -
  obtain a0 a1 k' where
    "sys M ''RT_SIGPROCMASK'' [Val (scast how), Ptr (le_bytes 8 s), MutPtr (le_bytes 8 (0 :: u64)), Val 8] k
        = (0, [a0, a1, MutPtr (le_bytes 8 (blocked k)), Val 8], k')"
    "blocked k' = new_mask how s (blocked k)"
    using assms unfolding mask_contract_def by blast
  then show ?thesis
    by (simp add: sigprocmask_def call_out_def SIGSETSIZE_def out_bytes_def from_ret_def ERRNO_MAX_def
        le_word_le_bytes_full)
qed

text \<open>
  C24: a critical section over \<open>sigprocmask\<close>: blocking a signal returns the old mask and blocks that
  signal on top of those already blocked, and setting the returned mask afterwards, in whatever state
  the section ends, restores the old mask exactly.
\<close>
theorem sigprocmask_critical_section:
  assumes "mask_contract M blocked" and "1 \<le> sint sig" and "sint sig \<le> 64" and "sint sig \<noteq> 9" and "sint sig \<noteq> 19"
  shows "\<exists>k1. sigprocmask M SIG_BLOCK (sigmask sig) k = (Ok (blocked k), k1)
      \<and> (\<forall>n. bit (blocked k1) n \<longleftrightarrow> bit (blocked k) n \<or> Suc n = nat (sint sig))
      \<and> (\<exists>k2. sigprocmask M SIG_SETMASK (blocked k) later = (Ok (blocked later), k2) \<and> blocked k2 = blocked k)"
proof -
  obtain k1 where k1: "sigprocmask M SIG_BLOCK (sigmask sig) k = (Ok (blocked k), k1)"
    "blocked k1 = (blocked k OR sigmask sig) AND NOT unblockable"
    using sigprocmask_contract [OF assms(1), of SIG_BLOCK] by (auto simp: new_mask_def)
  obtain k2 where k2: "sigprocmask M SIG_SETMASK (blocked k) later = (Ok (blocked later), k2)"
    "blocked k2 = blocked k AND NOT unblockable"
    using sigprocmask_contract [OF assms(1), of SIG_SETMASK]
    by (auto simp: new_mask_def SIG_BLOCK_def SIG_UNBLOCK_def SIG_SETMASK_def)
  have free: "\<not> (bit (blocked k) n \<and> bit unblockable n)" for n
    using assms(1) unfolding mask_contract_def by (metis bit_and_iff bit_0_eq bot_apply bot_bool_def)
  have un: "bit unblockable n \<longleftrightarrow> n = 8 \<or> n = 18" for n
    by (auto simp: unblockable_def bit_or_iff bit_sigmask)
  have "bit (blocked k1) n \<longleftrightarrow> bit (blocked k) n \<or> Suc n = nat (sint sig)" for n
  proof -
    have "Suc n = nat (sint sig) \<Longrightarrow> \<not> bit unblockable n" using assms(4,5) un [of n] by auto
    then show ?thesis
      using free [of n] bit_imp_le_length [of "blocked k" n] bit_imp_le_length [of "sigmask sig" n]
      by (auto simp: k1(2) bit_and_iff bit_or_iff bit_not_iff bit_sigmask [OF assms(2,3)])
  qed
  moreover have "blocked k2 = blocked k"
    unfolding k2(2) by (rule bit_word_eqI) (use free in \<open>auto simp: bit_and_iff bit_not_iff\<close>)
  ultimately show ?thesis using k1(1) k2(1) by blast
qed

definition mask_kernel :: "u64 mach" where
  "mask_kernel = \<lparr>m_arch = X86_64, m_kernel = \<lambda>n args k. (case args of
     [Val how, Ptr s, MutPtr _, Val z] \<Rightarrow>
       (0, [Val how, Ptr s, MutPtr (le_bytes 8 (k AND NOT unblockable)), Val z],
        new_mask (ucast how) (le_word s) (k AND NOT unblockable))
   | _ \<Rightarrow> (- 22, args, k))\<rparr>"

lemma mask_kernel_contract: "mask_contract mask_kernel (\<lambda>k. k AND NOT unblockable)"
  by (auto simp: mask_contract_def mask_kernel_def sys_def ucast_scast_i32 le_word_le_bytes_full new_mask_def
      and.assoc)

theorem sigprocmask_critical_section_witness:
  "\<exists>k1. sigprocmask mask_kernel SIG_BLOCK (sigmask 17) 0 = (Ok 0, k1)
    \<and> (\<exists>k2. sigprocmask mask_kernel SIG_SETMASK 0 5 = (Ok (5 AND NOT unblockable), k2)
         \<and> k2 AND NOT unblockable = 0)"
  using sigprocmask_critical_section [OF mask_kernel_contract, of 17 0 5] by auto

section \<open>Installing handlers\<close>

text \<open>The kernel's side: a table of actions, which it refuses to change for \<open>SIGKILL\<close> and \<open>SIGSTOP\<close>.\<close>

definition catchable :: "i32 \<Rightarrow> bool" where
  "catchable sig \<longleftrightarrow> 1 \<le> sint sig \<and> sint sig \<le> 64 \<and> sint sig \<noteq> 9 \<and> sint sig \<noteq> 19"

text \<open>
  An action as its bytes: handler, flags, restorer and mask, eight bytes each. \<open>sigaction(2)\<close> drops \<open>SIGKILL\<close> and \<open>SIGSTOP\<close> from
  the mask and, since Linux 5.11, the flag bits it does not know; \<open>known\<close> are those it knows, the two the crate sets among them.
\<close>

definition action_bytes :: "KernelSigaction \<Rightarrow> byte list" where
  "action_bytes x = le_bytes 8 (sa_handler x) @ le_bytes 8 (sa_flags x) @ le_bytes 8 (sa_restorer x) @ le_bytes 8 (sa_mask x)"

definition action_contract :: "'k mach \<Rightarrow> u64 \<Rightarrow> ('k \<Rightarrow> i32 \<Rightarrow> KernelSigaction) \<Rightarrow> bool" where
  "action_contract M known actions \<longleftrightarrow> known AND SA_RESTART = SA_RESTART \<and> known AND SA_RESTORER = SA_RESTORER \<and>
     (\<forall>sig x old k. length old = 32 \<longrightarrow> (if catchable sig
        then (\<exists>a0 a1 k'. sys M ''RT_SIGACTION'' [Val (scast sig), Ptr (action_bytes x), MutPtr old, Val 8] k
              = (0, [a0, a1, MutPtr (action_bytes (actions k sig)), Val 8], k')
            \<and> actions k' = (actions k)(sig := x\<lparr>sa_flags := sa_flags x AND known, sa_mask := sa_mask x AND NOT unblockable\<rparr>))
        else (\<exists>outs. sys M ''RT_SIGACTION'' [Val (scast sig), Ptr (action_bytes x), MutPtr old, Val 8] k = (- 22, outs, k))))"

lemma enc_action: "enc_KernelSigaction x = action_bytes x"
  by (simp add: struct_enc_def struct_bytes_def KernelSigaction_fields_def KernelSigaction_parts_def action_bytes_def
      round_up_def Let_def)

lemma dec_action: "dec_KernelSigaction (action_bytes x) = x"
  using ksigaction.dec_enc by (simp add: enc_action)

definition installed :: "arch \<Rightarrow> usize \<Rightarrow> usize \<Rightarrow> u64 \<Rightarrow> KernelSigaction" where
  "installed a tramp h flgs = (case a of
       X86_64 \<Rightarrow> \<lparr>sa_handler = h, sa_flags = flgs OR SA_RESTORER, sa_restorer = tramp, sa_mask = 0\<rparr>
     | Aarch64 \<Rightarrow> \<lparr>sa_handler = h, sa_flags = flgs, sa_restorer = 0, sa_mask = 0\<rparr>)"

lemma installed_known:
  assumes "known AND SA_RESTORER = SA_RESTORER"
  shows "(installed a tramp h flgs)\<lparr>sa_flags := sa_flags (installed a tramp h flgs) AND known,
      sa_mask := sa_mask (installed a tramp h flgs) AND NOT unblockable\<rparr> = installed a tramp h (flgs AND known)"
  using assms by (cases a) (simp_all add: installed_def bit.conj_disj_distrib and.commute)

lemma install_args:
  "install M tramp sig h flgs = call_out M ''RT_SIGACTION''
     [Val (scast sig), Ptr (action_bytes (installed (m_arch M) tramp h flgs)),
      MutPtr (action_bytes \<lparr>sa_handler = 0, sa_flags = 0, sa_restorer = 0, sa_mask = 0\<rparr>), Val 8]
     (\<lambda>outs. sa_handler (dec_KernelSigaction (out_bytes outs 2)))"
  by (simp add: install_def installed_def SIGSETSIZE_def enc_action split: arch.splits)

lemma length_action_bytes: "length (action_bytes x) = 32"
  by (simp add: action_bytes_def)

lemma action_contractD:
  assumes "action_contract M known actions"
  shows "if catchable sig
      then \<exists>a0 a1 k'. sys M ''RT_SIGACTION'' [Val (scast sig), Ptr (action_bytes x), MutPtr (action_bytes y), Val 8] k
            = (0, [a0, a1, MutPtr (action_bytes (actions k sig)), Val 8], k')
          \<and> actions k' = (actions k)(sig := x\<lparr>sa_flags := sa_flags x AND known, sa_mask := sa_mask x AND NOT unblockable\<rparr>)
      else \<exists>outs. sys M ''RT_SIGACTION'' [Val (scast sig), Ptr (action_bytes x), MutPtr (action_bytes y), Val 8] k = (- 22, outs, k)"
  using assms [unfolded action_contract_def, THEN conjunct2, THEN conjunct2, rule_format, OF length_action_bytes] .

lemma install_catchable:
  assumes "action_contract M known actions" and "catchable sig"
  shows "\<exists>k'. install M tramp sig h flgs k = (Ok (sa_handler (actions k sig)), k')
    \<and> actions k' = (actions k)(sig := installed (m_arch M) tramp h (flgs AND known))"
proof -
  let ?x = "installed (m_arch M) tramp h flgs"
  let ?o = "action_bytes \<lparr>sa_handler = 0, sa_flags = 0, sa_restorer = 0, sa_mask = 0\<rparr>"
  obtain a0 a1 k' where call: "sys M ''RT_SIGACTION'' [Val (scast sig), Ptr (action_bytes ?x), MutPtr ?o, Val 8] k
        = (0, [a0, a1, MutPtr (action_bytes (actions k sig)), Val 8], k')"
    and upd: "actions k' = (actions k)(sig := ?x\<lparr>sa_flags := sa_flags ?x AND known, sa_mask := sa_mask ?x AND NOT unblockable\<rparr>)"
    using action_contractD [OF assms(1), of sig ?x] unfolding if_P [OF assms(2)] by blast
  have "known AND SA_RESTORER = SA_RESTORER" using assms(1) by (simp add: action_contract_def)
  then show ?thesis
    unfolding install_args call_out_def call
    by (simp add: out_bytes_def from_ret_def ERRNO_MAX_def dec_action upd installed_known)
qed

lemma install_uncatchable:
  assumes "action_contract M known actions" and "\<not> catchable sig"
  shows "install M tramp sig h flgs k = (Err EINVAL, k)"
proof -
  obtain outs where "sys M ''RT_SIGACTION'' [Val (scast sig), Ptr (action_bytes (installed (m_arch M) tramp h flgs)),
      MutPtr (action_bytes \<lparr>sa_handler = 0, sa_flags = 0, sa_restorer = 0, sa_mask = 0\<rparr>), Val 8] k = (- 22, outs, k)"
    using action_contractD [OF assms(1), of sig] unfolding if_not_P [OF assms(2)] by blast
  then show ?thesis by (simp add: install_args call_out_def from_ret_def ERRNO_MAX_def)
qed

text \<open>
  C23: \<open>signal\<close> and \<open>sigaction\<close> install exactly what they are asked to: the handler, the flags (of those
  \<open>sigaction\<close> is given, the ones the kernel knows), on x86_64 the trampoline with its flag, an empty mask; no other signal is touched and the handler in force
  before is returned. For \<open>SIGKILL\<close>, \<open>SIGSTOP\<close> and numbers out of range they fail with \<open>EINVAL\<close> and
  nothing changes.
\<close>
theorem signal_installs:
  assumes "action_contract M known actions"
  shows "(if catchable sig
      then \<exists>k'. signal M tramp sig h k = (Ok (sa_handler (actions k sig)), k')
          \<and> actions k' = (actions k)(sig := installed (m_arch M) tramp h SA_RESTART)
      else signal M tramp sig h k = (Err EINVAL, k))
    \<and> (if catchable sig
      then \<exists>k'. sigaction M tramp sig h flgs k = (Ok (sa_handler (actions k sig)), k')
          \<and> actions k' = (actions k)(sig := installed (m_arch M) tramp h (flgs AND known))
      else sigaction M tramp sig h flgs k = (Err EINVAL, k))"
proof -
  have "SA_RESTART AND known = SA_RESTART" using assms by (simp add: action_contract_def and.commute)
  with install_catchable [OF assms, where flgs = SA_RESTART] install_catchable [OF assms] install_uncatchable [OF assms]
  show ?thesis by (auto simp: signal_def sigaction_def)
qed

definition action_kernel :: "(i32 \<Rightarrow> KernelSigaction) mach" where
  "action_kernel = \<lparr>m_arch = X86_64, m_kernel = \<lambda>n args k. (case args of
     [Val sig, Ptr b, MutPtr _, Val z] \<Rightarrow>
       if catchable (ucast sig)
       then (0, [Val sig, Ptr b, MutPtr (action_bytes (k (ucast sig))), Val z],
             k(ucast sig := (let x = dec_KernelSigaction b in
               x\<lparr>sa_flags := sa_flags x AND 0xDC00080F, sa_mask := sa_mask x AND NOT unblockable\<rparr>)))
       else (- 22, args, k)
   | _ \<Rightarrow> (- 22, args, k))\<rparr>"

theorem signal_installs_witness:
  "\<exists>k'. signal action_kernel 0x400100 15 0x400200 (\<lambda>_. installed X86_64 0 SIG_DFL 0) = (Ok SIG_DFL, k')
      \<and> k' 15 = installed X86_64 0x400100 0x400200 SA_RESTART \<and> k' 17 = installed X86_64 0 SIG_DFL 0"
proof -
  have "0xDC00080F AND SA_RESTART = SA_RESTART" "0xDC00080F AND SA_RESTORER = SA_RESTORER"
    by (simp_all add: SA_RESTART_def SA_RESTORER_def)
  then have "action_contract action_kernel 0xDC00080F (\<lambda>k. k)"
    by (auto simp: action_contract_def action_kernel_def sys_def ucast_scast_i32 dec_action Let_def)
  from signal_installs [OF this, of 15 "0x400100" "0x400200" "\<lambda>_. installed X86_64 0 SIG_DFL 0"]
  show ?thesis by (auto simp: catchable_def action_kernel_def installed_def)
qed

text \<open>
  The trampoline a handler returns to makes the system call \<open>rt_sigreturn\<close>, from which control does
  not come back, whatever the registers hold.
\<close>
lemma sigreturn_trampoline_returns:
  assumes "\<And>args. K (nr X86_64 ''RT_SIGRETURN'') args k = (None, k')"
  shows "run (xstep K mem rip rfl sigreturn_trampoline) 2 (Running 0 r f k) = Gone k'"
  using assms by (simp add: run_numeral xstep_def sigreturn_trampoline_def)

lemma sigreturn_trampoline_returns_example:
  "run (xstep (\<lambda>n args k. (None, n # k)) (\<lambda>_. 0) (\<lambda>_. 0) 0 sigreturn_trampoline) 2
     (Running 0 (\<lambda>_. 7) no_flags []) = Gone [15]"
proof -
  have "nr X86_64 ''RT_SIGRETURN'' = 15"
    using nr_x86_64_at [of 15]
    by (simp add: nr_x86_64_def)
  then show ?thesis by (intro sigreturn_trampoline_returns) simp
qed

end
