(* ===== verification/Ledger.thy ===== *)
theory Ledger
  imports Resolver Tty Epoll Inotify Resources Signal Time
begin

text \<open>
  Descriptors across the modules. A client of the crate keeps a ledger of the descriptors it inherited,
  those it was handed and has not closed, and those the crate has lost for it; whatever calls it
  makes, of any module and in any order, the process has open exactly what is in the ledger.
\<close>

section \<open>What the kernel promises\<close>

text \<open>\<open>pipe2(2)\<close> makes two descriptors and writes them to the array it is given.\<close>

definition makes_pipe :: "'k mach \<Rightarrow> ('k \<Rightarrow> i32 set) \<Rightarrow> bool" where
  "makes_pipe M opened \<longleftrightarrow>
     (\<forall>fl k ret outs k'. sys M ''PIPE2'' [MutPtr (replicate 8 0), Val fl] k = (ret, outs, k') \<longrightarrow>
        (\<exists>a b. ret = 0 \<and> a \<noteq> b \<and> {a, b} \<inter> opened k = {} \<and> out_bytes outs 0 = le_bytes 4 a @ le_bytes 4 (b :: i32)
           \<and> opened k' = insert a (insert b (opened k)))
        \<or> (\<exists>m. errno_ret ret m \<and> opened k' = opened k))"

text \<open>A raw result that is a new descriptor, or an error that leaves the open ones as they were.\<close>

definition new_fd_ret :: "i32 set \<Rightarrow> usize \<Rightarrow> i32 set \<Rightarrow> bool" where
  "new_fd_ret fds ret fds' \<longleftrightarrow> (\<exists>fd. 0 \<le> sint fd \<and> ret = scast fd \<and> fd \<notin> fds \<and> fds' = insert fd fds)
     \<or> (\<exists>m. errno_ret ret m \<and> fds' = fds)"

text \<open>
  \<open>fcntl(2)\<close>: \<open>F_DUPFD\<close>, which the crate does not name but passes on, and \<open>F_DUPFD_CLOEXEC\<close> make a
  descriptor; the other commands make none, and \<open>F_GETFD\<close> succeeds on an open descriptor only.
\<close>

definition duplicating :: "i32 \<Rightarrow> bool" where
  "duplicating cmd \<longleftrightarrow> cmd = 0 \<or> cmd = F_DUPFD_CLOEXEC"

definition fcntl_fds :: "'k mach \<Rightarrow> ('k \<Rightarrow> i32 set) \<Rightarrow> bool" where
  "fcntl_fds M opened \<longleftrightarrow>
     (\<forall>fd cmd arg k ret outs k'. sys M ''FCNTL'' [Val (scast fd), Val (scast cmd), Val (scast (arg :: i32))] k = (ret, outs, k') \<longrightarrow>
        (if duplicating cmd then new_fd_ret (opened k) ret (opened k')
         else opened k' = opened k \<and> (cmd = F_GETFD \<longrightarrow> fd \<in> opened k \<or> (\<exists>m. errno_ret ret m))))"

text \<open>\<open>signalfd(2)\<close> makes a descriptor when it is given -1, and changes the one it is given otherwise.\<close>

definition signalfd_fds :: "'k mach \<Rightarrow> ('k \<Rightarrow> i32 set) \<Rightarrow> bool" where
  "signalfd_fds M opened \<longleftrightarrow>
     (\<forall>fd args k ret outs k'. sys M ''SIGNALFD4'' (Val (scast (fd :: i32)) # args) k = (ret, outs, k') \<longrightarrow>
        (if fd = - 1 then new_fd_ret (opened k) ret (opened k') else opened k' = opened k))"

text \<open>
  \<open>dup2(2)\<close> and \<open>dup3(2)\<close>: afterwards the target is open, whether it was before or not.
\<close>

definition replace_ret :: "i32 \<Rightarrow> i32 set \<Rightarrow> usize \<Rightarrow> i32 set \<Rightarrow> bool" where
  "replace_ret newfd fds ret fds' \<longleftrightarrow> 0 \<le> sint newfd \<and> ret = scast newfd \<and> fds' = insert newfd fds
     \<or> (\<exists>m. errno_ret ret m \<and> fds' = fds)"

definition replaces_fds :: "'k mach \<Rightarrow> ('k \<Rightarrow> i32 set) \<Rightarrow> bool" where
  "replaces_fds M opened \<longleftrightarrow>
     (m_arch M = X86_64 \<longrightarrow> (\<forall>oldfd newfd k ret outs k'.
        sys M ''DUP2'' [Val (scast (oldfd :: i32)), Val (scast newfd)] k = (ret, outs, k') \<longrightarrow>
        replace_ret newfd (opened k) ret (opened k')))
     \<and> (\<forall>oldfd newfd fl k ret outs k'.
        sys M ''DUP3'' [Val (scast (oldfd :: i32)), Val (scast newfd), Val fl] k = (ret, outs, k') \<longrightarrow>
        replace_ret newfd (opened k) ret (opened k'))"

text \<open>\<open>close_range(2)\<close> closes a range of descriptors, or only marks it when asked to set close-on-exec.\<close>

definition range_closed :: "u32 \<Rightarrow> u32 \<Rightarrow> u32 \<Rightarrow> i32 set" where
  "range_closed fst_fd lst_fd flgs =
     (if flgs AND CLOSE_RANGE_CLOEXEC = 0 then {fd. unat fst_fd \<le> unat fd \<and> unat fd \<le> unat lst_fd} else {})"

definition closes_range :: "'k mach \<Rightarrow> ('k \<Rightarrow> i32 set) \<Rightarrow> bool" where
  "closes_range M opened \<longleftrightarrow>
     (\<forall>a b fl k ret outs k'. sys M ''CLOSE_RANGE'' [Val (ucast a), Val (ucast b), Val (ucast fl)] k = (ret, outs, k') \<longrightarrow>
        ret = 0 \<and> opened k' = opened k - range_closed a b fl \<or> (\<exists>m. errno_ret ret m \<and> opened k' = opened k))"

definition fd_kernel :: "'k mach \<Rightarrow> ('k \<Rightarrow> i32 set) \<Rightarrow> bool" where
  "fd_kernel M opened \<longleftrightarrow> dns_accounting M opened \<and> makes_pipe M opened
     \<and> list_all (makes_fd M opened) [''ACCEPT'', ''ACCEPT4'', ''DUP'', ''MEMFD_CREATE'', ''EPOLL_CREATE1'', ''EVENTFD2'',
         ''INOTIFY_INIT1'', ''TIMERFD_CREATE'', ''PIDFD_OPEN'']
     \<and> ioctl_keeps_fds M opened \<and> list_all (keeps_fds M opened) [''WRITE'', ''CLOCK_GETTIME'']
     \<and> fcntl_fds M opened \<and> signalfd_fds M opened \<and> replaces_fds M opened \<and> closes_range M opened
     \<and> fills_buf M ''READ'' 1 \<and> fills_buf M ''RECVFROM'' 1"

lemma fd_kernelD:
  assumes "fd_kernel M opened"
  shows "makes_fd M opened ''OPENAT''" "makes_fd M opened ''SOCKET''" "makes_fd M opened ''ACCEPT''"
    "makes_fd M opened ''ACCEPT4''" "makes_fd M opened ''DUP''" "makes_fd M opened ''MEMFD_CREATE''"
    "makes_fd M opened ''EPOLL_CREATE1''" "makes_fd M opened ''EVENTFD2''" "makes_fd M opened ''INOTIFY_INIT1''"
    "makes_fd M opened ''TIMERFD_CREATE''" "makes_fd M opened ''PIDFD_OPEN''"
    "closes_fd M opened" "ioctl_keeps_fds M opened" "keeps_fds M opened ''READ''" "keeps_fds M opened ''WRITE''"
    "makes_pipe M opened" "dns_accounting M opened" "fills_buf M ''READ'' 1" "fills_buf M ''RECVFROM'' 1"
    "keeps_fds M opened ''CLOCK_GETTIME''"
  using assms by (simp_all add: fd_kernel_def dns_accounting_def)

lemma fd_kernel_calls:
  assumes "fd_kernel M opened"
  shows "fcntl_fds M opened" "signalfd_fds M opened" "replaces_fds M opened" "closes_range M opened"
  using assms by (simp_all add: fd_kernel_def)

section \<open>Calls that hand out descriptors\<close>

text \<open>The descriptors a call returns, as a list.\<close>

definition one_fd :: "('k, i32) io \<Rightarrow> ('k, i32 list) io" where
  "one_fd m = io_bind m (\<lambda>fd. io_return [fd])"

definition two_fds :: "('k, i32 \<times> i32) io \<Rightarrow> ('k, i32 list) io" where
  "two_fds m = io_bind m (\<lambda>(a, b). io_return [a, b])"

definition no_fd :: "('k, 'a) io \<Rightarrow> ('k, i32 list) io" where
  "no_fd m = io_bind m (\<lambda>_. io_return [])"

text \<open>
  The contract such a call keeps: what it returns is new and is all it leaves open, a failed call
  leaves nothing, and it does not panic.
\<close>

definition accounted :: "('k \<Rightarrow> i32 set) \<Rightarrow> 'k \<Rightarrow> i32 list res \<times> 'k \<Rightarrow> bool" where
  "accounted opened k res = (case res of
       (Ok fds, k') \<Rightarrow> distinct fds \<and> set fds \<inter> opened k = {} \<and> opened k' = opened k \<union> set fds
     | (Err _, k') \<Rightarrow> opened k' = opened k
     | (Panic, _) \<Rightarrow> False)"

locale fd_source =
  fixes op :: "'k mach \<Rightarrow> ('k, i32 list) io"
  assumes accounts: "fd_kernel M opened \<Longrightarrow> accounted opened k (op M k)"
begin

lemma handed_out:
  assumes "fd_kernel M opened" and "op M k = (Ok fds, k')"
  shows "opened k \<inter> set fds = {}" "opened k' = opened k \<union> set fds"
  using accounts [OF assms(1), of k] assms(2) by (auto simp: accounted_def)

lemma refused_keeps: "fd_kernel M opened \<Longrightarrow> op M k = (Err e, k') \<Longrightarrow> opened k' = opened k"
  using accounts [of M opened k] by (auto simp: accounted_def)

lemma no_panic: "fd_kernel M opened \<Longrightarrow> fst (op M k) \<noteq> Panic"
  using accounts [of M opened k] by (auto simp: accounted_def split: prod.splits res.splits)

end

text \<open>A call that makes one descriptor and returns it.\<close>

lemma one_fd_accounted:
  assumes "makes_fd M opened s"
  shows "accounted opened k (one_fd (call_i32 M s args) k)"
  using assms
proof (cases rule: makes_fd_i32 [of _ _ _ args k])
  case (made fd k')
  then show ?thesis by (simp add: one_fd_def io_bind_Ok io_return_apply accounted_def)
next
  case (failed e k')
  then show ?thesis by (simp add: one_fd_def io_bind_Err accounted_def)
qed

lemma one_fd_ret:
  assumes "sys M s args k = (ret, outs, k')" and "new_fd_ret (opened k) ret (opened k')"
  shows "accounted opened k (one_fd (call_i32 M s args) k)"
proof -
  consider fd where "0 \<le> sint fd" "ret = scast fd" "fd \<notin> opened k" "opened k' = insert fd (opened k)"
    | m where "errno_ret ret m" "opened k' = opened k"
    using assms(2) unfolding new_fd_ret_def by blast
  then show ?thesis
  proof cases
    case 1
    with assms(1) show ?thesis
      by (simp add: one_fd_def io_bind_def io_return_def call_i32_def from_ret_i32_nonneg accounted_def)
  next
    case 2
    with assms(1) show ?thesis
      by (simp add: one_fd_def io_bind_def call_i32_def from_ret_i32_def from_ret_errno_ret accounted_def)
  qed
qed

lemma one_fd_out:
  "one_fd (io_bind (call_i32_out M s args g) (\<lambda>p. io_return (fst p))) = one_fd (call_i32 M s args)"
  if "\<And>fd outs. fst (g fd outs) = fd"
  by (auto simp: one_fd_def io_bind_def io_return_def call_i32_out_def call_i32_def fun_eq_iff that
      split: prod.splits res.splits)

lemma no_fd_accounted:
  assumes "fst (m k) \<noteq> Panic" and "opened (snd (m k)) = opened k"
  shows "accounted opened k (no_fd m k)"
  using assms by (cases "m k"; cases "fst (m k)") (auto simp: no_fd_def io_bind_def io_return_def accounted_def)

section \<open>The sources of descriptors\<close>

interpretation opened_path: fd_source "\<lambda>M. one_fd (fd_open M p fl md)" for p fl md
  by unfold_locales (simp add: fd_open_def openat_def one_fd_accounted fd_kernelD)

interpretation opened_at: fd_source "\<lambda>M. one_fd (openat M dir p fl md)" for dir p fl md
  by unfold_locales (simp add: openat_def one_fd_accounted fd_kernelD)

interpretation duplicate: fd_source "\<lambda>M. one_fd (dup M fd)" for fd
  by unfold_locales (simp add: dup_def one_fd_accounted fd_kernelD)

interpretation memfd: fd_source "\<lambda>M. one_fd (memfd_create M nm fl)" for nm fl
  by unfold_locales (simp add: memfd_create_def one_fd_accounted fd_kernelD)

interpretation new_socket: fd_source "\<lambda>M. one_fd (socket M d t p)" for d t p
  by unfold_locales (simp add: socket_def one_fd_accounted fd_kernelD)

interpretation accepted: fd_source "\<lambda>M. one_fd (accept M fd)" for fd
  by unfold_locales (simp add: accept_def one_fd_accounted fd_kernelD)

interpretation accepted_in: fd_source "\<lambda>M. one_fd (io_bind (accept4_in M fd fl) (\<lambda>p. io_return (fst p)))" for fd fl
  by unfold_locales (simp add: accept4_in_def one_fd_out one_fd_accounted fd_kernelD)

interpretation accepted_in6: fd_source "\<lambda>M. one_fd (io_bind (accept4_in6 M fd fl) (\<lambda>p. io_return (fst p)))" for fd fl
  by unfold_locales (simp add: accept4_in6_def one_fd_out one_fd_accounted fd_kernelD)

interpretation new_epoll: fd_source "\<lambda>M. one_fd (epoll_create1 M fl)" for fl
  by unfold_locales (simp add: epoll_create1_def one_fd_accounted fd_kernelD)

interpretation new_eventfd: fd_source "\<lambda>M. one_fd (eventfd M v fl)" for v fl
  by unfold_locales (simp add: eventfd_def one_fd_accounted fd_kernelD)

interpretation new_inotify: fd_source "\<lambda>M. one_fd (inotify_init1 M fl)" for fl
  by unfold_locales (simp add: inotify_init1_def one_fd_accounted fd_kernelD)

interpretation new_timerfd: fd_source "\<lambda>M. one_fd (timerfd_create M c fl)" for c fl
  by unfold_locales (simp add: timerfd_create_def one_fd_accounted fd_kernelD)

interpretation new_pidfd: fd_source "\<lambda>M. one_fd (pidfd_open M pid fl)" for pid fl
  by unfold_locales (simp add: pidfd_open_def one_fd_accounted fd_kernelD)

interpretation new_pipe: fd_source "\<lambda>M. two_fds (pipe2 M fl)" for fl
proof
  fix M :: "'k mach" and opened k
  assume kernel: "fd_kernel M opened"
  obtain ret outs k' where call: "sys M ''PIPE2'' [MutPtr (replicate 8 0), Val (scast fl)] k = (ret, outs, k')"
    using prod_cases3 by blast
  with fd_kernelD(16) [OF kernel] consider
      a b where "ret = 0" "a \<noteq> b" "{a, b} \<inter> opened k = {}" "out_bytes outs 0 = le_bytes 4 a @ le_bytes 4 (b :: i32)"
        "opened k' = insert a (insert b (opened k))"
    | m where "errno_ret ret m" "opened k' = opened k"
    unfolding makes_pipe_def by blast
  then show "accounted opened k (two_fds (pipe2 M fl) k)"
  proof cases
    case (1 a b)
    then have "pipe2 M fl k = (Ok (a, b), k')"
      using call by (simp add: pipe2_def call_out_def from_ret_def ERRNO_MAX_def le_word_le_bytes_full)
    with 1 show ?thesis by (auto simp: two_fds_def io_bind_Ok io_return_apply accounted_def)
  next
    case (2 m)
    then have "pipe2 M fl k = (Err (Errno (word_of_int m)), k')"
      using call by (simp add: pipe2_def call_out_def from_ret_errno_ret)
    with 2 show ?thesis by (simp add: two_fds_def io_bind_Err accounted_def)
  qed
qed

interpretation new_pty: fd_source "\<lambda>M. two_fds (openpty M)"
proof
  fix M :: "'k mach" and opened k
  assume kernel: "fd_kernel M opened"
  obtain r k' where run: "openpty M k = (r, k')" by force
  from openpty_accounted [OF fd_kernelD(1,13,12) [OF kernel] run] run
  show "accounted opened k (two_fds (openpty M) k)"
    by (cases r) (auto simp: two_fds_def io_bind_def io_return_def accounted_def split: prod.splits)
qed

interpretation control: fd_source "\<lambda>M. (if duplicating cmd then one_fd else no_fd) (fcntl M fd cmd arg)" for fd cmd arg
proof
  fix M :: "'k mach" and opened k
  assume kernel: "fd_kernel M opened"
  let ?args = "[Val (scast fd), Val (scast cmd), Val (scast arg)]"
  obtain ret outs k' where call: "sys M ''FCNTL'' ?args k = (ret, outs, k')" using prod_cases3 by blast
  note law = fd_kernel_calls(1) [OF kernel, unfolded fcntl_fds_def, rule_format, OF call]
  show "accounted opened k ((if duplicating cmd then one_fd else no_fd) (fcntl M fd cmd arg) k)"
  proof (cases "duplicating cmd")
    case True
    with law one_fd_ret [OF call] show ?thesis by (simp add: fcntl_def)
  next
    case False
    with law call show ?thesis by (simp add: fcntl_def no_fd_accounted call_i32_def)
  qed
qed

interpretation signals: fd_source "\<lambda>M. (if fd = - 1 then one_fd else no_fd) (signalfd M fd msk fl)" for fd msk fl
proof
  fix M :: "'k mach" and opened k
  assume kernel: "fd_kernel M opened"
  let ?args = "[Val (scast fd), Ptr (le_bytes 8 msk), Val SIGSETSIZE, Val (scast fl)]"
  obtain ret outs k' where call: "sys M ''SIGNALFD4'' ?args k = (ret, outs, k')" using prod_cases3 by blast
  note law = fd_kernel_calls(2) [OF kernel, unfolded signalfd_fds_def, rule_format, OF call]
  show "accounted opened k ((if fd = - 1 then one_fd else no_fd) (signalfd M fd msk fl) k)"
  proof (cases "fd = - 1")
    case True
    with law one_fd_ret [OF call] show ?thesis by (simp add: signalfd_def)
  next
    case False
    with law call show ?thesis by (simp add: signalfd_def no_fd_accounted call_i32_def)
  qed
qed

interpretation resolver_a: fd_source "\<lambda>M. no_fd (resolve_a M host)" for host
proof
  fix M :: "'k mach" and opened k
  assume "fd_kernel M opened"
  note acc = resolve_accounted [OF fd_kernelD(17-19) [OF this], of host k]
  show "accounted opened k (no_fd (resolve_a M host) k)"
    by (rule no_fd_accounted) (use acc [THEN conjunct1] in \<open>cases "resolve_a M host k"; simp\<close>)+
qed

interpretation resolver_aaaa: fd_source "\<lambda>M. no_fd (resolve_aaaa M host)" for host
proof
  fix M :: "'k mach" and opened k
  assume "fd_kernel M opened"
  note acc = resolve_accounted [OF fd_kernelD(17-19) [OF this], of host k]
  show "accounted opened k (no_fd (resolve_aaaa M host) k)"
    by (rule no_fd_accounted) (use acc [THEN conjunct2] in \<open>cases "resolve_aaaa M host k"; simp\<close>)+
qed

section \<open>Calls that replace descriptors\<close>

text \<open>The contract of a call onto a given descriptor: it is open if the call succeeds, and nothing else changes.\<close>

locale fd_replacer =
  fixes op :: "'k mach \<Rightarrow> ('k, i32) io" and tgt :: i32
  assumes replaces: "fd_kernel M opened \<Longrightarrow> op M k = (r, k') \<Longrightarrow>
    opened k' = (case r of Ok _ \<Rightarrow> insert tgt (opened k) | _ \<Rightarrow> opened k) \<and> r \<noteq> Panic"
begin

lemma replaced: "fd_kernel M opened \<Longrightarrow> op M k = (Ok fd, k') \<Longrightarrow> opened k' = insert tgt (opened k)"
  using replaces [of M opened k "Ok fd" k'] by simp

lemma refused_keeps: "fd_kernel M opened \<Longrightarrow> op M k = (Err e, k') \<Longrightarrow> opened k' = opened k"
  using replaces [of M opened k "Err e" k'] by simp

end

lemma replace_ret_i32:
  assumes "sys M s args k = (ret, outs, k')" and "replace_ret newfd (opened k) ret (opened k')"
    and "call_i32 M s args k = (r, k'')"
  shows "opened k'' = (case r of Ok _ \<Rightarrow> insert newfd (opened k) | _ \<Rightarrow> opened k) \<and> r \<noteq> Panic"
proof -
  from assms(1,3) have r: "r = from_ret_i32 ret" "k'' = k'" by (simp_all add: call_i32_def)
  from assms(2) consider "0 \<le> sint newfd" "ret = scast newfd" "opened k' = insert newfd (opened k)"
    | m where "errno_ret ret m" "opened k' = opened k"
    unfolding replace_ret_def by blast
  then show ?thesis
  proof cases
    case 1
    then show ?thesis unfolding r by (simp add: from_ret_i32_nonneg)
  next
    case 2
    then show ?thesis unfolding r by (simp add: from_ret_i32_def from_ret_errno_ret)
  qed
qed

lemma dup2_replaces:
  assumes "replaces_fds M opened" and "m_arch M = X86_64"
    and "sys M ''DUP2'' [Val (scast (oldfd :: i32)), Val (scast newfd)] k = (ret, outs, k')"
  shows "replace_ret newfd (opened k) ret (opened k')"
  by (rule assms(1) [unfolded replaces_fds_def, THEN conjunct1, rule_format, OF assms(2,3)])

lemma dup3_replaces:
  assumes "replaces_fds M opened" and "sys M ''DUP3'' [Val (scast (oldfd :: i32)), Val (scast newfd), Val fl] k = (ret, outs, k')"
  shows "replace_ret newfd (opened k) ret (opened k')"
  by (rule assms(1) [unfolded replaces_fds_def, THEN conjunct2, rule_format, OF assms(2)])

interpretation dup3_onto: fd_replacer "\<lambda>M. dup3 M oldfd newfd fl" newfd for oldfd newfd fl
proof
  fix M :: "'k mach" and opened k r k'
  assume kernel: "fd_kernel M opened" and run: "dup3 M oldfd newfd fl k = (r, k')"
  obtain ret outs k1 where call: "sys M ''DUP3'' [Val (scast oldfd), Val (scast newfd), Val (scast fl)] k = (ret, outs, k1)"
    using prod_cases3 by blast
  show "opened k' = (case r of Ok _ \<Rightarrow> insert newfd (opened k) | _ \<Rightarrow> opened k) \<and> r \<noteq> Panic"
    by (rule replace_ret_i32 [OF call dup3_replaces [OF fd_kernel_calls(3) [OF kernel] call] run [unfolded dup3_def]])
qed

interpretation dup2_onto: fd_replacer "\<lambda>M. dup2 M oldfd newfd" newfd for oldfd newfd
proof
  fix M :: "'k mach" and opened k r k'
  assume kernel: "fd_kernel M opened" and run: "dup2 M oldfd newfd k = (r, k')"
  note laws = fd_kernel_calls [OF kernel]
  show "opened k' = (case r of Ok _ \<Rightarrow> insert newfd (opened k) | _ \<Rightarrow> opened k) \<and> r \<noteq> Panic"
  proof (cases "m_arch M")
    case X86_64
    with run have run: "call_i32 M ''DUP2'' [Val (scast oldfd), Val (scast newfd)] k = (r, k')"
      by (simp add: dup2_def dup2_x86_64_def)
    obtain ret outs k1 where call: "sys M ''DUP2'' [Val (scast oldfd), Val (scast newfd)] k = (ret, outs, k1)"
      using prod_cases3 by blast
    show ?thesis by (rule replace_ret_i32 [OF call dup2_replaces [OF laws(3) X86_64 call] run])
  next
    case Aarch64
    show ?thesis
    proof (cases "oldfd = newfd")
      case True
      obtain ret outs k1 where call: "sys M ''FCNTL'' [Val (scast newfd), Val (scast F_GETFD), Val (scast (0 :: i32))] k = (ret, outs, k1)"
        using prod_cases3 by blast
      have k1: "opened k1 = opened k" and open_or: "newfd \<in> opened k \<or> (\<exists>m. errno_ret ret m)"
        using laws(1) [unfolded fcntl_fds_def, rule_format, OF call] by (simp_all add: duplicating_def F_GETFD_def F_DUPFD_CLOEXEC_def)
      have r: "r = map_res (\<lambda>_. newfd) (from_ret ret)" "k' = k1"
        using run Aarch64 True call
        by (cases "from_ret ret"; simp add: dup2_def dup2_aarch64_def fcntl_def call_i32_def io_bind_def io_return_def from_ret_i32_def)+
      show ?thesis
      proof (cases "from_ret ret")
        case (Ok v)
        with open_or from_ret_errno_ret have "newfd \<in> opened k" by fastforce
        with Ok show ?thesis unfolding r k1 by (simp add: insert_absorb)
      qed (simp_all add: r k1)
    next
      case False
      with run Aarch64 have run: "call_i32 M ''DUP3'' [Val (scast oldfd), Val (scast newfd), Val 0] k = (r, k')"
        by (simp add: dup2_def dup2_aarch64_def)
      obtain ret outs k1 where call: "sys M ''DUP3'' [Val (scast oldfd), Val (scast newfd), Val 0] k = (ret, outs, k1)"
        using prod_cases3 by blast
      show ?thesis by (rule replace_ret_i32 [OF call dup3_replaces [OF laws(3) call] run])
    qed
  qed
qed

section \<open>Clients\<close>

text \<open>What a client can ask for, and the function of the crate that does it.\<close>

datatype request =
    Open "byte list" i32 u32
  | Open_at i32 "byte list" i32 u32
  | Dup i32
  | Memfd "byte list" u32
  | Socket i32 i32 i32
  | Accept i32
  | Accept4_in i32 i32
  | Accept4_in6 i32 i32
  | Epoll i32
  | Eventfd u32 i32
  | Inotify_init i32
  | Timerfd i32 i32
  | Pidfd i32 u32
  | Pipe i32
  | Openpty
  | Fcntl i32 i32 i32
  | Signalfd i32 u64 i32
  | Resolve_a "byte list"
  | Resolve_aaaa "byte list"

fun perform :: "'k mach \<Rightarrow> request \<Rightarrow> ('k, i32 list) io" where
  "perform M (Open p fl md) = one_fd (fd_open M p fl md)"
| "perform M (Open_at dir p fl md) = one_fd (openat M dir p fl md)"
| "perform M (Dup fd) = one_fd (dup M fd)"
| "perform M (Memfd nm fl) = one_fd (memfd_create M nm fl)"
| "perform M (Socket d t p) = one_fd (socket M d t p)"
| "perform M (Accept fd) = one_fd (accept M fd)"
| "perform M (Accept4_in fd fl) = one_fd (io_bind (accept4_in M fd fl) (\<lambda>p. io_return (fst p)))"
| "perform M (Accept4_in6 fd fl) = one_fd (io_bind (accept4_in6 M fd fl) (\<lambda>p. io_return (fst p)))"
| "perform M (Epoll fl) = one_fd (epoll_create1 M fl)"
| "perform M (Eventfd v fl) = one_fd (eventfd M v fl)"
| "perform M (Inotify_init fl) = one_fd (inotify_init1 M fl)"
| "perform M (Timerfd c fl) = one_fd (timerfd_create M c fl)"
| "perform M (Pidfd pid fl) = one_fd (pidfd_open M pid fl)"
| "perform M (Pipe fl) = two_fds (pipe2 M fl)"
| "perform M Openpty = two_fds (openpty M)"
| "perform M (Fcntl fd cmd arg) = (if duplicating cmd then one_fd else no_fd) (fcntl M fd cmd arg)"
| "perform M (Signalfd fd msk fl) = (if fd = - 1 then one_fd else no_fd) (signalfd M fd msk fl)"
| "perform M (Resolve_a host) = no_fd (resolve_a M host)"
| "perform M (Resolve_aaaa host) = no_fd (resolve_aaaa M host)"

interpretation any_request: fd_source "\<lambda>M. perform M q" for q
  by unfold_locales
    (cases q, simp_all add: opened_path.accounts opened_at.accounts duplicate.accounts memfd.accounts new_socket.accounts
      accepted.accounts accepted_in.accounts accepted_in6.accounts new_epoll.accounts new_eventfd.accounts
      new_inotify.accounts new_timerfd.accounts new_pidfd.accounts new_pipe.accounts new_pty.accounts
      control.accounts signals.accounts resolver_a.accounts resolver_aaaa.accounts)

datatype replacement = Dup2 i32 i32 | Dup3 i32 i32 i32

fun target :: "replacement \<Rightarrow> i32" where
  "target (Dup2 oldfd newfd) = newfd"
| "target (Dup3 oldfd newfd fl) = newfd"

fun replace :: "'k mach \<Rightarrow> replacement \<Rightarrow> ('k, i32) io" where
  "replace M (Dup2 oldfd newfd) = dup2 M oldfd newfd"
| "replace M (Dup3 oldfd newfd fl) = dup3 M oldfd newfd fl"

interpretation any_replacement: fd_replacer "\<lambda>M. replace M q" "target q" for q
proof
  fix M :: "'k mach" and opened k r k'
  assume kernel: "fd_kernel M opened" and run: "replace M q k = (r, k')"
  show "opened k' = (case r of Ok _ \<Rightarrow> insert (target q) (opened k) | _ \<Rightarrow> opened k) \<and> r \<noteq> Panic"
  proof (cases q)
    case (Dup2 oldfd newfd)
    from dup2_onto.replaces [OF kernel, of oldfd newfd k r k'] run show ?thesis unfolding Dup2 target.simps by simp
  next
    case (Dup3 oldfd newfd fl)
    from dup3_onto.replaces [OF kernel, of oldfd newfd fl k r k'] run show ?thesis unfolding Dup3 target.simps by simp
  qed
qed

text \<open>
  The ledger of a client: the descriptors it inherited and has not replaced or closed, those it holds,
  and those that were lost; with it the cache of the clock function and the state of the kernel.
\<close>

record 'k client =
  inherited :: "i32 set"
  held :: "i32 set"
  lost :: "i32 set"
  cached :: usize
  world :: 'k

definition client_start :: "i32 set \<Rightarrow> 'k \<Rightarrow> 'k client" where
  "client_start fds k = \<lparr>inherited = fds, held = {}, lost = {}, cached = 0, world = k\<rparr>"

definition forget :: "i32 set \<Rightarrow> 'k client \<Rightarrow> 'k client" where
  "forget fds s = s\<lparr>inherited := inherited s - fds, held := held s - fds, lost := lost s - fds\<rparr>"

text \<open>
  A step of a client: a request that is granted or refused, a transfer over some descriptor, the
  closing of a descriptor it holds, a descriptor replaced, a range closed, or the clock read, which loses the
  descriptor of the auxiliary vector when it cannot be read.
\<close>

inductive client_step :: "'k mach \<Rightarrow> memory \<Rightarrow> 'k vdso_fn \<Rightarrow> 'k client \<Rightarrow> 'k client \<Rightarrow> bool"
  for M :: "'k mach" and mem :: memory and vfun :: "'k vdso_fn" where
  handed: "perform M q (world s) = (Ok fds, k) \<Longrightarrow> client_step M mem vfun s (s\<lparr>held := held s \<union> set fds, world := k\<rparr>)"
| refused: "perform M q (world s) = (Err e, k) \<Longrightarrow> client_step M mem vfun s (s\<lparr>world := k\<rparr>)"
| transfer_in: "read_all M fd buf (world s) = Some (r, out, k) \<Longrightarrow> client_step M mem vfun s (s\<lparr>world := k\<rparr>)"
| transfer_out: "write_all M fd buf (world s) = Some (w, k) \<Longrightarrow> client_step M mem vfun s (s\<lparr>world := k\<rparr>)"
| closed: "fd \<in> held s \<Longrightarrow> close M fd (world s) = (w, k) \<Longrightarrow>
    client_step M mem vfun s (s\<lparr>held := held s - {fd}, world := k\<rparr>)"
| replaced: "replace M p (world s) = (Ok fd, k) \<Longrightarrow>
    client_step M mem vfun s ((forget {target p} s)\<lparr>held := insert (target p) (held s), world := k\<rparr>)"
| not_replaced: "replace M p (world s) = (Err e, k) \<Longrightarrow> client_step M mem vfun s (s\<lparr>world := k\<rparr>)"
| cleared: "close_range M a b fl (world s) = (Ok (), k) \<Longrightarrow>
    client_step M mem vfun s ((forget (range_closed a b fl) s)\<lparr>world := k\<rparr>)"
| not_cleared: "close_range M a b fl (world s) = (Err e, k) \<Longrightarrow> client_step M mem vfun s (s\<lparr>world := k\<rparr>)"
| clock: "clock_gettime M mem vfun c (cached s, world s) = Some (r, cache, k) \<Longrightarrow>
    client_step M mem vfun s
      (s\<lparr>lost := lost s \<union> (if cached s = 0 then auxv_leak M (world s) else {}), cached := cache, world := k\<rparr>)"

text \<open>The open descriptors are those of the three parts of the ledger, which are disjoint.\<close>

definition exact :: "i32 set \<Rightarrow> i32 set \<Rightarrow> i32 set \<Rightarrow> i32 set \<Rightarrow> bool" where
  "exact fds I H L \<longleftrightarrow> fds = I \<union> H \<union> L \<and> I \<inter> H = {} \<and> (I \<union> H) \<inter> L = {}"

lemma exact_handed: "exact fds I H L \<Longrightarrow> fds \<inter> F = {} \<Longrightarrow> exact (fds \<union> F) I (H \<union> F) L"
  unfolding exact_def by blast

lemma exact_lost: "exact fds I H L \<Longrightarrow> fds \<inter> F = {} \<Longrightarrow> exact (fds \<union> F) I H (L \<union> F)"
  unfolding exact_def by blast

lemma exact_forget: "exact fds I H L \<Longrightarrow> exact (fds - F) (I - F) (H - F) (L - F)"
  unfolding exact_def by blast

lemma exact_closed: "exact fds I H L \<Longrightarrow> fd \<in> H \<Longrightarrow> exact (fds - {fd}) I (H - {fd}) L"
  unfolding exact_def by blast

lemma exact_replaced: "exact fds I H L \<Longrightarrow> exact (insert fd fds) (I - {fd}) (insert fd H) (L - {fd})"
  unfolding exact_def by blast

text \<open>
  The ledger is exact; at most one descriptor is lost, and after that the clock function is not
  looked for again.
\<close>

definition client_ok :: "('k \<Rightarrow> i32 set) \<Rightarrow> i32 set \<Rightarrow> 'k client \<Rightarrow> bool" where
  "client_ok opened base s \<longleftrightarrow> exact (opened (world s)) (inherited s) (held s) (lost s) \<and> inherited s \<subseteq> base
     \<and> (\<exists>fd. lost s \<subseteq> {fd}) \<and> (lost s \<noteq> {} \<longrightarrow> cached s = FAILED)"

lemma client_ok_world: "client_ok opened base s \<Longrightarrow> opened k = opened (world s) \<Longrightarrow> client_ok opened base (s\<lparr>world := k\<rparr>)"
  by (simp add: client_ok_def)

lemma client_ok_handed:
  assumes "client_ok opened base s" and "opened k = opened (world s) \<union> fds" and "opened (world s) \<inter> fds = {}"
  shows "client_ok opened base (s\<lparr>held := held s \<union> fds, world := k\<rparr>)"
  using assms by (simp add: client_ok_def exact_handed)

lemma client_ok_closed:
  assumes "client_ok opened base s" and "fd \<in> held s" and "opened k = opened (world s) - {fd}"
  shows "client_ok opened base (s\<lparr>held := held s - {fd}, world := k\<rparr>)"
  using assms by (simp add: client_ok_def exact_closed)

lemma client_ok_forget:
  assumes "client_ok opened base s" and "opened k = opened (world s) - fds"
  shows "client_ok opened base ((forget fds s)\<lparr>world := k\<rparr>)"
proof -
  obtain x where "lost s - fds \<subseteq> {x}" using assms(1) unfolding client_ok_def by blast
  with assms exact_forget [of "opened (world s)" "inherited s" "held s" "lost s" fds] show ?thesis
    by (auto simp: client_ok_def forget_def)
qed

lemma client_ok_replaced:
  assumes "client_ok opened base s" and "opened k = insert fd (opened (world s))"
  shows "client_ok opened base ((forget {fd} s)\<lparr>held := insert fd (held s), world := k\<rparr>)"
proof -
  obtain x where "lost s - {fd} \<subseteq> {x}" using assms(1) unfolding client_ok_def by blast
  with assms exact_replaced [of "opened (world s)" "inherited s" "held s" "lost s" fd] show ?thesis
    by (auto simp: client_ok_def forget_def)
qed

lemma client_ok_lost:
  assumes "client_ok opened base s" and "opened k = opened (world s) \<union> fds" and "opened (world s) \<inter> fds = {}"
    and "fds \<subseteq> {fd}" and "cached s = 0" and "fds \<noteq> {} \<longrightarrow> cache = FAILED"
  shows "client_ok opened base (s\<lparr>lost := lost s \<union> fds, cached := cache, world := k\<rparr>)"
proof -
  have "lost s = {}" using assms(1,5) by (auto simp: client_ok_def FAILED_def)
  with assms exact_lost [of "opened (world s)" "inherited s" "held s" "lost s" fds] show ?thesis
    unfolding client_ok_def by auto
qed

text \<open>The function of the vDSO runs in user space.\<close>

definition vdso_keeps :: "('k \<Rightarrow> i32 set) \<Rightarrow> 'k vdso_fn \<Rightarrow> bool" where
  "vdso_keeps opened vfun \<longleftrightarrow> (\<forall>f c k. opened (snd (snd (vfun f c k))) = opened k)"

lemma close_range_opened:
  assumes "closes_range M opened" and "close_range M a b fl k = (r, k')"
  shows "opened k' = (case r of Ok _ \<Rightarrow> opened k - range_closed a b fl | _ \<Rightarrow> opened k)"
proof -
  obtain ret outs k1 where call: "sys M ''CLOSE_RANGE'' [Val (ucast a), Val (ucast b), Val (ucast fl)] k = (ret, outs, k1)"
    using prod_cases3 by blast
  with assms(2) have r: "r = map_res (\<lambda>_. ()) (from_ret ret)" "k' = k1" by (simp_all add: close_range_def call_unit_def)
  from assms(1) [unfolded closes_range_def, rule_format, OF call] consider
      "ret = 0" "opened k1 = opened k - range_closed a b fl" | m where "errno_ret ret m" "opened k1 = opened k"
    by blast
  then show ?thesis
  proof cases
    case 1
    then show ?thesis unfolding r by (simp add: from_ret_def ERRNO_MAX_def)
  next
    case 2
    then show ?thesis unfolding r by (simp add: from_ret_errno_ret)
  qed
qed

lemma clock_gettime_opened:
  assumes kernel: "fd_kernel M opened" and vdso: "vdso_keeps opened vfun"
    and "clock_gettime M mem vfun cl (c, k) = Some (r, c', k')"
  shows "\<exists>k1 q. clock_gettime_fn M mem (c, k) = Some (q, c', k1) \<and> opened k' = opened k1"
proof -
  obtain q k1 where fn: "clock_gettime_fn M mem (c, k) = Some (q, c', k1)"
    using assms(3) by (auto simp: clock_gettime_def split: option.splits res.splits prod.splits if_splits)
  have sysc: "clock_gettime_syscall M cl j = (v, j') \<Longrightarrow> opened j' = opened j" for j v j'
    using fd_kernelD(20) [OF kernel] by (auto simp: clock_gettime_syscall_def call_out_def dest: keeps_fdsD split: prod.splits)
  have vf: "vfun f cl j = (st, ts, j') \<Longrightarrow> opened j' = opened j" for f j st ts j'
    using vdso unfolding vdso_keeps_def by (metis snd_conv)
  show ?thesis
    using assms(3) fn sysc vf
    by (auto simp: clock_gettime_def split: option.splits res.splits prod.splits if_splits)
qed

lemma client_step_ledger:
  assumes "client_step M mem vfun s s'" and kernel: "fd_kernel M opened" and vdso: "vdso_keeps opened vfun"
    and "client_ok opened base s"
  shows "client_ok opened base s'"
  using assms(1,4)
proof (induction rule: client_step.induct)
  case (handed q s fds k)
  with any_request.handed_out [OF kernel handed(1)] show ?case by (simp add: client_ok_handed)
next
  case (refused q s e k)
  with any_request.refused_keeps [OF kernel refused(1)] show ?case by (simp add: client_ok_world)
next
  case (transfer_in fd buf s r out k)
  with read_all_opened [OF fd_kernelD(14) [OF kernel] transfer_in(1)] show ?case by (simp add: client_ok_world)
next
  case (transfer_out fd buf s w k)
  with write_all_opened [OF fd_kernelD(15) [OF kernel] transfer_out(1)] show ?case by (simp add: client_ok_world)
next
  case (closed fd s w k)
  with close_opened [OF fd_kernelD(12) [OF kernel], of fd "world s"] show ?case by (simp add: client_ok_closed)
next
  case (replaced p s fd k)
  with any_replacement.replaced [OF kernel replaced(1)] show ?case by (simp add: client_ok_replaced)
next
  case (not_replaced p s e k)
  with any_replacement.refused_keeps [OF kernel not_replaced(1)] show ?case by (simp add: client_ok_world)
next
  case (cleared a b fl s k)
  with close_range_opened [OF fd_kernel_calls(4) [OF kernel] cleared(1)] show ?case by (simp add: client_ok_forget)
next
  case (not_cleared a b fl s e k)
  with close_range_opened [OF fd_kernel_calls(4) [OF kernel] not_cleared(1)] show ?case by (simp add: client_ok_world)
next
  case (clock c s r cache k)
  obtain k1 q where fn: "clock_gettime_fn M mem (cached s, world s) = Some (q, cache, k1)" and k: "opened k = opened k1"
    using clock_gettime_opened [OF kernel vdso clock(1)] by blast
  note law = clock_gettime_fn_opened [OF fd_kernelD(1,14,12) [OF kernel] fn]
  show ?case
  proof (cases "cached s = 0")
    case True
    with law obtain fd where "auxv_leak M (world s) \<subseteq> {fd}" by auto
    with law True k clock(2) show ?thesis by (simp add: client_ok_lost)
  next
    case False
    with law k clock(2) show ?thesis by (simp add: client_ok_world)
  qed
qed

text \<open>
  C6: the ledger of a client is exact in every reachable state: whatever the client has asked of the
  modules of the crate, in any order and with any failures, the descriptors open are those it
  inherited and has not itself replaced or closed, those it was handed and has not closed, and at most one
  that reading the clock has lost. So a client that closes what it was handed leaves the process
  as it was but for that one. No request panics on the way.
\<close>
theorem client_ledger:
  assumes "fd_kernel M opened" and "vdso_keeps opened vfun"
    and "(client_step M mem vfun)\<^sup>*\<^sup>* (client_start (opened k0) k0) s"
  shows "opened (world s) = inherited s \<union> held s \<union> lost s
    \<and> inherited s \<inter> held s = {} \<and> (inherited s \<union> held s) \<inter> lost s = {} \<and> inherited s \<subseteq> opened k0
    \<and> (\<exists>fd. lost s \<subseteq> {fd}) \<and> (\<forall>q. fst (perform M q (world s)) \<noteq> Panic)"
proof -
  have "client_ok opened (opened k0) s"
    using assms(3)
  proof (induction rule: rtranclp_induct)
    case base
    show ?case by (simp add: client_ok_def exact_def client_start_def)
  next
    case (step y z)
    then show ?case using client_step_ledger assms(1,2) by blast
  qed
  then show ?thesis using any_request.no_panic [OF assms(1)] by (simp add: client_ok_def exact_def)
qed

text \<open>
  A client that opens a file, makes 7 a copy of its descriptor, reads the clock on a system whose auxiliary vector
  cannot be read, and closes the file. It has 0 from the start, 7 is its own and 4 is lost.
\<close>

lemma maker_nrs:
  "nr X86_64 ''ACCEPT'' = 43" "nr X86_64 ''ACCEPT4'' = 288" "nr X86_64 ''DUP'' = 32" "nr X86_64 ''MEMFD_CREATE'' = 319"
  "nr X86_64 ''EPOLL_CREATE1'' = 291" "nr X86_64 ''EVENTFD2'' = 290" "nr X86_64 ''INOTIFY_INIT1'' = 294"
  "nr X86_64 ''TIMERFD_CREATE'' = 283" "nr X86_64 ''PIDFD_OPEN'' = 434" "nr X86_64 ''PIPE2'' = 293" "nr X86_64 ''WRITE'' = 1"
  "nr X86_64 ''FCNTL'' = 72" "nr X86_64 ''SIGNALFD4'' = 289" "nr X86_64 ''DUP2'' = 33" "nr X86_64 ''DUP3'' = 292"
  "nr X86_64 ''CLOSE_RANGE'' = 436" "nr X86_64 ''CLOCK_GETTIME'' = 228"
proof -
  show "nr X86_64 ''ACCEPT'' = 43" using nr_x86_64_at [of 92] by (simp add: nr_x86_64_def)
  show "nr X86_64 ''ACCEPT4'' = 288" using nr_x86_64_at [of 98] by (simp add: nr_x86_64_def)
  show "nr X86_64 ''DUP'' = 32" using nr_x86_64_at [of 24] by (simp add: nr_x86_64_def)
  show "nr X86_64 ''MEMFD_CREATE'' = 319" using nr_x86_64_at [of 30] by (simp add: nr_x86_64_def)
  show "nr X86_64 ''EPOLL_CREATE1'' = 291" using nr_x86_64_at [of 110] by (simp add: nr_x86_64_def)
  show "nr X86_64 ''EVENTFD2'' = 290" using nr_x86_64_at [of 109] by (simp add: nr_x86_64_def)
  show "nr X86_64 ''INOTIFY_INIT1'' = 294" using nr_x86_64_at [of 113] by (simp add: nr_x86_64_def)
  show "nr X86_64 ''TIMERFD_CREATE'' = 283" using nr_x86_64_at [of 66] by (simp add: nr_x86_64_def)
  show "nr X86_64 ''PIDFD_OPEN'' = 434" using nr_x86_64_at [of 87] by (simp add: nr_x86_64_def)
  show "nr X86_64 ''PIPE2'' = 293" using nr_x86_64_at [of 81] by (simp add: nr_x86_64_def)
  show "nr X86_64 ''WRITE'' = 1" using nr_x86_64_at [of 1] by (simp add: nr_x86_64_def)
  show "nr X86_64 ''FCNTL'' = 72" using nr_x86_64_at [of 34] by (simp add: nr_x86_64_def)
  show "nr X86_64 ''SIGNALFD4'' = 289" using nr_x86_64_at [of 64] by (simp add: nr_x86_64_def)
  show "nr X86_64 ''DUP2'' = 33" using nr_x86_64_at [of 25] by (simp add: nr_x86_64_def)
  show "nr X86_64 ''DUP3'' = 292" using nr_x86_64_at [of 80] by (simp add: nr_x86_64_def)
  show "nr X86_64 ''CLOSE_RANGE'' = 436" using nr_x86_64_at [of 103] by (simp add: nr_x86_64_def)
  show "nr X86_64 ''CLOCK_GETTIME'' = 228" using nr_x86_64_at [of 65] by (simp add: nr_x86_64_def)
qed

lemma three_fds_kernel: "fd_kernel three_fds set"
proof -
  have eio: "errno_ret (- 5) 5" and ebadf: "errno_ret (- 9) 9" by (simp_all add: errno_ret_def)
  have other: "sys three_fds ''PIPE2'' args k = (- 5, args, k)" "sys three_fds ''FCNTL'' args k = (- 5, args, k)"
    "sys three_fds ''SIGNALFD4'' args k = (- 5, args, k)" "sys three_fds ''CLOSE_RANGE'' args k = (- 5, args, k)"
    "sys three_fds ''DUP3'' args k = (- 5, args, k)" for args k
    by (simp_all add: sys_def three_fds_def maker_nrs)
  have dup2: "sys three_fds ''DUP2'' [Val (scast oldfd), Val (scast newfd)] k =
      (if oldfd \<in> set k \<and> 0 \<le> sint newfd then (scast newfd, [Val (scast oldfd), Val (scast newfd)], List.insert newfd k)
       else (- 9, [Val (scast oldfd), Val (scast newfd)], k))" for oldfd newfd :: i32 and k
    by (simp add: sys_def three_fds_def maker_nrs ucast_scast_i32)
  have pipe: "makes_pipe three_fds set" and range: "closes_range three_fds set"
    using eio unfolding makes_pipe_def closes_range_def other by blast+
  have fcntl: "fcntl_fds three_fds set" and signals: "signalfd_fds three_fds set"
    using eio by (simp_all add: fcntl_fds_def signalfd_fds_def new_fd_ret_def other) blast+
  have "replaces_fds three_fds set"
    unfolding replaces_fds_def replace_ret_def dup2 other using eio ebadf by (auto split: if_splits)
  moreover have "fills_buf three_fds s 1" if "s = ''READ'' \<or> s = ''RECVFROM''" for s
    using that by (auto simp: fills_buf_def sys_def three_fds_def fd_nrs out_bytes_def from_ret_def ERRNO_MAX_def)
  ultimately show ?thesis
    using pipe range fcntl signals
    by (simp add: fd_kernel_def three_fds_accounting three_fds_makes three_fds_keeps three_fds_ioctl maker_nrs fd_nrs)
qed

theorem client_ledger_witness:
  "\<exists>s. (client_step three_fds (\<lambda>_. 0) (\<lambda>f c k. (- 1, \<lparr>tv_sec = 0, tv_nsec = 0\<rparr>, k)))\<^sup>*\<^sup>* (client_start {0} [0]) s
     \<and> set (world s) = inherited s \<union> held s \<union> lost s \<and> inherited s = {0} \<and> held s = {7} \<and> lost s = {4}"
proof -
  let ?v = "\<lambda>f c k. (- 1, \<lparr>tv_sec = 0, tv_nsec = 0\<rparr>, k)"
  let ?step = "client_step three_fds (\<lambda>_. 0) ?v"
  note eval = fd_open_def openat_def dup2_def dup2_x86_64_def close_def call_i32_def call_unit_def sys_def three_fds_def fd_nrs maker_nrs
    from_ret_i32_def from_ret_def ERRNO_MAX_def one_fd_def io_bind_def io_return_def
  have open4: "fd_open three_fds auxv_path O_RDONLY 0 [7, 3, 0] = (Ok 4, [4, 7, 3, 0])" by (simp add: eval)
  have leak: "auxv_leak three_fds [7, 3, 0] = {4}" by (simp add: auxv_leak_def open4 three_fds_read_all)
  have base: "vdso_base three_fds [7, 3, 0] = Some (Ok None, [4, 7, 3, 0])"
    by (simp add: vdso_base_def open4 three_fds_read_all)
  have "clock_gettime_syscall three_fds 0 k = (Err (Errno 5), k)" for k
    by (simp add: clock_gettime_syscall_def call_out_def eval)
  with base have time: "clock_gettime three_fds (\<lambda>_. 0) ?v 0 (0, [7, 3, 0]) = Some (Err (Errno 5), FAILED, [4, 7, 3, 0])"
    by (simp add: clock_gettime_def clock_gettime_fn_def resolve_def FAILED_def)
  let ?s = "\<lambda>H L c k. \<lparr>inherited = {0}, held = H, lost = L, cached = c, world = k\<rparr>"
  have p1: "perform three_fds (Open [47] 0 0) [0] = (Ok [3], [3, 0])" and p2: "replace three_fds (Dup2 3 7) [3, 0] = (Ok 7, [7, 3, 0])"
    and p4: "close three_fds 3 [4, 7, 3, 0] = (Ok (), [4, 7, 0])"
    by (simp_all add: eval)
  have s1: "?step (?s {} {} 0 [0]) (?s {3} {} 0 [3, 0])"
    using client_step.handed [of three_fds _ "?s {} {} 0 [0]", simplified, OF p1] by simp
  have s2: "?step (?s {3} {} 0 [3, 0]) (?s {7, 3} {} 0 [7, 3, 0])"
    using client_step.replaced [of three_fds _ "?s {3} {} 0 [3, 0]", simplified, OF p2] by (simp add: forget_def)
  have s3: "?step (?s {7, 3} {} 0 [7, 3, 0]) (?s {7, 3} {4} FAILED [4, 7, 3, 0])"
    using client_step.clock [of three_fds _ _ _ "?s {7, 3} {} 0 [7, 3, 0]", simplified, OF time] by (simp add: leak)
  have s4: "?step (?s {7, 3} {4} FAILED [4, 7, 3, 0]) (?s {7} {4} FAILED [4, 7, 0])"
    using client_step.closed [of 3 "?s {7, 3} {4} FAILED [4, 7, 3, 0]" three_fds, simplified, OF p4] by (simp add: insert_Diff_if)
  have run: "?step\<^sup>*\<^sup>* (client_start (set [0]) [0]) (?s {7} {4} FAILED [4, 7, 0])"
    unfolding client_start_def by simp
      (intro converse_rtranclp_into_rtranclp [of ?step, OF s1] converse_rtranclp_into_rtranclp [of ?step, OF s2]
        converse_rtranclp_into_rtranclp [of ?step, OF s3] r_into_rtranclp [of ?step, OF s4])
  have "vdso_keeps set ?v" by (simp add: vdso_keeps_def)
  from client_ledger [OF three_fds_kernel this run] run show ?thesis by (intro exI [of _ "?s {7} {4} FAILED [4, 7, 0]"]) simp
qed

end
