(* ===== verification/Wait.thy ===== *)
theory Wait
  imports Fd
begin

text \<open>
  Waiting for children (\<open>src/wait.rs\<close>): the \<open>wait4\<close>/\<open>waitid\<close>/\<open>getrusage\<close> wrappers with the structs
  they fill, and the pure decoders of a wait status, proved against the kernel's encoding of the
  four kinds of child event.
\<close>

section \<open>Constants\<close>

definition wait_options :: "(string \<times> i32) list" where
  "wait_options = [(''WNOHANG'', 1), (''WUNTRACED'', 2), (''WCONTINUED'', 8)]"

definition rusage_who :: "(string \<times> i32) list" where
  "rusage_who = [(''RUSAGE_SELF'', 0), (''RUSAGE_CHILDREN'', - 1)]"

definition waitid_idtypes :: "(string \<times> i32) list" where
  "waitid_idtypes = [(''P_ALL'', 0), (''P_PID'', 1), (''P_PGID'', 2), (''P_PIDFD'', 3)]"

definition waitid_options :: "(string \<times> i32) list" where
  "waitid_options = [(''WEXITED'', 4), (''WSTOPPED'', 2), (''WNOWAIT'', 0x01000000)]"

definition cld_codes :: "(string \<times> i32) list" where
  "cld_codes = [(''CLD_EXITED'', 1), (''CLD_KILLED'', 2), (''CLD_DUMPED'', 3), (''CLD_TRAPPED'', 4),
     (''CLD_STOPPED'', 5), (''CLD_CONTINUED'', 6)]"

section \<open>Structs\<close>

record Timeval =
  tv_sec :: i64
  tv_usec :: i64

definition Timeval_fields :: "(string \<times> cty) list" where
  "Timeval_fields =
    [(''tv_sec'', U64), (''tv_usec'', U64)]"

definition Timeval_parts :: "Timeval \<Rightarrow> byte list list" where
  "Timeval_parts x =
    [le_bytes 8 (tv_sec x), le_bytes 8 (tv_usec x)]"

definition Timeval_build :: "byte list list \<Rightarrow> Timeval" where
  "Timeval_build bs =
    \<lparr>tv_sec = le_word (bs ! 0), tv_usec = le_word (bs ! 1)\<rparr>"

abbreviation "enc_Timeval \<equiv> struct_enc Timeval_fields Timeval_parts"
abbreviation "dec_Timeval \<equiv> struct_dec Timeval_fields Timeval_build"

interpretation timeval: struct_codec Timeval_fields "\<lambda>_. True" Timeval_parts Timeval_build 16
  by (unfold_locales)
    (auto simp: Timeval_fields_def Timeval_parts_def Timeval_build_def round_up_def codec_simps)

record Rusage =
  ru_utime :: Timeval
  ru_stime :: Timeval
  ru_maxrss :: i64
  ru_ixrss :: i64
  ru_idrss :: i64
  ru_isrss :: i64
  ru_minflt :: i64
  ru_majflt :: i64
  ru_nswap :: i64
  ru_inblock :: i64
  ru_oublock :: i64
  ru_msgsnd :: i64
  ru_msgrcv :: i64
  ru_nsignals :: i64
  ru_nvcsw :: i64
  ru_nivcsw :: i64

definition Rusage_fields :: "(string \<times> cty) list" where
  "Rusage_fields =
    [(''utime'', Struct Timeval_fields), (''stime'', Struct Timeval_fields),
     (''maxrss'', U64), (''ixrss'', U64), (''idrss'', U64), (''isrss'', U64),
     (''minflt'', U64), (''majflt'', U64), (''nswap'', U64), (''inblock'', U64),
     (''oublock'', U64), (''msgsnd'', U64), (''msgrcv'', U64), (''nsignals'', U64),
     (''nvcsw'', U64), (''nivcsw'', U64)]"

definition Rusage_parts :: "Rusage \<Rightarrow> byte list list" where
  "Rusage_parts x =
    [enc_Timeval (ru_utime x), enc_Timeval (ru_stime x), le_bytes 8 (ru_maxrss x),
     le_bytes 8 (ru_ixrss x), le_bytes 8 (ru_idrss x), le_bytes 8 (ru_isrss x),
     le_bytes 8 (ru_minflt x), le_bytes 8 (ru_majflt x), le_bytes 8 (ru_nswap x),
     le_bytes 8 (ru_inblock x), le_bytes 8 (ru_oublock x), le_bytes 8 (ru_msgsnd x),
     le_bytes 8 (ru_msgrcv x), le_bytes 8 (ru_nsignals x), le_bytes 8 (ru_nvcsw x),
     le_bytes 8 (ru_nivcsw x)]"

definition Rusage_build :: "byte list list \<Rightarrow> Rusage" where
  "Rusage_build bs =
    \<lparr>ru_utime = dec_Timeval (bs ! 0), ru_stime = dec_Timeval (bs ! 1),
     ru_maxrss = le_word (bs ! 2), ru_ixrss = le_word (bs ! 3), ru_idrss = le_word (bs ! 4),
     ru_isrss = le_word (bs ! 5), ru_minflt = le_word (bs ! 6), ru_majflt = le_word (bs ! 7),
     ru_nswap = le_word (bs ! 8), ru_inblock = le_word (bs ! 9),
     ru_oublock = le_word (bs ! 10), ru_msgsnd = le_word (bs ! 11),
     ru_msgrcv = le_word (bs ! 12), ru_nsignals = le_word (bs ! 13),
     ru_nvcsw = le_word (bs ! 14), ru_nivcsw = le_word (bs ! 15)\<rparr>"

abbreviation "enc_Rusage \<equiv> struct_enc Rusage_fields Rusage_parts"
abbreviation "dec_Rusage \<equiv> struct_dec Rusage_fields Rusage_build"

lemma Rusage_size: "size_of (Struct Rusage_fields) = 144"
  by (simp add: Rusage_fields_def Timeval_fields_def round_up_def)

interpretation rusage: struct_codec Rusage_fields "\<lambda>_. True" Rusage_parts Rusage_build 144
  by (unfold_locales; (rule Rusage_size)?)
    (auto simp: Rusage_fields_def Rusage_parts_def Rusage_build_def codec_simps
       timeval.struct_size timeval.length_enc timeval.dec_enc simp del: size_of.simps(6))

record Siginfo =
  si_signo :: i32
  si_errno :: i32
  si_code :: i32
  pad0 :: i32
  si_pid :: i32
  si_uid :: u32
  si_status :: i32
  pad :: "byte list"

definition Siginfo_fields :: "(string \<times> cty) list" where
  "Siginfo_fields =
    [(''si_signo'', U32), (''si_errno'', U32), (''si_code'', U32), (''pad0'', U32),
     (''si_pid'', U32), (''si_uid'', U32), (''si_status'', U32), (''pad'', Arr 100 U8)]"

definition Siginfo_ok :: "Siginfo \<Rightarrow> bool" where
  "Siginfo_ok x \<longleftrightarrow> length (pad x) = 100"

definition Siginfo_parts :: "Siginfo \<Rightarrow> byte list list" where
  "Siginfo_parts x =
    [le_bytes 4 (si_signo x), le_bytes 4 (si_errno x), le_bytes 4 (si_code x),
     le_bytes 4 (pad0 x), le_bytes 4 (si_pid x), le_bytes 4 (si_uid x),
     le_bytes 4 (si_status x), pad x]"

definition Siginfo_build :: "byte list list \<Rightarrow> Siginfo" where
  "Siginfo_build bs =
    \<lparr>si_signo = le_word (bs ! 0), si_errno = le_word (bs ! 1), si_code = le_word (bs ! 2),
     pad0 = le_word (bs ! 3), si_pid = le_word (bs ! 4), si_uid = le_word (bs ! 5),
     si_status = le_word (bs ! 6), pad = bs ! 7\<rparr>"

abbreviation "enc_Siginfo \<equiv> struct_enc Siginfo_fields Siginfo_parts"
abbreviation "dec_Siginfo \<equiv> struct_dec Siginfo_fields Siginfo_build"

lemma Siginfo_ok_build: "fits Siginfo_fields bs \<Longrightarrow> Siginfo_ok (Siginfo_build bs)"
  using fits_nth [of Siginfo_fields bs 7]
  by (simp add: Siginfo_ok_def Siginfo_build_def Siginfo_fields_def)

interpretation siginfo: struct_codec Siginfo_fields Siginfo_ok Siginfo_parts Siginfo_build 128
  by (unfold_locales; (erule Siginfo_ok_build)?)
    (auto simp: Siginfo_fields_def Siginfo_parts_def Siginfo_build_def Siginfo_ok_def round_up_def codec_simps)

definition Siginfo_default :: Siginfo where
  "Siginfo_default = \<lparr>si_signo = 0, si_errno = 0, si_code = 0, pad0 = 0, si_pid = 0, si_uid = 0,
     si_status = 0, pad = replicate 100 0\<rparr>"

text \<open>\<open>Rusage::default()\<close> is derived: every field zero.\<close>

definition Timeval_default :: Timeval where
  "Timeval_default = \<lparr>tv_sec = 0, tv_usec = 0\<rparr>"

definition Rusage_default :: Rusage where
  "Rusage_default = \<lparr>ru_utime = Timeval_default, ru_stime = Timeval_default, ru_maxrss = 0, ru_ixrss = 0,
     ru_idrss = 0, ru_isrss = 0, ru_minflt = 0, ru_majflt = 0, ru_nswap = 0, ru_inblock = 0,
     ru_oublock = 0, ru_msgsnd = 0, ru_msgrcv = 0, ru_nsignals = 0, ru_nvcsw = 0, ru_nivcsw = 0\<rparr>"

section \<open>System calls\<close>

definition waitpid :: "'k mach \<Rightarrow> i32 \<Rightarrow> i32 \<Rightarrow> ('k, i32 \<times> i32) io" where
  "waitpid M pid options =
     call_i32_out M ''WAIT4'' [Val (scast pid), MutPtr (le_bytes 4 (0 :: i32)), Val (scast options), Val 0]
       (\<lambda>child outs. (child, le_word (out_bytes outs 1)))"

definition getrusage :: "'k mach \<Rightarrow> i32 \<Rightarrow> ('k, Rusage) io" where
  "getrusage M who =
     call_out M ''GETRUSAGE'' [Val (scast who), MutPtr (enc_Rusage Rusage_default)]
       (\<lambda>outs. dec_Rusage (out_bytes outs 1))"

definition waitpid_rusage :: "'k mach \<Rightarrow> i32 \<Rightarrow> i32 \<Rightarrow> ('k, i32 \<times> i32 \<times> Rusage) io" where
  "waitpid_rusage M pid options =
     call_i32_out M ''WAIT4''
       [Val (scast pid), MutPtr (le_bytes 4 (0 :: i32)), Val (scast options),
        MutPtr (enc_Rusage Rusage_default)]
       (\<lambda>child outs. (child, le_word (out_bytes outs 1), dec_Rusage (out_bytes outs 3)))"

definition waitid :: "'k mach \<Rightarrow> i32 \<Rightarrow> i32 \<Rightarrow> i32 \<Rightarrow> ('k, Siginfo) io" where
  "waitid M idtype ident options =
     call_out M ''WAITID''
       [Val (scast idtype), Val (scast ident), MutPtr (enc_Siginfo Siginfo_default), Val (scast options), Val 0]
       (\<lambda>outs. dec_Siginfo (out_bytes outs 2))"

definition waitid_rusage :: "'k mach \<Rightarrow> i32 \<Rightarrow> i32 \<Rightarrow> i32 \<Rightarrow> ('k, Siginfo \<times> Rusage) io" where
  "waitid_rusage M idtype ident options =
     call_out M ''WAITID''
       [Val (scast idtype), Val (scast ident), MutPtr (enc_Siginfo Siginfo_default), Val (scast options),
        MutPtr (enc_Rusage Rusage_default)]
       (\<lambda>outs. (dec_Siginfo (out_bytes outs 2), dec_Rusage (out_bytes outs 4)))"

section \<open>Status decoders\<close>

definition wifexited :: "i32 \<Rightarrow> bool" where
  "wifexited status \<longleftrightarrow> status AND 0x7f = 0"

definition wexitstatus :: "i32 \<Rightarrow> i32" where
  "wexitstatus status = signed_drop_bit 8 status AND 0xff"

definition wifsignaled :: "i32 \<Rightarrow> bool" where
  "wifsignaled status \<longleftrightarrow> (let sig = status AND 0x7f in sig \<noteq> 0 \<and> sig \<noteq> 0x7f)"

definition wtermsig :: "i32 \<Rightarrow> i32" where
  "wtermsig status = status AND 0x7f"

definition wifstopped :: "i32 \<Rightarrow> bool" where
  "wifstopped status \<longleftrightarrow> status AND 0xff = 0x7f"

definition wstopsig :: "i32 \<Rightarrow> i32" where
  "wstopsig status = signed_drop_bit 8 status AND 0xff"

definition wifcontinued :: "i32 \<Rightarrow> bool" where
  "wifcontinued status \<longleftrightarrow> status = 0xffff"

section \<open>Results\<close>

text \<open>
  The kernel's encoding of a child's change of state: an exit code in bits 8 to 15; a terminating
  signal in bits 0 to 6 with the core-dump flag in bit 7; a stop signal in bits 8 to 15 over
  \<open>0x7f\<close>; and \<open>0xffff\<close> for a continued child.
\<close>

datatype child_event = Exited byte | Signaled byte bool | Stopped byte | Continued

fun status_of :: "child_event \<Rightarrow> i32" where
  "status_of (Exited c) = push_bit 8 (ucast c)"
| "status_of (Signaled sig core) = ucast sig OR (if core then 0x80 else 0)"
| "status_of (Stopped sig) = push_bit 8 (ucast sig) OR 0x7f"
| "status_of Continued = 0xffff"

fun valid_event :: "child_event \<Rightarrow> bool" where
  "valid_event (Signaled sig core) \<longleftrightarrow> 0 < sig \<and> sig < 0x7f"
| "valid_event _ \<longleftrightarrow> True"

lemma and_masks:
  "x AND 0x7f = take_bit 7 (x :: i32)" "x AND 0xff = take_bit 8 (x :: i32)"
  by (simp_all add: take_bit_eq_mask mask_eq_exp_minus_1)

lemma status_byte_high:
  "take_bit 8 (signed_drop_bit 8 (push_bit 8 (ucast (c :: byte)) OR lo :: i32)) = ucast c"
  if "take_bit 8 lo = lo"
proof (rule bit_word_eqI)
  fix i assume "i < LENGTH(32)"
  moreover have "\<not> bit lo (i + 8)"
    using that by (metis bit_take_bit_iff le_add2 not_le)
  ultimately show "bit (take_bit 8 (signed_drop_bit 8 (push_bit 8 (ucast c) OR lo :: i32))) i
      = bit (ucast c :: i32) i"
    by (auto simp: bit_simps min_def add.commute dest: bit_byte_lt)
qed

lemma take_bit_byte: "8 \<le> n \<Longrightarrow> take_bit n (ucast (c :: byte) :: i32) = ucast c"
  by (rule bit_word_eqI) (auto simp: bit_simps dest: bit_byte_lt)

lemma take_bit_status:
  "n \<le> 8 \<Longrightarrow> take_bit n (push_bit 8 (ucast (c :: byte)) OR lo :: i32) = take_bit n lo"
  by (rule bit_word_eqI) (auto simp: bit_simps)

lemma take_bit_7_sig:
  assumes "sig < (0x7f :: byte)"
  shows "take_bit 7 (ucast sig OR (if core then 0x80 else 0) :: i32) = ucast sig"
proof -
  have "take_bit 7 (0x80 :: i32) = 0" by simp
  then have hi: "take_bit 7 (if core then 0x80 else 0 :: i32) = 0" by simp
  have "take_bit 7 sig = sig"
    using assms
    by (simp add: word_unat_eq_iff unsigned_take_bit_eq take_bit_nat_eq_self word_less_nat_alt)
  then have "take_bit 7 (ucast sig :: i32) = ucast sig"
    by (metis unsigned_take_bit_eq)
  with hi show ?thesis by (simp add: take_bit_or)
qed

lemma sig_byte_status:
  "take_bit 8 (ucast (sig :: byte) OR (if core then 0x80 else 0) :: i32)
   = ucast sig OR (if core then 0x80 else 0)"
  by (simp add: take_bit_or take_bit_byte)

lemma ucast_byte_eq: "(ucast (a :: byte) :: i32) = ucast b \<longleftrightarrow> a = b"
proof -
  have "(ucast (ucast c :: i32) :: byte) = c" for c
    by (rule bit_word_eqI) (auto simp: bit_simps)
  then show ?thesis by metis
qed

lemma sig_not_stop:
  assumes "sig < (0x7f :: byte)"
  shows "ucast sig OR (if core then 0x80 else 0) \<noteq> (0x7f :: i32)"
proof
  assume "ucast sig OR (if core then 0x80 else 0) = (0x7f :: i32)"
  then have "ucast sig = take_bit 7 (0x7f :: i32)" using take_bit_7_sig [OF assms, of core] by simp
  then have "ucast sig = (ucast (0x7f :: byte) :: i32)" by simp
  with assms show False unfolding ucast_byte_eq by simp
qed

lemma status_decoded:
  assumes "valid_event ev"
  shows "(wifexited (status_of ev) \<longleftrightarrow> (\<exists>c. ev = Exited c))
   \<and> (wifsignaled (status_of ev) \<longleftrightarrow> (\<exists>sig core. ev = Signaled sig core))
   \<and> (wifstopped (status_of ev) \<longleftrightarrow> (\<exists>sig. ev = Stopped sig))
   \<and> (wifcontinued (status_of ev) \<longleftrightarrow> ev = Continued)
   \<and> (case ev of Exited c \<Rightarrow> wexitstatus (status_of ev) = ucast c
      | Signaled sig core \<Rightarrow> wtermsig (status_of ev) = ucast sig
      | Stopped sig \<Rightarrow> wstopsig (status_of ev) = ucast sig
      | Continued \<Rightarrow> True)"
proof (cases ev)
  case (Exited c)
  then show ?thesis
    using status_byte_high [of 0 c] take_bit_status [of 7 c 0] take_bit_status [of 8 c 0]
    by (auto simp: wifexited_def wifsignaled_def wifstopped_def wifcontinued_def wexitstatus_def and_masks Let_def)
next
  case (Signaled sig core)
  let ?s = "ucast sig OR (if core then 0x80 else 0) :: i32"
  from Signaled assms have sig: "0 < sig" "sig < 0x7f" by simp_all
  have nz: "(ucast sig :: i32) \<noteq> 0" and n7f: "(ucast sig :: i32) \<noteq> 0x7f"
    using sig ucast_byte_eq [of sig 0] ucast_byte_eq [of sig "0x7f"] by auto
  have "?s \<noteq> 0xffff"
  proof
    assume "?s = 0xffff"
    with sig_byte_status [of sig core] have "take_bit 8 0xffff = (0xffff :: i32)" by (simp only:)
    then show False by simp
  qed
  with Signaled nz n7f show ?thesis
    using take_bit_7_sig [OF sig(2), of core] sig_byte_status [of sig core] sig_not_stop [OF sig(2), of core]
    by (simp add: wifexited_def wifsignaled_def wifstopped_def wifcontinued_def wtermsig_def and_masks Let_def)
next
  case (Stopped sig)
  then show ?thesis
    using status_byte_high [of "0x7f" sig] take_bit_status [of 7 sig "0x7f"] take_bit_status [of 8 sig "0x7f"]
    by (auto simp: wifexited_def wifsignaled_def wifstopped_def wifcontinued_def wstopsig_def and_masks Let_def)
next
  case Continued
  then show ?thesis
    by (simp add: wifexited_def wifsignaled_def wifstopped_def wifcontinued_def and_masks Let_def)
qed

text \<open>
  C31: on the status of any child event the decoders agree with the kernel's encoding: exactly the
  predicate of the event's kind holds, and it yields the exit code, the terminating or the
  stopping signal that was encoded.
\<close>
theorem wait_status_decoded:
  assumes "valid_event ev"
  shows "(wifexited (status_of ev) \<longleftrightarrow> (\<exists>c. ev = Exited c))
   \<and> (wifsignaled (status_of ev) \<longleftrightarrow> (\<exists>sig core. ev = Signaled sig core))
   \<and> (wifstopped (status_of ev) \<longleftrightarrow> (\<exists>sig. ev = Stopped sig))
   \<and> (wifcontinued (status_of ev) \<longleftrightarrow> ev = Continued)
   \<and> (case ev of Exited c \<Rightarrow> wexitstatus (status_of ev) = ucast c
      | Signaled sig core \<Rightarrow> wtermsig (status_of ev) = ucast sig
      | Stopped sig \<Rightarrow> wstopsig (status_of ev) = ucast sig
      | Continued \<Rightarrow> True)"
  using assms by (rule status_decoded)

text \<open>A child that dumped core on signal 11.\<close>
theorem wait_status_decoded_witness:
  "wifsignaled (status_of (Signaled 11 True)) \<and> \<not> wifexited (status_of (Signaled 11 True))
   \<and> \<not> wifstopped (status_of (Signaled 11 True)) \<and> wtermsig (status_of (Signaled 11 True)) = 11"
proof -
  have "valid_event (Signaled 11 True)" by simp
  note post = wait_status_decoded [OF this]
  have "wtermsig (status_of (Signaled 11 True)) = 11" by (simp add: wtermsig_def)
  with post show ?thesis by auto
qed

text \<open>
  For every status word, whether or not the kernel produces it, at most one of the four
  predicates holds.
\<close>
lemma wait_status_exclusive:
  "\<not> (wifexited s \<and> wifsignaled s) \<and> \<not> (wifexited s \<and> wifstopped s) \<and> \<not> (wifexited s \<and> wifcontinued s)
   \<and> \<not> (wifsignaled s \<and> wifstopped s) \<and> \<not> (wifsignaled s \<and> wifcontinued s)
   \<and> \<not> (wifstopped s \<and> wifcontinued s)"
proof -
  have "take_bit 7 (take_bit 8 s) = take_bit 7 s" by simp
  then have "wifstopped s \<Longrightarrow> take_bit 7 s = 0x7f" by (simp add: wifstopped_def and_masks)
  then show ?thesis
    by (auto simp: wifexited_def wifsignaled_def wifstopped_def wifcontinued_def and_masks Let_def)
qed

text \<open>
  When the kernel reports success and leaves the result untouched, as with \<open>WNOHANG\<close> and no child
  ready, \<open>waitid\<close> returns a \<open>Siginfo\<close> whose \<open>si_pid\<close> is 0.
\<close>
lemma waitid_none_ready:
  assumes "\<And>args. sys M ''WAITID'' args k = (0, args, k')"
  shows "waitid M idtype ident options k = (Ok Siginfo_default, k') \<and> si_pid Siginfo_default = 0"
proof -
  have "Siginfo_ok Siginfo_default" by (simp add: Siginfo_ok_def Siginfo_default_def)
  then have "dec_Siginfo (enc_Siginfo Siginfo_default) = Siginfo_default" by (rule siginfo.dec_enc)
  with assms show ?thesis
    by (simp add: waitid_def call_out_def from_ret_def ERRNO_MAX_def out_bytes_def Siginfo_default_def)
qed

lemma waitid_none_ready_example:
  "fst (waitid \<lparr>m_arch = X86_64, m_kernel = \<lambda>n args k. (0, args, k)\<rparr> 0 0 5 ()) = Ok Siginfo_default
   \<and> si_pid Siginfo_default = 0"
  using waitid_none_ready [of "\<lparr>m_arch = X86_64, m_kernel = \<lambda>n args k. (0, args, k)\<rparr>" "()" "()" 0 0 5]
  by (simp add: sys_def)

end
