(* ===== verification/Ptrace.thy ===== *)
theory Ptrace
  imports Wait Signal
begin

text \<open>
  Tracing another process (\<open>src/ptrace.rs\<close>): the requests, the general registers of both
  architectures and the recognition of syscall stops.
\<close>

section \<open>Constants\<close>

definition PTRACE_TRACEME :: i32 where "PTRACE_TRACEME = 0"
definition PTRACE_CONT :: i32 where "PTRACE_CONT = 7"
definition PTRACE_SINGLESTEP :: i32 where "PTRACE_SINGLESTEP = 9"
definition PTRACE_DETACH :: i32 where "PTRACE_DETACH = 17"
definition PTRACE_SYSCALL :: i32 where "PTRACE_SYSCALL = 24"
definition PTRACE_SETOPTIONS :: i32 where "PTRACE_SETOPTIONS = 0x4200"
definition PTRACE_GETREGSET :: i32 where "PTRACE_GETREGSET = 0x4204"
definition PTRACE_SETREGSET :: i32 where "PTRACE_SETREGSET = 0x4205"
definition PTRACE_SEIZE :: i32 where "PTRACE_SEIZE = 0x4206"
definition NT_PRSTATUS :: i32 where "NT_PRSTATUS = 1"
definition PTRACE_O_EXITKILL :: i32 where "PTRACE_O_EXITKILL = push_bit 20 1"
definition PTRACE_O_TRACESYSGOOD :: i32 where "PTRACE_O_TRACESYSGOOD = 1"

definition SIGTRAP :: i32 where "SIGTRAP = 5"

section \<open>Registers\<close>

record GpRegs_x86_64 =
  x_r15 :: u64
  x_r14 :: u64
  x_r13 :: u64
  x_r12 :: u64
  x_rbp :: u64
  x_rbx :: u64
  x_r11 :: u64
  x_r10 :: u64
  x_r9 :: u64
  x_r8 :: u64
  x_rax :: u64
  x_rcx :: u64
  x_rdx :: u64
  x_rsi :: u64
  x_rdi :: u64
  x_orig_rax :: u64
  x_rip :: u64
  x_cs :: u64
  x_eflags :: u64
  x_rsp :: u64
  x_ss :: u64
  x_fs_base :: u64
  x_gs_base :: u64
  x_ds :: u64
  x_es :: u64
  x_fs :: u64
  x_gs :: u64

definition GpRegs_x86_64_fields :: "(string \<times> cty) list" where
  "GpRegs_x86_64_fields =
    [(''r15'', U64), (''r14'', U64), (''r13'', U64), (''r12'', U64), (''rbp'', U64),
     (''rbx'', U64), (''r11'', U64), (''r10'', U64), (''r9'', U64), (''r8'', U64),
     (''rax'', U64), (''rcx'', U64), (''rdx'', U64), (''rsi'', U64), (''rdi'', U64),
     (''orig_rax'', U64), (''rip'', U64), (''cs'', U64), (''eflags'', U64), (''rsp'', U64),
     (''ss'', U64), (''fs_base'', U64), (''gs_base'', U64), (''ds'', U64), (''es'', U64),
     (''fs'', U64), (''gs'', U64)]"

definition GpRegs_x86_64_parts :: "GpRegs_x86_64 \<Rightarrow> byte list list" where
  "GpRegs_x86_64_parts x =
    [le_bytes 8 (x_r15 x), le_bytes 8 (x_r14 x), le_bytes 8 (x_r13 x), le_bytes 8 (x_r12 x),
     le_bytes 8 (x_rbp x), le_bytes 8 (x_rbx x), le_bytes 8 (x_r11 x), le_bytes 8 (x_r10 x),
     le_bytes 8 (x_r9 x), le_bytes 8 (x_r8 x), le_bytes 8 (x_rax x), le_bytes 8 (x_rcx x),
     le_bytes 8 (x_rdx x), le_bytes 8 (x_rsi x), le_bytes 8 (x_rdi x),
     le_bytes 8 (x_orig_rax x), le_bytes 8 (x_rip x), le_bytes 8 (x_cs x),
     le_bytes 8 (x_eflags x), le_bytes 8 (x_rsp x), le_bytes 8 (x_ss x),
     le_bytes 8 (x_fs_base x), le_bytes 8 (x_gs_base x), le_bytes 8 (x_ds x),
     le_bytes 8 (x_es x), le_bytes 8 (x_fs x), le_bytes 8 (x_gs x)]"

definition GpRegs_x86_64_build :: "byte list list \<Rightarrow> GpRegs_x86_64" where
  "GpRegs_x86_64_build bs =
    \<lparr>x_r15 = le_word (bs ! 0), x_r14 = le_word (bs ! 1), x_r13 = le_word (bs ! 2),
     x_r12 = le_word (bs ! 3), x_rbp = le_word (bs ! 4), x_rbx = le_word (bs ! 5),
     x_r11 = le_word (bs ! 6), x_r10 = le_word (bs ! 7), x_r9 = le_word (bs ! 8),
     x_r8 = le_word (bs ! 9), x_rax = le_word (bs ! 10), x_rcx = le_word (bs ! 11),
     x_rdx = le_word (bs ! 12), x_rsi = le_word (bs ! 13), x_rdi = le_word (bs ! 14),
     x_orig_rax = le_word (bs ! 15), x_rip = le_word (bs ! 16), x_cs = le_word (bs ! 17),
     x_eflags = le_word (bs ! 18), x_rsp = le_word (bs ! 19), x_ss = le_word (bs ! 20),
     x_fs_base = le_word (bs ! 21), x_gs_base = le_word (bs ! 22), x_ds = le_word (bs ! 23),
     x_es = le_word (bs ! 24), x_fs = le_word (bs ! 25), x_gs = le_word (bs ! 26)\<rparr>"

abbreviation "enc_GpRegs_x86_64 \<equiv> struct_enc GpRegs_x86_64_fields GpRegs_x86_64_parts"
abbreviation "dec_GpRegs_x86_64 \<equiv> struct_dec GpRegs_x86_64_fields GpRegs_x86_64_build"

interpretation gpregs_x86_64: struct_codec GpRegs_x86_64_fields "\<lambda>_. True" GpRegs_x86_64_parts GpRegs_x86_64_build 216
  by (unfold_locales)
    (auto simp: GpRegs_x86_64_fields_def GpRegs_x86_64_parts_def GpRegs_x86_64_build_def round_up_def two_fold codec_simps)

record GpRegs_aarch64 =
  a_regs :: "u64 list"
  a_sp :: u64
  a_pc :: u64
  a_pstate :: u64

definition GpRegs_aarch64_fields :: "(string \<times> cty) list" where
  "GpRegs_aarch64_fields =
    [(''regs'', Arr 31 U64), (''sp'', U64), (''pc'', U64), (''pstate'', U64)]"

definition GpRegs_aarch64_ok :: "GpRegs_aarch64 \<Rightarrow> bool" where
  "GpRegs_aarch64_ok x \<longleftrightarrow> length (a_regs x) = 31"

definition GpRegs_aarch64_parts :: "GpRegs_aarch64 \<Rightarrow> byte list list" where
  "GpRegs_aarch64_parts x =
    [enc_array (le_bytes 8) (a_regs x), le_bytes 8 (a_sp x), le_bytes 8 (a_pc x),
     le_bytes 8 (a_pstate x)]"

definition GpRegs_aarch64_build :: "byte list list \<Rightarrow> GpRegs_aarch64" where
  "GpRegs_aarch64_build bs =
    \<lparr>a_regs = dec_array 8 le_word 31 (bs ! 0), a_sp = le_word (bs ! 1),
     a_pc = le_word (bs ! 2), a_pstate = le_word (bs ! 3)\<rparr>"

abbreviation "enc_GpRegs_aarch64 \<equiv> struct_enc GpRegs_aarch64_fields GpRegs_aarch64_parts"
abbreviation "dec_GpRegs_aarch64 \<equiv> struct_dec GpRegs_aarch64_fields GpRegs_aarch64_build"

lemma GpRegs_aarch64_ok_build: "fits GpRegs_aarch64_fields bs \<Longrightarrow> GpRegs_aarch64_ok (GpRegs_aarch64_build bs)"
  using fits_nth [of GpRegs_aarch64_fields bs 0]
  by (simp add: GpRegs_aarch64_ok_def GpRegs_aarch64_build_def GpRegs_aarch64_fields_def)

interpretation gpregs_aarch64: struct_codec GpRegs_aarch64_fields GpRegs_aarch64_ok GpRegs_aarch64_parts GpRegs_aarch64_build 272
  by (unfold_locales; (erule GpRegs_aarch64_ok_build)?)
    (auto simp: GpRegs_aarch64_fields_def GpRegs_aarch64_parts_def GpRegs_aarch64_build_def GpRegs_aarch64_ok_def round_up_def two_fold codec_simps)

text \<open>\<open>GpRegs\<close> is one of the two, by the target.\<close>

datatype GpRegs = Gp_x86_64 GpRegs_x86_64 | Gp_aarch64 GpRegs_aarch64

definition GpRegs_size :: "arch \<Rightarrow> nat" where
  "GpRegs_size a = (case a of X86_64 \<Rightarrow> size_of (Struct GpRegs_x86_64_fields) | Aarch64 \<Rightarrow> size_of (Struct GpRegs_aarch64_fields))"

fun GpRegs_ok :: "arch \<Rightarrow> GpRegs \<Rightarrow> bool" where
  "GpRegs_ok X86_64 (Gp_x86_64 g) \<longleftrightarrow> True"
| "GpRegs_ok Aarch64 (Gp_aarch64 g) \<longleftrightarrow> GpRegs_aarch64_ok g"
| "GpRegs_ok _ _ \<longleftrightarrow> False"

fun enc_GpRegs :: "GpRegs \<Rightarrow> byte list" where
  "enc_GpRegs (Gp_x86_64 g) = enc_GpRegs_x86_64 g"
| "enc_GpRegs (Gp_aarch64 g) = enc_GpRegs_aarch64 g"

definition dec_GpRegs :: "arch \<Rightarrow> byte list \<Rightarrow> GpRegs" where
  "dec_GpRegs a b = (case a of X86_64 \<Rightarrow> Gp_x86_64 (dec_GpRegs_x86_64 b) | Aarch64 \<Rightarrow> Gp_aarch64 (dec_GpRegs_aarch64 b))"

text \<open>\<open>GpRegs::default()\<close> is all zero, and so is its image.\<close>

definition GpRegs_zero :: "arch \<Rightarrow> byte list" where
  "GpRegs_zero a = replicate (GpRegs_size a) 0"

fun instruction_pointer :: "GpRegs \<Rightarrow> u64" where
  "instruction_pointer (Gp_x86_64 g) = x_rip g"
| "instruction_pointer (Gp_aarch64 g) = a_pc g"

fun stack_pointer :: "GpRegs \<Rightarrow> u64" where
  "stack_pointer (Gp_x86_64 g) = x_rsp g"
| "stack_pointer (Gp_aarch64 g) = a_sp g"

section \<open>Requests\<close>

definition ptrace_request :: "'k mach \<Rightarrow> i32 \<Rightarrow> i32 \<Rightarrow> i32 \<Rightarrow> ('k, unit) io" where
  "ptrace_request M request pid v =
     call_unit M ''PTRACE'' [Val (scast request), Val (scast pid), Val 0, Val (scast v)]"

definition ptrace_traceme :: "'k mach \<Rightarrow> ('k, unit) io" where
  "ptrace_traceme M = ptrace_request M PTRACE_TRACEME 0 0"

definition ptrace_seize :: "'k mach \<Rightarrow> i32 \<Rightarrow> i32 \<Rightarrow> ('k, unit) io" where
  "ptrace_seize M pid options = ptrace_request M PTRACE_SEIZE pid options"

definition ptrace_cont :: "'k mach \<Rightarrow> i32 \<Rightarrow> i32 \<Rightarrow> ('k, unit) io" where
  "ptrace_cont M pid sig = ptrace_request M PTRACE_CONT pid sig"

definition ptrace_singlestep :: "'k mach \<Rightarrow> i32 \<Rightarrow> i32 \<Rightarrow> ('k, unit) io" where
  "ptrace_singlestep M pid sig = ptrace_request M PTRACE_SINGLESTEP pid sig"

definition ptrace_syscall :: "'k mach \<Rightarrow> i32 \<Rightarrow> i32 \<Rightarrow> ('k, unit) io" where
  "ptrace_syscall M pid sig = ptrace_request M PTRACE_SYSCALL pid sig"

definition ptrace_detach :: "'k mach \<Rightarrow> i32 \<Rightarrow> i32 \<Rightarrow> ('k, unit) io" where
  "ptrace_detach M pid sig = ptrace_request M PTRACE_DETACH pid sig"

definition ptrace_setoptions :: "'k mach \<Rightarrow> i32 \<Rightarrow> i32 \<Rightarrow> ('k, unit) io" where
  "ptrace_setoptions M pid options = ptrace_request M PTRACE_SETOPTIONS pid options"

text \<open>The \<open>iovec\<close> (\<open>RegSetIoVec\<close>) names one buffer of the size of the registers.\<close>

definition ptrace_getregset :: "'k mach \<Rightarrow> i32 \<Rightarrow> ('k, GpRegs) io" where
  "ptrace_getregset M pid =
     call_out M ''PTRACE''
       [Val (scast PTRACE_GETREGSET), Val (scast pid), Val (scast NT_PRSTATUS), IovMut [GpRegs_zero (m_arch M)]]
       (\<lambda>outs. dec_GpRegs (m_arch M) (case out_iov outs 3 of b # _ \<Rightarrow> b | [] \<Rightarrow> []))"

definition ptrace_setregset :: "'k mach \<Rightarrow> i32 \<Rightarrow> GpRegs \<Rightarrow> ('k, unit) io" where
  "ptrace_setregset M pid g =
     call_unit M ''PTRACE''
       [Val (scast PTRACE_SETREGSET), Val (scast pid), Val (scast NT_PRSTATUS), Iov [enc_GpRegs g]]"

definition is_syscall_stop :: "i32 \<Rightarrow> bool" where
  "is_syscall_stop status \<longleftrightarrow> wifstopped status \<and> wstopsig status = (SIGTRAP OR 0x80)"

section \<open>Properties\<close>

lemma dec_enc_GpRegs: "GpRegs_ok a g \<Longrightarrow> dec_GpRegs a (enc_GpRegs g) = g"
  by (cases a; cases g) (simp_all add: dec_GpRegs_def gpregs_x86_64.dec_enc gpregs_aarch64.dec_enc)

lemma length_enc_GpRegs: "GpRegs_ok a g \<Longrightarrow> length (enc_GpRegs g) = GpRegs_size a"
  by (cases a; cases g) (simp_all add: GpRegs_size_def gpregs_x86_64.length_enc gpregs_aarch64.length_enc
      gpregs_x86_64.struct_size gpregs_aarch64.struct_size del: size_of.simps)

text \<open>The kernel's side: a stopped tracee's registers, as bytes of the architecture's size.\<close>

definition regset_contract :: "'k mach \<Rightarrow> i32 \<Rightarrow> ('k \<Rightarrow> byte list) \<Rightarrow> bool" where
  "regset_contract M pid regs \<longleftrightarrow>
     (\<forall>k b. length b = GpRegs_size (m_arch M) \<longrightarrow>
        (\<exists>a0 a1 a2. sys M ''PTRACE'' [Val (scast PTRACE_GETREGSET), Val (scast pid), Val (scast NT_PRSTATUS), IovMut [b]] k
            = (0, [a0, a1, a2, IovMut [regs k]], k))
        \<and> (\<exists>outs k'. sys M ''PTRACE'' [Val (scast PTRACE_SETREGSET), Val (scast pid), Val (scast NT_PRSTATUS), Iov [b]] k
            = (0, outs, k') \<and> regs k' = b))"

text \<open>
  The registers written to a stopped tracee are the registers read back, on both architectures,
  instruction and stack pointer included.
\<close>
lemma regset_round_trip:
  assumes "regset_contract M pid regs" and "GpRegs_ok (m_arch M) g"
  shows "\<exists>k'. ptrace_setregset M pid g k = (Ok (), k') \<and> ptrace_getregset M pid k' = (Ok g, k')"
proof -
  obtain outs k' where set: "sys M ''PTRACE'' [Val (scast PTRACE_SETREGSET), Val (scast pid), Val (scast NT_PRSTATUS),
      Iov [enc_GpRegs g]] k = (0, outs, k')" and now: "regs k' = enc_GpRegs g"
    using assms(1) length_enc_GpRegs [OF assms(2)] unfolding regset_contract_def by blast
  have "length (GpRegs_zero (m_arch M)) = GpRegs_size (m_arch M)" by (simp add: GpRegs_zero_def)
  then obtain a0 a1 a2 where "sys M ''PTRACE'' [Val (scast PTRACE_GETREGSET), Val (scast pid), Val (scast NT_PRSTATUS),
      IovMut [GpRegs_zero (m_arch M)]] k' = (0, [a0, a1, a2, IovMut [regs k']], k')"
    using assms(1) unfolding regset_contract_def by blast
  with set show ?thesis
    by (simp add: ptrace_setregset_def ptrace_getregset_def call_unit_def call_out_def from_ret_def ERRNO_MAX_def
        out_iov_def now dec_enc_GpRegs [OF assms(2)])
qed

definition regset_kernel :: "byte list mach" where
  "regset_kernel = \<lparr>m_arch = Aarch64, m_kernel = \<lambda>n args k. (case args of
     [a0, a1, a2, IovMut [b]] \<Rightarrow> (0, [a0, a1, a2, IovMut [k]], k)
   | [a0, a1, a2, Iov [b]] \<Rightarrow> (0, args, b)
   | _ \<Rightarrow> (- 3, args, k))\<rparr>"

lemma regset_round_trip_example:
  "\<exists>k'. ptrace_setregset regset_kernel 42
        (Gp_aarch64 \<lparr>a_regs = replicate 31 7, a_sp = 0x8000, a_pc = 0x1000, a_pstate = 0\<rparr>) [] = (Ok (), k')
      \<and> ptrace_getregset regset_kernel 42 k'
        = (Ok (Gp_aarch64 \<lparr>a_regs = replicate 31 7, a_sp = 0x8000, a_pc = 0x1000, a_pstate = 0\<rparr>), k')"
proof -
  have "regset_contract regset_kernel 42 (\<lambda>k. k)"
    by (simp add: regset_contract_def regset_kernel_def sys_def)
  then show ?thesis
    by (rule regset_round_trip) (simp add: regset_kernel_def GpRegs_aarch64_ok_def)
qed

text \<open>
  C20: with \<open>PTRACE_O_TRACESYSGOOD\<close> set, a child event is a syscall stop exactly when the child stopped
  with \<open>SIGTRAP\<close> marked by bit 7; no exit, death, continuation or plain \<open>SIGTRAP\<close> is taken for one.
\<close>
theorem syscall_stop_exact:
  assumes "valid_event ev"
  shows "is_syscall_stop (status_of ev) \<longleftrightarrow> ev = Stopped 0x85"
proof -
  have "(ucast sig :: i32) = 0x85 \<longleftrightarrow> sig = 0x85" for sig :: byte
    using ucast_byte_eq [of sig "0x85"] by simp
  then show ?thesis
    using status_decoded [OF assms] unfolding is_syscall_stop_def SIGTRAP_def by (cases ev) auto
qed

theorem syscall_stop_exact_witness:
  "is_syscall_stop (status_of (Stopped 0x85)) \<and> \<not> is_syscall_stop (status_of (Stopped 5))"
  using syscall_stop_exact [of "Stopped 0x85"] syscall_stop_exact [of "Stopped 5"] by auto

end
