(* ===== verification/Layouts.thy ===== *)
theory Layouts
  imports Ptrace Tty Epoll Resources Socket
begin

text \<open>
  The layout assertions of the crate. Each \<open>const _: () = assert!(..)\<close> on a size or an offset is an
  entry here, over the field lists the codecs of the other theories use; they hold under the
  \<open>repr(C)\<close> algorithm of \<open>Layout\<close>. A wrong size or offset in a field list would make the byte images
  exchanged with the kernel wrong.
\<close>

datatype layout_claim = SizeOf cty nat | OffsetOf cty string nat

fun layout_holds :: "layout_claim \<Rightarrow> bool" where
  "layout_holds (SizeOf t n) \<longleftrightarrow> size_of t = n"
| "layout_holds (OffsetOf t f n) \<longleftrightarrow> offset_of t f = Some n"

section \<open>The assertions\<close>

definition EpollEvent_x86_64_asserts :: "layout_claim list" where
  "EpollEvent_x86_64_asserts =
     [SizeOf (EpollEvent_type X86_64) 12,
      OffsetOf (EpollEvent_type X86_64) ''data'' 4]"

definition EpollEvent_aarch64_asserts :: "layout_claim list" where
  "EpollEvent_aarch64_asserts =
     [SizeOf (EpollEvent_type Aarch64) 16,
      OffsetOf (EpollEvent_type Aarch64) ''data'' 8]"

definition PollFd_asserts :: "layout_claim list" where
  "PollFd_asserts =
     [SizeOf (Struct PollFd_fields) 8,
      OffsetOf (Struct PollFd_fields) ''fd'' 0,
      OffsetOf (Struct PollFd_fields) ''events'' 4,
      OffsetOf (Struct PollFd_fields) ''revents'' 6]"

definition IoSlice_asserts :: "layout_claim list" where
  "IoSlice_asserts =
     [SizeOf (Struct IoSlice_fields) 16,
      OffsetOf (Struct IoSlice_fields) ''base'' 0,
      OffsetOf (Struct IoSlice_fields) ''len'' 8]"

definition IoSliceMut_asserts :: "layout_claim list" where
  "IoSliceMut_asserts =
     [SizeOf (Struct IoSliceMut_fields) 16,
      OffsetOf (Struct IoSliceMut_fields) ''base'' 0,
      OffsetOf (Struct IoSliceMut_fields) ''len'' 8]"

definition StatxTimestamp_asserts :: "layout_claim list" where
  "StatxTimestamp_asserts =
     [SizeOf (Struct StatxTimestamp_fields) 16,
      SizeOf (Struct Statx_fields) 256,
      OffsetOf (Struct Statx_fields) ''stx_mode'' 28,
      OffsetOf (Struct Statx_fields) ''stx_ino'' 32,
      OffsetOf (Struct Statx_fields) ''stx_size'' 40,
      OffsetOf (Struct Statx_fields) ''stx_mtime'' 112]"

definition Utsname_asserts :: "layout_claim list" where
  "Utsname_asserts =
     [SizeOf (Struct Utsname_fields) 390]"

definition RemoteIoVec_asserts :: "layout_claim list" where
  "RemoteIoVec_asserts =
     [SizeOf (Struct RemoteIoVec_fields) 16,
      OffsetOf (Struct RemoteIoVec_fields) ''base'' 0,
      OffsetOf (Struct RemoteIoVec_fields) ''len'' 8]"

definition Clone3Args_asserts :: "layout_claim list" where
  "Clone3Args_asserts =
     [SizeOf (Struct Clone3Args_fields) 88]"

definition Redirect_asserts :: "layout_claim list" where
  "Redirect_asserts =
     [SizeOf (Struct Redirect_fields) 8,
      OffsetOf (Struct Redirect_fields) ''newfd'' 4]"

definition GpRegs_x86_64_asserts :: "layout_claim list" where
  "GpRegs_x86_64_asserts =
     [SizeOf (Struct GpRegs_x86_64_fields) 216,
      OffsetOf (Struct GpRegs_x86_64_fields) ''orig_rax'' 120,
      OffsetOf (Struct GpRegs_x86_64_fields) ''rip'' 128,
      OffsetOf (Struct GpRegs_x86_64_fields) ''rsp'' 152]"

definition GpRegs_aarch64_asserts :: "layout_claim list" where
  "GpRegs_aarch64_asserts =
     [SizeOf (Struct GpRegs_aarch64_fields) 272,
      OffsetOf (Struct GpRegs_aarch64_fields) ''sp'' 248,
      OffsetOf (Struct GpRegs_aarch64_fields) ''pc'' 256,
      OffsetOf (Struct GpRegs_aarch64_fields) ''pstate'' 264]"

definition Rlimit_asserts :: "layout_claim list" where
  "Rlimit_asserts =
     [SizeOf (Struct Rlimit_fields) 16]"

definition KernelSigaction_asserts :: "layout_claim list" where
  "KernelSigaction_asserts =
     [SizeOf (Struct KernelSigaction_fields) 32,
      OffsetOf (Struct KernelSigaction_fields) ''sa_handler'' 0,
      OffsetOf (Struct KernelSigaction_fields) ''sa_flags'' 8,
      OffsetOf (Struct KernelSigaction_fields) ''sa_restorer'' 16,
      OffsetOf (Struct KernelSigaction_fields) ''sa_mask'' 24]"

definition SignalfdSiginfo_asserts :: "layout_claim list" where
  "SignalfdSiginfo_asserts =
     [SizeOf (Struct SignalfdSiginfo_fields) 128,
      OffsetOf (Struct SignalfdSiginfo_fields) ''ssi_pid'' 12,
      OffsetOf (Struct SignalfdSiginfo_fields) ''ssi_ptr'' 48,
      OffsetOf (Struct SignalfdSiginfo_fields) ''ssi_addr_lsb'' 80,
      OffsetOf (Struct SignalfdSiginfo_fields) ''ssi_arch'' 96]"

definition SigqueueInfo_asserts :: "layout_claim list" where
  "SigqueueInfo_asserts =
     [SizeOf (Struct SigqueueInfo_fields) 128,
      OffsetOf (Struct SigqueueInfo_fields) ''si_pid'' 16,
      OffsetOf (Struct SigqueueInfo_fields) ''si_value'' 24]"

definition SockAddrIn_asserts :: "layout_claim list" where
  "SockAddrIn_asserts =
     [SizeOf (Struct SockAddrIn_fields) 16,
      OffsetOf (Struct SockAddrIn_fields) ''port'' 2,
      OffsetOf (Struct SockAddrIn_fields) ''addr'' 4]"

definition SockAddrIn6_asserts :: "layout_claim list" where
  "SockAddrIn6_asserts =
     [SizeOf (Struct SockAddrIn6_fields) 28,
      OffsetOf (Struct SockAddrIn6_fields) ''port'' 2,
      OffsetOf (Struct SockAddrIn6_fields) ''flowinfo'' 4,
      OffsetOf (Struct SockAddrIn6_fields) ''addr'' 8,
      OffsetOf (Struct SockAddrIn6_fields) ''scope_id'' 24]"

definition Sysinfo_asserts :: "layout_claim list" where
  "Sysinfo_asserts =
     [SizeOf (Struct Sysinfo_fields) 112,
      OffsetOf (Struct Sysinfo_fields) ''loads'' 8,
      OffsetOf (Struct Sysinfo_fields) ''totalram'' 32,
      OffsetOf (Struct Sysinfo_fields) ''freeswap'' 72,
      OffsetOf (Struct Sysinfo_fields) ''procs'' 80,
      OffsetOf (Struct Sysinfo_fields) ''totalhigh'' 88,
      OffsetOf (Struct Sysinfo_fields) ''freehigh'' 96,
      OffsetOf (Struct Sysinfo_fields) ''mem_unit'' 104]"

definition Termios_asserts :: "layout_claim list" where
  "Termios_asserts =
     [SizeOf (Struct Termios_fields) 36,
      OffsetOf (Struct Termios_fields) ''c_iflag'' 0,
      OffsetOf (Struct Termios_fields) ''c_oflag'' 4,
      OffsetOf (Struct Termios_fields) ''c_cflag'' 8,
      OffsetOf (Struct Termios_fields) ''c_lflag'' 12,
      OffsetOf (Struct Termios_fields) ''c_line'' 16,
      OffsetOf (Struct Termios_fields) ''c_cc'' 17]"

definition Timespec_asserts :: "layout_claim list" where
  "Timespec_asserts =
     [SizeOf (Struct Timespec_fields) 16]"

definition Itimerspec_asserts :: "layout_claim list" where
  "Itimerspec_asserts =
     [SizeOf (Struct Itimerspec_fields) 32,
      OffsetOf (Struct Itimerspec_fields) ''it_value'' 16]"

definition Winsize_asserts :: "layout_claim list" where
  "Winsize_asserts =
     [SizeOf (Struct Winsize_fields) 8]"

definition Timeval_asserts :: "layout_claim list" where
  "Timeval_asserts =
     [SizeOf (Struct Timeval_fields) 16,
      SizeOf (Struct Rusage_fields) 144,
      OffsetOf (Struct Rusage_fields) ''stime'' 16,
      OffsetOf (Struct Rusage_fields) ''maxrss'' 32,
      OffsetOf (Struct Rusage_fields) ''nivcsw'' 136]"

definition Siginfo_asserts :: "layout_claim list" where
  "Siginfo_asserts =
     [SizeOf (Struct Siginfo_fields) 128,
      OffsetOf (Struct Siginfo_fields) ''si_code'' 8,
      OffsetOf (Struct Siginfo_fields) ''si_pid'' 16,
      OffsetOf (Struct Siginfo_fields) ''si_status'' 24]"

section \<open>They hold\<close>

lemma EpollEvent_x86_64_asserts_hold: "list_all layout_holds EpollEvent_x86_64_asserts"
  by (simp add: EpollEvent_x86_64_asserts_def EpollEvent_fields_def EpollEvent_type_def round_up_def two_fold)

lemma EpollEvent_aarch64_asserts_hold: "list_all layout_holds EpollEvent_aarch64_asserts"
  by (simp add: EpollEvent_aarch64_asserts_def EpollEvent_fields_def EpollEvent_type_def round_up_def two_fold)

lemma PollFd_asserts_hold: "list_all layout_holds PollFd_asserts"
  by (simp add: PollFd_asserts_def PollFd_fields_def round_up_def two_fold)

lemma IoSlice_asserts_hold: "list_all layout_holds IoSlice_asserts"
  by (simp add: IoSlice_asserts_def IoSlice_fields_def round_up_def two_fold)

lemma IoSliceMut_asserts_hold: "list_all layout_holds IoSliceMut_asserts"
  by (simp add: IoSliceMut_asserts_def IoSliceMut_fields_def round_up_def two_fold)

lemma StatxTimestamp_asserts_hold: "list_all layout_holds StatxTimestamp_asserts"
  by (simp add: StatxTimestamp_asserts_def StatxTimestamp_fields_def Statx_fields_def round_up_def two_fold)

lemma Utsname_asserts_hold: "list_all layout_holds Utsname_asserts"
  by (simp add: Utsname_asserts_def Utsname_fields_def round_up_def two_fold)

lemma RemoteIoVec_asserts_hold: "list_all layout_holds RemoteIoVec_asserts"
  by (simp add: RemoteIoVec_asserts_def RemoteIoVec_fields_def round_up_def two_fold)

lemma Clone3Args_asserts_hold: "list_all layout_holds Clone3Args_asserts"
  by (simp add: Clone3Args_asserts_def Clone3Args_fields_def round_up_def two_fold)

lemma Redirect_asserts_hold: "list_all layout_holds Redirect_asserts"
  by (simp add: Redirect_asserts_def Redirect_fields_def round_up_def two_fold)

lemma GpRegs_x86_64_asserts_hold: "list_all layout_holds GpRegs_x86_64_asserts"
  by (simp add: GpRegs_x86_64_asserts_def GpRegs_x86_64_fields_def round_up_def two_fold)

lemma GpRegs_aarch64_asserts_hold: "list_all layout_holds GpRegs_aarch64_asserts"
  by (simp add: GpRegs_aarch64_asserts_def GpRegs_aarch64_fields_def round_up_def two_fold)

lemma Rlimit_asserts_hold: "list_all layout_holds Rlimit_asserts"
  by (simp add: Rlimit_asserts_def Rlimit_fields_def round_up_def two_fold)

lemma KernelSigaction_asserts_hold: "list_all layout_holds KernelSigaction_asserts"
  by (simp add: KernelSigaction_asserts_def KernelSigaction_fields_def round_up_def two_fold)

lemma SignalfdSiginfo_asserts_hold: "list_all layout_holds SignalfdSiginfo_asserts"
  by (simp add: SignalfdSiginfo_asserts_def SignalfdSiginfo_fields_def round_up_def two_fold)

lemma SigqueueInfo_asserts_hold: "list_all layout_holds SigqueueInfo_asserts"
  by (simp add: SigqueueInfo_asserts_def SigqueueInfo_fields_def round_up_def two_fold)

lemma SockAddrIn_asserts_hold: "list_all layout_holds SockAddrIn_asserts"
  by (simp add: SockAddrIn_asserts_def SockAddrIn_fields_def round_up_def two_fold)

lemma SockAddrIn6_asserts_hold: "list_all layout_holds SockAddrIn6_asserts"
  by (simp add: SockAddrIn6_asserts_def SockAddrIn6_fields_def round_up_def two_fold)

lemma Sysinfo_asserts_hold: "list_all layout_holds Sysinfo_asserts"
  by (simp add: Sysinfo_asserts_def Sysinfo_fields_def round_up_def two_fold)

lemma Termios_asserts_hold: "list_all layout_holds Termios_asserts"
  by (simp add: Termios_asserts_def Termios_fields_def round_up_def two_fold)

lemma Timespec_asserts_hold: "list_all layout_holds Timespec_asserts"
  by (simp add: Timespec_asserts_def Timespec_fields_def round_up_def two_fold)

lemma Itimerspec_asserts_hold: "list_all layout_holds Itimerspec_asserts"
  by (simp add: Itimerspec_asserts_def Itimerspec_fields_def Timespec_fields_def round_up_def two_fold)

lemma Winsize_asserts_hold: "list_all layout_holds Winsize_asserts"
  by (simp add: Winsize_asserts_def Winsize_fields_def round_up_def two_fold)

lemma Timeval_asserts_hold: "list_all layout_holds Timeval_asserts"
  by (simp add: Timeval_asserts_def Rusage_fields_def Timeval_fields_def round_up_def two_fold)

lemma Siginfo_asserts_hold: "list_all layout_holds Siginfo_asserts"
  by (simp add: Siginfo_asserts_def Siginfo_fields_def round_up_def two_fold)

text \<open>
  Every layout assertion of the crate holds: the sizes and offsets of the structs exchanged with the
  kernel, on both architectures where they differ, are those the C layout rules give.
\<close>
lemma layout_assertions_hold:
  "list_all layout_holds (EpollEvent_x86_64_asserts
     @ EpollEvent_aarch64_asserts
     @ PollFd_asserts
     @ IoSlice_asserts
     @ IoSliceMut_asserts
     @ StatxTimestamp_asserts
     @ Utsname_asserts
     @ RemoteIoVec_asserts
     @ Clone3Args_asserts
     @ Redirect_asserts
     @ GpRegs_x86_64_asserts
     @ GpRegs_aarch64_asserts
     @ Rlimit_asserts
     @ KernelSigaction_asserts
     @ SignalfdSiginfo_asserts
     @ SigqueueInfo_asserts
     @ SockAddrIn_asserts
     @ SockAddrIn6_asserts
     @ Sysinfo_asserts
     @ Termios_asserts
     @ Timespec_asserts
     @ Itimerspec_asserts
     @ Winsize_asserts
     @ Timeval_asserts
     @ Siginfo_asserts)"
  by (simp only: list_all_append EpollEvent_x86_64_asserts_hold EpollEvent_aarch64_asserts_hold PollFd_asserts_hold IoSlice_asserts_hold IoSliceMut_asserts_hold StatxTimestamp_asserts_hold Utsname_asserts_hold RemoteIoVec_asserts_hold Clone3Args_asserts_hold Redirect_asserts_hold GpRegs_x86_64_asserts_hold GpRegs_aarch64_asserts_hold Rlimit_asserts_hold KernelSigaction_asserts_hold SignalfdSiginfo_asserts_hold SigqueueInfo_asserts_hold SockAddrIn_asserts_hold SockAddrIn6_asserts_hold Sysinfo_asserts_hold Termios_asserts_hold Timespec_asserts_hold Itimerspec_asserts_hold Winsize_asserts_hold Timeval_asserts_hold Siginfo_asserts_hold simp_thms)

end
