(* ===== verification/Spec2Isabelle.thy ===== *)
theory Spec2Isabelle
  imports Ledger Layouts
begin

text \<open>
  A verification of \<open>rusty_libc\<close>, a Rust crate for Linux that replaces the C library's system-call wrappers by
  raw system calls on x86_64 and aarch64. File names below are those of the repository, so that
  \<open>src/fd.rs\<close> is the module \<open>fd\<close> of the crate.

  \<^bold>\<open>The program and its parts.\<close>
  The architecture layer \<open>src/arch\<close> holds the error type, the tables of system-call numbers, the assembly stubs
  \<open>syscall0\<close> to \<open>syscall6\<close> and the two \<open>vfork\<close> trampolines. Every other module is a set of typed wrappers over
  those stubs. Some add logic of their own: the transfer loops and the portable \<open>dup2\<close> and \<open>poll\<close> in
  \<open>fd\<close>, the stub resolver in \<open>dns\<close> (over \<open>fd\<close>, \<open>socket\<close> and \<open>rand\<close>), the ELF walk behind
  \<open>clock_gettime\<close> in \<open>vdso\<close> (called by \<open>time\<close>), the record iterators of \<open>fs\<close> and \<open>inotify\<close>, the status
  decoders of \<open>wait\<close>, raw mode and terminal names in \<open>termios\<close>, \<open>openpty\<close> in \<open>tty\<close>, handler
  installation in \<open>signal\<close> and process creation in \<open>process\<close>.

  \<^bold>\<open>How it is modelled.\<close>
  A function of the crate is a function of the same name. Its result is \<open>Ok\<close>, \<open>Err\<close> with an \<open>Errno\<close>, or
  \<open>Panic\<close>, where a bounds check, a slice or an \<open>unwrap\<close> fails. Effects are state passing over the state
  \<open>'k\<close> of the kernel. The kernel itself is not part of the crate: it is the parameter \<open>m_kernel\<close> of a machine,
  a function from number, arguments and state to the raw result, the arguments as written back and
  the new state. A pointer argument carries the memory it points at, so that struct arguments appear as
  the bytes the kernel sees. Integers have their width; arithmetic wraps as in a release build, except that an
  index out of range panics. Struct layouts are computed from the field lists by the C rules. Loops
  that may depend on the kernel forever (\<open>read_all\<close>, \<open>write_all\<close>, the reading of \<open>/proc/self/auxv\<close>) are partial
  functions into \<open>option\<close>; the theorems about them prove that they return. Memory from
  \<open>MaybeUninit::uninit()\<close> is modelled as zeros, which is sound because it is read only after it was written.
  What a property needs of the kernel is a named contract, stated from the manual page of the call; each
  has an instance in the witness of the property.

  \<^bold>\<open>The theories.\<close>
  \<^item> \<open>Libc_Prelude\<close>: words, results, the effect combinators, byte codecs of integers, decimal numbers.
  \<^item> \<open>Layout\<close>: C struct layout; the locale \<open>codec\<close> of a type with a byte image and \<open>struct_codec\<close>, which gives
    one from a field list; every kernel struct of the crate is an interpretation of it.
  \<^item> \<open>Arch\<close> (\<open>src/arch\<close>): \<open>Errno\<close>, \<open>from_ret\<close>, the number tables, the stubs over registers, the
    call forms of the wrappers. Decoding is exact; the stubs meet the calling convention.
  \<^item> \<open>Vfork\<close> (\<open>src/arch\<close>): the trampolines, instruction by instruction, on a machine with registers, flags and
    memory. The aarch64 child does what is specified. The x86_64 child applies only the first effective
    redirection, because \<open>syscall\<close> overwrites the loop counter. Running is by fuel: 11 steps for the plain
    trampolines, 5 in the parent (where all other registers are kept), \<open>15 n + 20\<close> and \<open>9 n + 28\<close> for \<open>n\<close> redirections, and the theorems prove that this
    is enough.
  \<^item> \<open>Fd\<close> (\<open>src/fd.rs\<close>): all wrappers; \<open>dup2\<close> and \<open>poll\<close> agree on both architectures; contracts on the set of
    open descriptors.
  \<^item> \<open>Fd_Loops\<close> (\<open>src/fd.rs\<close>): the transfer loops deliver or fill exactly what they promise, always end, and
    keep the open descriptors.
  \<^item> \<open>Socket\<close> (\<open>src/socket.rs\<close>, \<open>src/rand.rs\<close>): the calls; address images, proved once for both families in
    the locale \<open>sockaddr\<close>.
  \<^item> \<open>Dns\<close> (\<open>src/dns.rs\<close>): queries are the RFC 1035 encoding; parsing is right on every well-formed response and
    safe on every byte sequence (proved once for both record types in the locale \<open>record_kind\<close>);
    \<open>resolv.conf\<close> is read back.
  \<^item> \<open>Resolver\<close> (\<open>src/dns.rs\<close>): the exchange as a whole. Accepted replies are authentic; it never panics and leaks
    no descriptor; the courses an exchange can take are the relation \<open>exchange\<close>, and what the caller is told is proved for each of them.
  \<^item> \<open>Wait\<close> (\<open>src/wait.rs\<close>): the calls and the status decoders against the kernel's encoding.
  \<^item> \<open>Vdso\<close>, \<open>Time\<close> (\<open>src/vdso.rs\<close>, \<open>src/time.rs\<close>): auxiliary vector, symbol lookup in a memory image, the cache
    as a state machine of any number of threads with interleaved relaxed accesses, in which resolving may fail in one
    thread and not in another; the first call from the auxiliary vector to the resolved function, the clock read through
    it, time conversions.
  \<^item> \<open>Records\<close>, \<open>Fs\<close>, \<open>Inotify\<close> (\<open>src/fs.rs\<close>, \<open>src/inotify.rs\<close>): iteration over variable-length kernel records, proved
    once in the locale \<open>record_iter\<close>; reading a directory by \<open>getdents64\<close>; the path calls and \<open>statx\<close>.
  \<^item> \<open>Process\<close>, \<open>Signal\<close>, \<open>Ptrace\<close> (\<open>src/process.rs\<close>, \<open>src/signal.rs\<close>, \<open>src/ptrace.rs\<close>): all calls; argument vectors, priorities,
    the results of \<open>vfork_exec\<close>; installation of handlers with the restorer, critical sections by masks; registers
    of a tracee.
  \<^item> \<open>Termios\<close>, \<open>Tty\<close> (\<open>src/termios.rs\<close>, \<open>src/tty.rs\<close>): raw mode, what the kernel is asked for when
    attributes are saved, set and restored, terminal names, pseudoterminals without leaks.
  \<^item> \<open>Epoll\<close>, \<open>Resources\<close> (\<open>src/epoll.rs\<close>, \<open>src/mmap.rs\<close>, \<open>src/rlimit.rs\<close>, \<open>src/sysinfo.rs\<close>, \<open>src/eventfd.rs\<close>, \<open>src/umask.rs\<close>).
  \<^item> \<open>Ledger\<close>: descriptors across the modules. What every call that hands out descriptors promises is the locale
    \<open>fd_source\<close>, interpreted on nineteen calls of ten modules; what the calls that put a descriptor onto a given number
    promise is \<open>fd_replacer\<close>, interpreted on \<open>dup2\<close> and \<open>dup3\<close>. A client that also uses \<open>close_range\<close>, the transfer
    loops, the resolver and the clock has an exact ledger in every reachable state, and the vDSO lookup
    loses it at most one descriptor. \<open>fork_with_pidfd\<close> and \<open>clone3\<close>, whose result is another process, are not steps of the client.
  \<^item> \<open>Layouts\<close>: the size and offset assertions of all modules, evaluated over the field lists of the codecs.
  \<^item> This theory: spawning composed with waiting.

  \<^bold>\<open>What modelling showed.\<close>
  The x86_64 trampoline drops every redirection after the first (\<open>x86_64_vfork_redirects\<close>); \<open>vdso_base\<close> leaves its
  descriptor open when the read fails (\<open>auxv_leak_example\<close>, accounted for in \<open>client_ledger\<close>); \<open>nice\<close> overflows before it is clamped
  (\<open>nice_exact\<close>); \<open>fork_with_pidfd\<close> gives \<open>clone3\<close> a null address to store the descriptor at and so fails
  (\<open>fork_with_pidfd_null\<close>); a thread that fails to resolve the vDSO function overwrites what another has cached, against a
  comment (\<open>cache_race_harmless\<close> and its witness); \<open>from_millis\<close> gives nanoseconds outside their documented range for negative
  counts (\<open>from_millis_exact\<close>); the aarch64 \<open>poll\<close> lets \<open>ppoll\<close> write behind a shared reference; a failed \<open>execve\<close> is not reported by \<open>vfork_exec\<close>, against its comment (\<open>vfork_exec_parent\<close>).

  \<^bold>\<open>Not modelled.\<close>
  The unit tests, the benchmark crate and \<open>src/lib.rs\<close>, which only declares modules; trait derivations other than \<open>Default\<close> where it is used. What the kernel
  does inside a call, what a signal handler or a cloned child does afterwards, and the address space behind
  \<open>mmap\<close> are outside the crate. Memory safety of the \<open>unsafe\<close> interfaces is the caller's obligation and is not
  stated; that no wrapper hands the kernel a wrong length is visible in its arguments.
\<close>

section \<open>Spawning and waiting\<close>

text \<open>
  The child that \<open>vfork_exec_redirected\<close> of \<open>src/process.rs\<close> starts: the same trampoline as in the parent, in the
  process in which \<open>clone\<close> returns 0. It never returns to its caller; the value is the state of the
  system in which it is gone.
\<close>

definition gone_state :: "('r, 'k) config \<Rightarrow> 'k option" where
  "gone_state c = (case c of Gone k \<Rightarrow> Some k | _ \<Rightarrow> None)"

definition redirected_child ::
  "'k vhost \<Rightarrow> nat \<Rightarrow> usize \<Rightarrow> usize \<Rightarrow> usize \<Rightarrow> usize \<Rightarrow> usize \<Rightarrow> 'k \<Rightarrow> 'k option" where
  "redirected_child H fuel path argv envp redirects redirects_len k = (case v_arch H of
       X86_64 \<Rightarrow> gone_state (run (xstep (v_kernel H) (v_mem H) (v_rip H) (v_rfl H) x86_64_vfork_execve_redirected) fuel
         (Running 0 (x86_64_entry (v_xregs H) VFORK_FLAGS path argv envp redirects redirects_len) (v_flags H) k))
     | Aarch64 \<Rightarrow> gone_state (run (astep (v_kernel H) (v_mem H) aarch64_vfork_execve_redirected) fuel
         (Running 0 (aarch64_entry (v_aregs H) VFORK_FLAGS path argv envp redirects redirects_len) (v_flags H) k)))"

text \<open>
  The redirections an architecture applies, the call it makes for one, and what the child relies on
  of the kernel.
\<close>

definition applied_redirects :: "arch \<Rightarrow> (i32 \<times> i32) list \<Rightarrow> (i32 \<times> i32) list" where
  "applied_redirects a rs = (case a of X86_64 \<Rightarrow> first_effective rs | Aarch64 \<Rightarrow> rs)"

definition dup_call :: "'k vhost \<Rightarrow> i32 \<Rightarrow> i32 \<Rightarrow> 'k \<Rightarrow> usize option \<times> 'k" where
  "dup_call H = (case v_arch H of X86_64 \<Rightarrow> dup2_call (v_kernel H) | Aarch64 \<Rightarrow> dup3_call (v_kernel H))"

definition spawn_contract :: "'k vhost \<Rightarrow> bool" where
  "spawn_contract H \<longleftrightarrow> (case v_arch H of
       X86_64 \<Rightarrow> vfork_contract (v_kernel H) X86_64 ''DUP2'' 2
     | Aarch64 \<Rightarrow> vfork_contract (v_kernel H) Aarch64 ''DUP3'' 3)"

text \<open>
  What \<open>wait4\<close> promises of a child that left with \<open>exit_group\<close>: it is reaped under its pid, with the
  low eight bits of its status.
\<close>

definition reaps :: "'k mach \<Rightarrow> 'k vhost \<Rightarrow> i32 \<Rightarrow> bool" where
  "reaps M H pid \<longleftrightarrow> (\<forall>status k. \<exists>k'.
     sys M ''WAIT4'' [Val (scast pid), MutPtr (le_bytes 4 (0 :: i32)), Val 0, Val 0]
       (snd (exit_call (v_kernel H) (v_arch H) status k))
     = (scast pid, [Val (scast pid), MutPtr (le_bytes 4 (status_of (Exited (ucast status)))), Val 0, Val 0], k'))"

text \<open>A parent that waits for the child sees it exit with code \<open>c\<close>.\<close>

definition exit_observed :: "'k mach \<Rightarrow> i32 \<Rightarrow> i32 \<Rightarrow> 'k \<Rightarrow> bool" where
  "exit_observed M pid c k \<longleftrightarrow> (\<exists>status k'. waitpid M pid 0 k = (Ok (pid, status), k')
     \<and> wifexited status \<and> wexitstatus status = c \<and> \<not> wifsignaled status \<and> \<not> wifstopped status)"

lemma exit_is_observed:
  assumes "reaps M H pid" and "0 < sint pid"
  shows "exit_observed M pid (ucast (ucast status :: byte)) (snd (exit_call (v_kernel H) (v_arch H) status k))"
proof -
  let ?st = "status_of (Exited (ucast status))"
  have pid: "from_ret_i32 (scast pid) = Ok pid"
    using assms(2) by (simp add: from_ret_i32_nonneg)
  obtain k' where "sys M ''WAIT4'' [Val (scast pid), MutPtr (le_bytes 4 (0 :: i32)), Val 0, Val 0]
       (snd (exit_call (v_kernel H) (v_arch H) status k))
     = (scast pid, [Val (scast pid), MutPtr (le_bytes 4 ?st), Val 0, Val 0], k')"
    using assms(1) unfolding reaps_def by blast
  then have "waitpid M pid 0 (snd (exit_call (v_kernel H) (v_arch H) status k)) = (Ok (pid, ?st), k')"
    by (simp add: waitpid_def call_i32_out_def pid out_bytes_def le_word_le_bytes_full)
  then show ?thesis
    using status_decoded [of "Exited (ucast status)"] unfolding exit_observed_def by auto
qed

lemma redirected_child_spec:
  assumes "spawn_contract H" and "clone_returns (v_kernel H) (v_arch H) VFORK_FLAGS 0 k k1"
    and "redirects_at (v_mem H) base rs" and "length rs < 2 ^ 63" and "\<not> v_rip H 13 + 1 < of_nat (length rs)"
    and "15 * length rs + 28 \<le> fuel"
  shows "redirected_child H fuel path argv envp base (of_nat (length rs)) k
    = Some (child_spec (dup_call H) (execve_call (v_kernel H) (v_arch H) path argv envp)
        (exit_call (v_kernel H) (v_arch H)) (applied_redirects (v_arch H) rs) k1)"
proof (cases "v_arch H")
  case X86_64
  have "vfork_contract (v_kernel H) X86_64 ''DUP2'' 2" and "clone_returns (v_kernel H) X86_64 VFORK_FLAGS 0 k k1"
    using assms(1,2) by (simp_all add: spawn_contract_def X86_64)
  note child = reaches_fixed [OF x86_64_child [where rip = "v_rip H", OF this assms(3-5)] xstep_final(1), of fuel]
  show ?thesis
    using assms(6)
    by (simp add: child redirected_child_def dup_call_def applied_redirects_def gone_state_def X86_64)
next
  case Aarch64
  have "vfork_contract (v_kernel H) Aarch64 ''DUP3'' 3" and "clone_returns (v_kernel H) Aarch64 VFORK_FLAGS 0 k k1"
    using assms(1,2) by (simp_all add: spawn_contract_def Aarch64)
  note child = reaches_fixed [OF aarch64_child [OF this assms(3,4)] astep_final(1), of fuel]
  show ?thesis
    using assms(6)
    by (simp add: child redirected_child_def dup_call_def applied_redirects_def gone_state_def Aarch64)
qed

text \<open>
  C4: the convention by which a failed spawn is reported works through all the parts: the child of
  \<open>vfork_exec_redirected\<close> always ends, and a parent that then calls \<open>waitpid\<close> and decodes the status sees
  exit code 126 when one of the redirections failed and 127 when \<open>execve\<close> came back; when neither
  failed, the child is the new program.
\<close>
theorem spawn_failure_observed:
  assumes "spawn_contract H" and "clone_returns (v_kernel H) (v_arch H) VFORK_FLAGS 0 k k1"
    and "redirects_at (v_mem H) base rs" and "length rs < 2 ^ 63" and "\<not> v_rip H 13 + 1 < of_nat (length rs)"
    and "15 * length rs + 28 \<le> fuel" and "reaps M H pid" and "0 < sint pid"
  shows "\<exists>k2. redirected_child H fuel path argv envp base (of_nat (length rs)) k = Some k2
    \<and> (case apply_redirects (dup_call H) (applied_redirects (v_arch H) rs) k1 of
         (None, k') \<Rightarrow> k2 = k'
       | (Some False, k') \<Rightarrow> exit_observed M pid 126 k2
       | (Some True, k') \<Rightarrow> (case execve_call (v_kernel H) (v_arch H) path argv envp k' of
             (None, k'') \<Rightarrow> k2 = k''
           | (Some e, k'') \<Rightarrow> exit_observed M pid 127 k2))"
  unfolding redirected_child_spec [OF assms(1-6)]
  using exit_is_observed [OF assms(7,8), of 126] exit_is_observed [OF assms(7,8), of 127]
  by (simp add: child_spec_def split: prod.splits option.splits bool.splits)

text \<open>
  A kernel on which no program can be executed, and the wait call over its log.
\<close>

definition noexec_kernel :: "(usize \<times> usize list) list vkernel" where
  "noexec_kernel n args k =
     (if n = nr Aarch64 ''EXECVE'' then (Some (- 2), k @ [(n, take 3 args)]) else log_kernel Aarch64 0 n args k)"

definition noexec_host :: "(usize \<times> usize list) list vhost" where
  "noexec_host = \<lparr>v_arch = Aarch64, v_kernel = noexec_kernel, v_mem = two_redirects, v_rip = (\<lambda>_. 0x400000),
     v_rfl = 0x246, v_xregs = (\<lambda>_. 0), v_aregs = (\<lambda>_. 0), v_flags = no_flags\<rparr>"

definition log_wait :: "(usize \<times> usize list) list mach" where
  "log_wait = \<lparr>m_arch = Aarch64, m_kernel = (\<lambda>n args k.
     (42, [Val 42, MutPtr (le_bytes 4 (status_of (Exited (ucast (hd (snd (last k))))))), Val 0, Val 0], k))\<rparr>"

theorem spawn_failure_observed_witness:
  "\<exists>k2. redirected_child noexec_host 58 7 8 9 0x1000 2 [] = Some k2 \<and> exit_observed log_wait 42 127 k2"
proof -
  have "spawn_contract noexec_host"
    by (simp add: spawn_contract_def noexec_host_def vfork_contract_def reads_args_def noexec_kernel_def
        log_kernel_def vfork_nrs)
  moreover have "clone_returns (v_kernel noexec_host) (v_arch noexec_host) VFORK_FLAGS 0 [] []"
    by (simp add: clone_returns_def noexec_host_def noexec_kernel_def log_kernel_def vfork_nrs)
  moreover have "redirects_at (v_mem noexec_host) 0x1000 [(3, 0), (4, 1)]"
    by (simp add: noexec_host_def two_redirects_at)
  moreover have "reaps log_wait noexec_host 42"
    by (simp add: reaps_def log_wait_def sys_def exit_call_def noexec_host_def noexec_kernel_def log_kernel_def vfork_nrs)
  ultimately show ?thesis
    using spawn_failure_observed [of noexec_host "[]" "[]" "0x1000" "[(3, 0), (4, 1)]" 58 log_wait 42 7 8 9]
    by (simp add: applied_redirects_def dup_call_def dup3_call_def execve_call_def noexec_host_def noexec_kernel_def
        log_kernel_def vfork_nrs)
qed

end
